(* ===== verification/Prelude.thy ===== *)
theory Prelude
  imports Main "HOL-Library.Word" "HOL-Library.Char_ord" "HOL-Library.List_Lexorder"
    "HOL-Library.Product_Lexorder" "HOL-Library.Multiset"
begin

text \<open>
  Shared vocabulary of the development.  It holds the result type of the fallible
  operations (\<open>error + 'a\<close>, with \<open>Inl\<close> for the error, as every
  \<open>Result\<close> of the Rust crate is translated), the sequencing operators for it, the lemmas
  on keyed tables (lists of rows with a key, the form SQLite tables take in the model) and on
  sorting that several components share, and the named collections that carry the proofs.
\<close>

named_theorems res_simps \<open>rewriting of the result combinators\<close>
named_theorems tab_simps \<open>rewriting of lookups and updates on keyed tables\<close>

section \<open>Results\<close>

text \<open>The \<open>?\<close> operator of Rust: go on with the value, or return the error.\<close>

definition then_ok :: "'e + 'a \<Rightarrow> ('a \<Rightarrow> 'e + 'b) \<Rightarrow> 'e + 'b" where
  "then_ok m f = (case m of Inl e \<Rightarrow> Inl e | Inr a \<Rightarrow> f a)"

text \<open>\<open>map_err\<close>, also the implicit \<open>From\<close> conversion that \<open>?\<close> applies.\<close>

definition map_err :: "('e \<Rightarrow> 'f) \<Rightarrow> 'e + 'a \<Rightarrow> 'f + 'a" where
  "map_err g m = (case m of Inl e \<Rightarrow> Inl (g e) | Inr a \<Rightarrow> Inr a)"

text \<open>\<open>ok_or_else\<close> on an option.\<close>

definition ok_or :: "'e \<Rightarrow> 'a option \<Rightarrow> 'e + 'a" where
  "ok_or e m = (case m of None \<Rightarrow> Inl e | Some a \<Rightarrow> Inr a)"

text \<open>\<open>collect\<close> into a result: the first error wins.\<close>

fun collect_res :: "('a \<Rightarrow> 'e + 'b) \<Rightarrow> 'a list \<Rightarrow> 'e + 'b list" where
  "collect_res f [] = Inr []"
| "collect_res f (x # xs) =
     (case f x of Inl e \<Rightarrow> Inl e
      | Inr y \<Rightarrow> (case collect_res f xs of Inl e \<Rightarrow> Inl e | Inr ys \<Rightarrow> Inr (y # ys)))"

lemma then_ok_simps [simp, res_simps]:
  "then_ok (Inl e) f = Inl e"
  "then_ok (Inr a) f = f a"
  by (simp_all add: then_ok_def)

lemma map_err_simps [simp, res_simps]:
  "map_err g (Inl e) = Inl (g e)"
  "map_err g (Inr a) = Inr a"
  by (simp_all add: map_err_def)

lemma ok_or_simps [simp, res_simps]:
  "ok_or e None = Inl e"
  "ok_or e (Some a) = Inr a"
  by (simp_all add: ok_or_def)

lemma then_ok_Inr_iff: "then_ok m f = Inr b \<longleftrightarrow> (\<exists>a. m = Inr a \<and> f a = Inr b)"
  by (cases m) auto

lemma map_err_Inr_iff [simp]: "map_err g m = Inr a \<longleftrightarrow> m = Inr a"
  by (cases m) auto

lemma ok_or_Inr_iff [simp]: "ok_or e m = Inr a \<longleftrightarrow> m = Some a"
  by (cases m) auto

lemma ok_or_Inl_iff [simp]: "ok_or e m = Inl e' \<longleftrightarrow> m = None \<and> e' = e"
  by (cases m) auto

lemma collect_res_Inr_iff:
  "collect_res f xs = Inr ys \<longleftrightarrow> list_all2 (\<lambda>x y. f x = Inr y) xs ys"
proof (induction xs arbitrary: ys)
  case Nil
  then show ?case by auto
next
  case (Cons x xs)
  show ?case
    by (cases ys) (auto simp: Cons.IH [symmetric] split: sum.splits)
qed

lemma collect_res_all_ok:
  "(\<And>x. x \<in> set xs \<Longrightarrow> f x = Inr (g x)) \<Longrightarrow> collect_res f xs = Inr (map g xs)"
  by (induction xs) auto

lemma collect_res_length: "collect_res f xs = Inr ys \<Longrightarrow> length ys = length xs"
  by (auto simp: collect_res_Inr_iff dest: list_all2_lengthD)

lemma collect_res_Inl_iff:
  "(\<exists>e. collect_res f xs = Inl e) \<longleftrightarrow> (\<exists>x\<in>set xs. \<exists>e. f x = Inl e)"
  by (induction xs) (auto split: sum.splits)

lemma collect_res_append:
  "collect_res f (xs @ ys) =
     then_ok (collect_res f xs) (\<lambda>as. then_ok (collect_res f ys) (\<lambda>bs. Inr (as @ bs)))"
  by (induction xs) (auto simp: then_ok_def split: sum.splits)

section \<open>Keyed tables\<close>

text \<open>
  A SQLite table with a primary key is a list of rows, in insertion order, whose keys are
  distinct.  \<open>find_row\<close> is the lookup by key, \<open>upd_rows\<close> an
  \<open>UPDATE ... WHERE\<close>, \<open>filter\<close> a \<open>DELETE\<close>.
\<close>

definition has_key :: "('r \<Rightarrow> 'k) \<Rightarrow> 'k \<Rightarrow> 'r list \<Rightarrow> bool" where
  "has_key key k rows = (k \<in> set (map key rows))"

definition find_row :: "('r \<Rightarrow> 'k) \<Rightarrow> 'k \<Rightarrow> 'r list \<Rightarrow> 'r option" where
  "find_row key k rows = find (\<lambda>r. key r = k) rows"

definition upd_rows :: "('r \<Rightarrow> bool) \<Rightarrow> ('r \<Rightarrow> 'r) \<Rightarrow> 'r list \<Rightarrow> 'r list" where
  "upd_rows p f rows = map (\<lambda>r. if p r then f r else r) rows"

lemma find_row_Nil [simp]: "find_row key k [] = None"
  by (simp add: find_row_def)

lemma find_row_Cons [simp]:
  "find_row key k (r # rows) = (if key r = k then Some r else find_row key k rows)"
  by (simp add: find_row_def)

lemma find_row_append:
  "find_row key k (xs @ ys) =
     (case find_row key k xs of None \<Rightarrow> find_row key k ys | Some r \<Rightarrow> Some r)"
  by (induction xs) auto

lemma find_row_None [tab_simps]: "find_row key k rows = None \<longleftrightarrow> k \<notin> key ` set rows"
  by (induction rows) auto

lemma find_row_Some_D: "find_row key k rows = Some r \<Longrightarrow> r \<in> set rows \<and> key r = k"
  by (induction rows) (auto split: if_splits)

lemma find_row_distinct:
  "distinct (map key rows) \<Longrightarrow> r \<in> set rows \<Longrightarrow> find_row key (key r) rows = Some r"
  by (induction rows) force+

lemma find_row_iff:
  "distinct (map key rows) \<Longrightarrow> find_row key k rows = Some r \<longleftrightarrow> r \<in> set rows \<and> key r = k"
  by (auto dest: find_row_Some_D find_row_distinct)

lemma has_key_iff [tab_simps]: "has_key key k rows \<longleftrightarrow> k \<in> key ` set rows"
  by (simp add: has_key_def)

lemma has_key_find_row: "has_key key k rows \<longleftrightarrow> find_row key k rows \<noteq> None"
  by (simp add: find_row_None has_key_iff)

lemma distinct_key_eq:
  "distinct (map key rows) \<Longrightarrow> r \<in> set rows \<Longrightarrow> r' \<in> set rows \<Longrightarrow> key r = key r' \<Longrightarrow> r = r'"
  by (auto simp: distinct_map inj_on_def)

lemma set_upd_rows [simp]: "set (upd_rows p f rows) = (\<lambda>r. if p r then f r else r) ` set rows"
  by (simp add: upd_rows_def)

lemma upd_rows_keys:
  "(\<And>r. p r \<Longrightarrow> key (f r) = key r) \<Longrightarrow> map key (upd_rows p f rows) = map key rows"
  by (simp add: upd_rows_def)

lemma upd_rows_Nil [simp]: "upd_rows p f [] = []"
  by (simp add: upd_rows_def)

lemma upd_rows_Cons [simp]:
  "upd_rows p f (r # rows) = (if p r then f r else r) # upd_rows p f rows"
  by (simp add: upd_rows_def)

lemma upd_rows_idle: "(\<And>r. r \<in> set rows \<Longrightarrow> \<not> p r) \<Longrightarrow> upd_rows p f rows = rows"
  by (induction rows) auto

lemma find_row_upd_rows:
  assumes "\<And>r. p r \<Longrightarrow> key (f r) = key r"
  shows "find_row key k (upd_rows p f rows) =
           map_option (\<lambda>r. if p r then f r else r) (find_row key k rows)"
  using assms by (induction rows) auto

lemma find_row_filter_other:
  "(\<And>r. r \<in> set rows \<Longrightarrow> key r = k \<Longrightarrow> p r) \<Longrightarrow> find_row key k (filter p rows) = find_row key k rows"
  by (induction rows) auto

lemma distinct_map_filter_key: "distinct (map key rows) \<Longrightarrow> distinct (map key (filter p rows))"
  by (induction rows) auto

lemma distinct_map_mset:
  "mset xs = mset ys \<Longrightarrow> distinct (map f xs) \<longleftrightarrow> distinct (map f ys)"
  by (metis mset_map mset_eq_imp_distinct_iff)

text \<open>Lookups by a distinct key do not depend on the order of the rows.\<close>

lemma find_row_mset:
  assumes "mset xs = mset ys" "distinct (map key xs)"
  shows "find_row key k xs = find_row key k ys"
proof -
  have ys: "distinct (map key ys)" "set xs = set ys"
    using assms(2) distinct_map_mset [OF assms(1), of key] mset_eq_setD [OF assms(1)] by simp_all
  show ?thesis
  proof (cases "find_row key k ys")
    case None
    then have "find_row key k xs = None" using ys(2) by (simp add: find_row_None)
    with None show ?thesis by simp
  next
    case (Some r)
    then have "r \<in> set xs \<and> key r = k" using ys by (simp add: find_row_iff)
    then have "find_row key k xs = Some r" using assms(2) by (simp add: find_row_iff)
    with Some show ?thesis by simp
  qed
qed

section \<open>Sorting\<close>

lemma sort_key_mset_eq:
  "mset xs = mset ys \<Longrightarrow> inj_on f (set xs) \<Longrightarrow> sort_key f xs = sort_key f ys"
  by (rule sort_key_inj_key_eq) simp_all

lemma sorted_wrt_sort_key_less:
  "inj_on f (set xs) \<Longrightarrow> distinct xs \<Longrightarrow> sorted_wrt (\<lambda>a b. f a < f b) (sort_key f xs)"
proof -
  assume inj: "inj_on f (set xs)" and d: "distinct xs"
  have "distinct (map f (sort_key f xs))"
    using inj d by (simp add: distinct_map)
  moreover have "sorted (map f (sort_key f xs))" by simp
  ultimately have "sorted_wrt (<) (map f (sort_key f xs))"
    by (simp add: strict_sorted_iff)
  then show ?thesis by (simp add: sorted_wrt_map)
qed

end
