(* ===== verification/Act.thy ===== *)
theory Act
  imports Prelude
begin

text \<open>
  Stateful, fallible operations.  An asynchronous method of the crate that returns a \<open>Result\<close> is an
  action: a function from the state to a result (an error or a value) and the new state.  The state
  is kept on an error too, since effects made before the error (a request that was sent, a row that
  was written) stay.  \<open>bnd\<close> is \<open>.await?\<close> followed by the rest of the method.
\<close>

type_synonym ('s, 'e, 'a) act = "'s \<Rightarrow> ('e + 'a) \<times> 's"

named_theorems act_simps \<open>evaluation of actions\<close>

definition ret :: "'a \<Rightarrow> ('s, 'e, 'a) act" where
  "ret a = (\<lambda>s. (Inr a, s))"

definition raise :: "'e \<Rightarrow> ('s, 'e, 'a) act" where
  "raise e = (\<lambda>s. (Inl e, s))"

definition lift_res :: "'e + 'a \<Rightarrow> ('s, 'e, 'a) act" where
  "lift_res r = (\<lambda>s. (r, s))"

definition bnd :: "('s, 'e, 'a) act \<Rightarrow> ('a \<Rightarrow> ('s, 'e, 'b) act) \<Rightarrow> ('s, 'e, 'b) act" where
  "bnd m f = (\<lambda>s. case m s of (Inl e, s') \<Rightarrow> (Inl e, s') | (Inr a, s') \<Rightarrow> f a s')"

text \<open>Handling both outcomes, the \<open>match\<close> on a \<open>Result\<close>.\<close>

definition catch :: "('s, 'e, 'a) act \<Rightarrow> ('e + 'a \<Rightarrow> ('s, 'f, 'b) act) \<Rightarrow> ('s, 'f, 'b) act" where
  "catch m f = (\<lambda>s. case m s of (r, s') \<Rightarrow> f r s')"

definition map_errA :: "('e \<Rightarrow> 'f) \<Rightarrow> ('s, 'e, 'a) act \<Rightarrow> ('s, 'f, 'a) act" where
  "map_errA g m = (\<lambda>s. case m s of (r, s') \<Rightarrow> (map_err g r, s'))"

definition getA :: "('s, 'e, 's) act" where
  "getA = (\<lambda>s. (Inr s, s))"

definition modA :: "('s \<Rightarrow> 's) \<Rightarrow> ('s, 'e, unit) act" where
  "modA f = (\<lambda>s. (Inr (), f s))"

text \<open>A \<open>for\<close> loop that collects; the first error ends it.\<close>

fun mapA :: "('x \<Rightarrow> ('s, 'e, 'a) act) \<Rightarrow> 'x list \<Rightarrow> ('s, 'e, 'a list) act" where
  "mapA f [] = ret []"
| "mapA f (x # xs) = bnd (f x) (\<lambda>a. bnd (mapA f xs) (\<lambda>as. ret (a # as)))"

fun forA :: "('x \<Rightarrow> ('s, 'e, unit) act) \<Rightarrow> 'x list \<Rightarrow> ('s, 'e, unit) act" where
  "forA f [] = ret ()"
| "forA f (x # xs) = bnd (f x) (\<lambda>_. forA f xs)"

lemma act_eval [simp, act_simps]:
  "ret a s = (Inr a, s)" "raise e s = (Inl e, s)" "lift_res r s = (r, s)"
  "getA s = (Inr s, s)" "modA g s = (Inr (), g s)"
  by (simp_all add: ret_def raise_def lift_res_def getA_def modA_def)

lemma bnd_eval [act_simps]:
  "m s = (Inl e, s') \<Longrightarrow> bnd m f s = (Inl e, s')"
  "m s = (Inr a, s') \<Longrightarrow> bnd m f s = f a s'"
  by (simp_all add: bnd_def)

lemma bnd_ret [simp]: "bnd (ret a) f = f a" "bnd (raise e) f = raise e" "bnd (modA g) k s = k () (g s)"
  "bnd getA h s = h s s"
  by (simp_all add: bnd_def ret_def raise_def modA_def getA_def)

lemma bnd_lift [simp]: "bnd (lift_res (Inr a)) f = f a" "bnd (lift_res (Inl e)) f = raise e"
  by (simp_all add: bnd_def lift_res_def raise_def)

lemma bnd_Inr_iff:
  "bnd m f s = (Inr b, s'') \<longleftrightarrow> (\<exists>a s'. m s = (Inr a, s') \<and> f a s' = (Inr b, s''))"
  by (auto simp: bnd_def split: prod.splits sum.splits)

lemma bnd_Inl_iff:
  "bnd m f s = (Inl e, s'') \<longleftrightarrow>
     m s = (Inl e, s'') \<or> (\<exists>a s'. m s = (Inr a, s') \<and> f a s' = (Inl e, s''))"
  by (auto simp: bnd_def split: prod.splits sum.splits)

lemma map_errA_eval: "m s = (r, s') \<Longrightarrow> map_errA g m s = (map_err g r, s')"
  by (simp add: map_errA_def)

text \<open>Actions that leave the state alone, the pure ends of methods.\<close>

definition stays :: "('s, 'e, 'a) act \<Rightarrow> bool" where
  "stays m \<longleftrightarrow> (\<forall>s. snd (m s) = s)"

lemma stays_pure [simp, intro]: "stays (ret x)" "stays (raise e)" "stays (lift_res r)" "stays getA"
  by (simp_all add: stays_def)

lemma stays_if [simp]: "stays (if c then m else m') \<longleftrightarrow> (if c then stays m else stays m')"
  by simp

section \<open>Invariants and frames of actions\<close>

text \<open>
  \<open>keeps R m\<close>: the action relates every start state to its end state by \<open>R\<close>, on both outcomes.  With
  a reflexive and transitive \<open>R\<close> the combinators keep what their parts keep, so a property of a
  whole method follows from its primitive steps.
\<close>

definition keeps :: "('s \<Rightarrow> 's \<Rightarrow> bool) \<Rightarrow> ('s, 'e, 'a) act \<Rightarrow> bool" where
  "keeps R m \<longleftrightarrow> (\<forall>s r s'. m s = (r, s') \<longrightarrow> R s s')"

locale step_rel =
  fixes R :: "'s \<Rightarrow> 's \<Rightarrow> bool"
  assumes refl: "R s s"
    and trans: "R s s' \<Longrightarrow> R s' s'' \<Longrightarrow> R s s''"
begin

lemma keeps_pure: "keeps R (ret a)" "keeps R (raise e)" "keeps R (lift_res r)" "keeps R getA"
  by (auto simp: keeps_def refl ret_def raise_def lift_res_def getA_def)

lemma keeps_bnd: "keeps R m \<Longrightarrow> (\<And>a. keeps R (f a)) \<Longrightarrow> keeps R (bnd m f)"
  unfolding keeps_def bnd_def by (auto split: prod.splits sum.splits) (metis trans)+

lemma keeps_catch: "keeps R m \<Longrightarrow> (\<And>r. keeps R (f r)) \<Longrightarrow> keeps R (catch m f)"
  unfolding keeps_def catch_def by (auto split: prod.splits) (metis trans)+

lemma keeps_map_errA: "keeps R m \<Longrightarrow> keeps R (map_errA g m)"
  unfolding keeps_def map_errA_def by (auto split: prod.splits)

lemma keeps_mapA: "(\<And>x. keeps R (f x)) \<Longrightarrow> keeps R (mapA f xs)"
  by (induction xs) (auto intro!: keeps_bnd keeps_pure)

lemma keeps_forA: "(\<And>x. keeps R (f x)) \<Longrightarrow> keeps R (forA f xs)"
  by (induction xs) (auto intro!: keeps_bnd keeps_pure)

end

section \<open>Actions that cannot fail\<close>

text \<open>\<open>never_fails P m\<close>: from a state with \<open>P\<close> the action returns a value, and \<open>P\<close> still holds.\<close>

definition never_fails :: "('s \<Rightarrow> bool) \<Rightarrow> ('s, 'e, 'a) act \<Rightarrow> bool" where
  "never_fails P m \<longleftrightarrow> (\<forall>s. P s \<longrightarrow> (\<exists>a s'. m s = (Inr a, s') \<and> P s'))"

lemma total_pure [intro]: "never_fails P (ret a)"
  by (simp add: never_fails_def)

lemma total_bnd [intro]: "never_fails P m \<Longrightarrow> (\<And>a. never_fails P (f a)) \<Longrightarrow> never_fails P (bnd m f)"
  unfolding never_fails_def by (metis bnd_eval(2))

lemma total_catch: "(\<And>s. P s \<Longrightarrow> P (snd (m s))) \<Longrightarrow> (\<And>r. never_fails P (f r)) \<Longrightarrow> never_fails P (catch m f)"
  unfolding never_fails_def catch_def by (metis case_prod_beta)

lemma total_case: "(\<And>e. never_fails P (f e)) \<Longrightarrow> (\<And>x. never_fails P (g x)) \<Longrightarrow>
     never_fails P (case r of Inl e \<Rightarrow> f e | Inr x \<Rightarrow> g x)"
  by (cases r) simp_all

lemma total_if: "never_fails P m \<Longrightarrow> never_fails P m' \<Longrightarrow> never_fails P (if c then m else m')"
  by simp

lemmas total_rules = total_pure total_bnd total_catch total_case total_if

end
