(* ===== verification/Text_Fmt.thy ===== *)
theory Text_Fmt
  imports Prelude
begin

text \<open>
  The parts of Rust's string library and formatting that the crate uses.  A Rust
  \<open>String\<close> is its UTF-8 bytes, so it is a HOL \<open>string\<close> (a list of byte-sized characters).
  \<open>nat_dec\<close> and \<open>int_dec\<close> are \<open>to_string\<close> (and \<open>format!("{n}")\<close>) on integers;
  \<open>strip_prefix\<close>, \<open>split_once\<close> and \<open>trim_end_matches\<close> are the methods of \<open>str\<close> with these
  names; \<open>valid_utf8\<close> is the check of \<open>String::from_utf8\<close>.
\<close>

section \<open>Decimal numbers\<close>

definition digit_char :: "nat \<Rightarrow> char" where
  "digit_char d = char_of (48 + d)"

fun nat_dec :: "nat \<Rightarrow> string" where
  "nat_dec n = (if n < 10 then [digit_char n] else nat_dec (n div 10) @ [digit_char (n mod 10)])"

declare nat_dec.simps [simp del]

definition int_dec :: "int \<Rightarrow> string" where
  "int_dec i = (if i < 0 then CHR ''-'' # nat_dec (nat (- i)) else nat_dec (nat i))"

text \<open>Reading a decimal numeral back; used to prove that printing is injective.\<close>

definition dec_val :: "string \<Rightarrow> nat" where
  "dec_val s = foldl (\<lambda>a c. 10 * a + (of_char c - 48)) 0 s"

lemma of_char_digit [simp]: "d < 10 \<Longrightarrow> of_char (digit_char d) = (48 + d :: nat)"
  by (simp add: digit_char_def)

lemma dec_val_nat_dec [simp]: "dec_val (nat_dec n) = n"
proof (induction n rule: nat_dec.induct)
  case (1 n)
  show ?case
  proof (cases "n < 10")
    case True
    then show ?thesis by (simp add: nat_dec.simps [of n] dec_val_def)
  next
    case False
    then show ?thesis
      using "1.IH" by (simp add: nat_dec.simps [of n] dec_val_def)
  qed
qed

lemma nat_dec_inj [simp]: "nat_dec m = nat_dec n \<longleftrightarrow> m = n"
  by (metis dec_val_nat_dec)

lemma digit_char_not_minus: "d < 10 \<Longrightarrow> digit_char d \<noteq> CHR ''-''"
proof
  assume "d < 10" "digit_char d = CHR ''-''"
  then have "of_char (digit_char d) = (of_char CHR ''-'' :: nat)" by simp
  with \<open>d < 10\<close> show False by simp
qed

lemma nat_dec_no_minus: "CHR ''-'' \<notin> set (nat_dec n)"
proof (induction n rule: nat_dec.induct)
  case (1 n)
  show ?case
  proof (cases "n < 10")
    case True
    then show ?thesis by (simp add: nat_dec.simps [of n] digit_char_not_minus [symmetric])
  next
    case False
    then show ?thesis
      using "1.IH" by (simp add: nat_dec.simps [of n] digit_char_not_minus [symmetric])
  qed
qed

lemma nat_dec_nonempty [simp]: "nat_dec n \<noteq> []"
  by (subst nat_dec.simps) simp

lemma int_dec_inj: "int_dec i = int_dec j \<longleftrightarrow> i = j"
proof
  assume eq: "int_dec i = int_dec j"
  have cons: "CHR ''-'' # xs \<noteq> nat_dec n" for xs n
    using nat_dec_no_minus [of n] by (metis list.set_intros(1))
  show "i = j"
    using eq cons cons [symmetric]
    by (auto simp: int_dec_def split: if_splits)
qed simp

lemma int_dec_nonneg_no_minus: "0 \<le> i \<Longrightarrow> CHR ''-'' \<notin> set (int_dec i)"
  by (simp add: int_dec_def nat_dec_no_minus)

text \<open>A separator that occurs in neither first part makes the concatenation injective.\<close>

lemma sep_inj:
  "c \<notin> set xs \<Longrightarrow> c \<notin> set xs' \<Longrightarrow> xs @ c # ys = xs' @ c # ys' \<longleftrightarrow> xs = xs' \<and> ys = ys'"
proof (induction xs arbitrary: xs')
  case Nil
  then show ?case by (cases xs') auto
next
  case (Cons x xs)
  then show ?case by (cases xs') auto
qed

section \<open>String methods\<close>

fun strip_prefix :: "string \<Rightarrow> string \<Rightarrow> string option" where
  "strip_prefix [] s = Some s"
| "strip_prefix (p # ps) [] = None"
| "strip_prefix (p # ps) (c # cs) = (if p = c then strip_prefix ps cs else None)"

fun split_once :: "char \<Rightarrow> string \<Rightarrow> (string \<times> string) option" where
  "split_once d [] = None"
| "split_once d (c # cs) =
     (if c = d then Some ([], cs)
      else (case split_once d cs of None \<Rightarrow> None | Some (a, b) \<Rightarrow> Some (c # a, b)))"

definition trim_end_matches :: "char \<Rightarrow> string \<Rightarrow> string" where
  "trim_end_matches c s = rev (dropWhile (\<lambda>x. x = c) (rev s))"

lemma strip_prefix_Some [simp]: "strip_prefix p s = Some r \<longleftrightarrow> s = p @ r"
  by (induction p s rule: strip_prefix.induct) auto

lemma split_once_Some: "split_once d s = Some (a, b) \<longleftrightarrow> s = a @ d # b \<and> d \<notin> set a"
proof (induction s arbitrary: a)
  case Nil
  then show ?case by simp
next
  case (Cons c cs)
  show ?case
  proof (cases a)
    case Nil
    then show ?thesis by (auto split: option.splits)
  next
    case (Cons x xs)
    then show ?thesis
      using Cons.IH [of xs] by (auto split: option.splits)
  qed
qed

lemma split_once_None: "split_once d s = None \<longleftrightarrow> d \<notin> set s"
  by (induction s) (auto split: option.splits)

lemma trim_end_decomp: "\<exists>n. s = trim_end_matches c s @ replicate n c"
proof -
  have "rev s = takeWhile (\<lambda>x. x = c) (rev s) @ dropWhile (\<lambda>x. x = c) (rev s)" by simp
  moreover have "takeWhile (\<lambda>x. x = c) (rev s) =
      replicate (length (takeWhile (\<lambda>x. x = c) (rev s))) c"
    by (rule replicate_eqI) (auto dest: set_takeWhileD)
  ultimately have "rev s = replicate (length (takeWhile (\<lambda>x. x = c) (rev s))) c @
      dropWhile (\<lambda>x. x = c) (rev s)" by metis
  then have "s = rev (replicate (length (takeWhile (\<lambda>x. x = c) (rev s))) c @
      dropWhile (\<lambda>x. x = c) (rev s))" by (metis rev_rev_ident)
  then show ?thesis by (auto simp: trim_end_matches_def)
qed

lemma trim_end_last: "trim_end_matches c s = [] \<or> last (trim_end_matches c s) \<noteq> c"
  using hd_dropWhile [of "\<lambda>x. x = c" "rev s"] unfolding trim_end_matches_def
  by (auto simp only: last_rev rev_is_Nil_conv)

lemma trim_end_idle: "s = [] \<or> last s \<noteq> c \<Longrightarrow> trim_end_matches c s = s"
  by (cases s rule: rev_cases) (auto simp: trim_end_matches_def)

lemma trim_end_idem [simp]: "trim_end_matches c (trim_end_matches c s) = trim_end_matches c s"
  using trim_end_last by (rule trim_end_idle)

section \<open>UTF-8 validity\<close>

definition utf8_cont :: "8 word \<Rightarrow> bool" where
  "utf8_cont b \<longleftrightarrow> 128 \<le> b \<and> b \<le> 191"

text \<open>The second byte after the lead byte of a sequence of three or four.\<close>

definition utf8_second :: "8 word \<Rightarrow> 8 word \<Rightarrow> bool" where
  "utf8_second b c \<longleftrightarrow>
     (if b = 224 then 160 \<le> c \<and> c \<le> 191
      else if b = 237 then 128 \<le> c \<and> c \<le> 159
      else if b = 240 then 144 \<le> c \<and> c \<le> 191
      else if b = 244 then 128 \<le> c \<and> c \<le> 143
      else utf8_cont c)"

fun valid_utf8 :: "8 word list \<Rightarrow> bool" where
  "valid_utf8 [] = True"
| "valid_utf8 (b # bs) =
     (if b < 128 then valid_utf8 bs
      else if 194 \<le> b \<and> b \<le> 223 then
        (case bs of c # bs' \<Rightarrow> utf8_cont c \<and> valid_utf8 bs' | _ \<Rightarrow> False)
      else if 224 \<le> b \<and> b \<le> 239 then
        (case bs of c # d # bs' \<Rightarrow>
           utf8_second b c \<and> utf8_cont d \<and> valid_utf8 bs'
         | _ \<Rightarrow> False)
      else if 240 \<le> b \<and> b \<le> 244 then
        (case bs of c # d # e # bs' \<Rightarrow>
           utf8_second b c \<and> utf8_cont d \<and> utf8_cont e \<and> valid_utf8 bs'
         | _ \<Rightarrow> False)
      else False)"

text \<open>\<open>as_bytes\<close> and the conversion back that \<open>from_utf8\<close> makes once the bytes are valid.\<close>

definition str_bytes :: "string \<Rightarrow> 8 word list" where
  "str_bytes s = map (\<lambda>c. word_of_nat (of_char c)) s"

definition bytes_str :: "8 word list \<Rightarrow> string" where
  "bytes_str bs = map (\<lambda>b. char_of (unat b)) bs"

text \<open>
  Where the scan of \<open>from_utf8\<close> stops: the index of the first byte of the broken sequence, with the number
  of bytes that are wrong, or none when the input ends inside a sequence.
\<close>

fun utf8_scan :: "nat \<Rightarrow> 8 word list \<Rightarrow> (nat \<times> nat option) option" where
  "utf8_scan at [] = None"
| "utf8_scan at (b # bs) =
     (if b < 128 then utf8_scan (at + 1) bs
      else if 194 \<le> b \<and> b \<le> 223 then
        (case bs of [] \<Rightarrow> Some (at, None)
         | c # bs' \<Rightarrow> if utf8_cont c then utf8_scan (at + 2) bs' else Some (at, Some 1))
      else if 224 \<le> b \<and> b \<le> 239 then
        (case bs of [] \<Rightarrow> Some (at, None)
         | c # bs1 \<Rightarrow>
             if \<not> utf8_second b c then Some (at, Some 1)
             else (case bs1 of [] \<Rightarrow> Some (at, None)
                   | d # bs' \<Rightarrow> if utf8_cont d then utf8_scan (at + 3) bs' else Some (at, Some 2)))
      else if 240 \<le> b \<and> b \<le> 244 then
        (case bs of [] \<Rightarrow> Some (at, None)
         | c # bs1 \<Rightarrow>
             if \<not> utf8_second b c then Some (at, Some 1)
             else (case bs1 of [] \<Rightarrow> Some (at, None)
                   | d # bs2 \<Rightarrow>
                       if \<not> utf8_cont d then Some (at, Some 2)
                       else (case bs2 of [] \<Rightarrow> Some (at, None)
                             | e # bs' \<Rightarrow> if utf8_cont e then utf8_scan (at + 4) bs' else Some (at, Some 3))))
      else Some (at, Some 1))"

lemma utf8_scan_valid: "utf8_scan at bs = None \<longleftrightarrow> valid_utf8 bs"
  by (induction at bs rule: utf8_scan.induct) (auto split: list.splits)

text \<open>What comes before the broken sequence is valid.\<close>

lemma utf8_scan_step:
  assumes "utf8_scan at (b # bs) = Some (i, len)" "at \<noteq> i"
  obtains cs bs' where "bs = cs @ bs'" "utf8_scan (at + Suc (length cs)) bs' = Some (i, len)"
    "\<And>ys. valid_utf8 (b # cs @ ys) \<longleftrightarrow> valid_utf8 ys"
proof -
  consider "b < 128" | "\<not> b < 128" "194 \<le> b" "b \<le> 223" | "\<not> b < 128" "\<not> b \<le> 223" "224 \<le> b" "b \<le> 239"
    | "\<not> b < 128" "\<not> b \<le> 223" "\<not> b \<le> 239" "240 \<le> b" "b \<le> 244"
  proof (cases "b < 128 \<or> 194 \<le> b \<and> b \<le> 223 \<or> 224 \<le> b \<and> b \<le> 239 \<or> 240 \<le> b \<and> b \<le> 244")
    case True
    then show ?thesis
      using that by (auto simp: word_le_nat_alt word_less_nat_alt)
  next
    case False
    then have "utf8_scan at (b # bs) = Some (at, Some 1)" by (simp only: utf8_scan.simps if_False de_Morgan_disj simp_thms)
    with assms show ?thesis by simp
  qed
  then show thesis
  proof cases
    case 1
    then show thesis using assms that [of "[]" bs] by simp
  next
    case 2
    then obtain c bs' where "bs = c # bs'" "utf8_cont c" "utf8_scan (at + 2) bs' = Some (i, len)"
      using assms by (auto split: list.splits if_splits)
    then show thesis using 2 that [of "[c]" bs'] by simp
  next
    case 3
    then obtain c d bs' where "bs = c # d # bs'" "utf8_second b c" "utf8_cont d"
        "utf8_scan (at + 3) bs' = Some (i, len)"
      using assms by (auto split: list.splits if_splits)
    then show thesis using 3 that [of "[c, d]" bs'] by (simp add: numeral_3_eq_3)
  next
    case 4
    then obtain c d e bs' where "bs = c # d # e # bs'" "utf8_second b c" "utf8_cont d" "utf8_cont e"
        "utf8_scan (at + 4) bs' = Some (i, len)"
      using assms by (auto split: list.splits if_splits)
    then show thesis using 4 that [of "[c, d, e]" bs'] by (simp add: eval_nat_numeral)
  qed
qed

lemma utf8_scan_prefix:
  "utf8_scan at bs = Some (i, len) \<Longrightarrow> at \<le> i \<and> i < at + length bs \<and> valid_utf8 (take (i - at) bs)"
proof (induction bs arbitrary: at rule: length_induct)
  case (1 bs)
  show ?case
  proof (cases bs)
    case Nil
    with "1.prems" show ?thesis by simp
  next
    case (Cons b bs1)
    show ?thesis
    proof (cases "at = i")
      case True
      with Cons show ?thesis by simp
    next
      case False
      obtain cs bs' where s: "bs1 = cs @ bs'" "utf8_scan (at + Suc (length cs)) bs' = Some (i, len)"
        "\<And>ys. valid_utf8 (b # cs @ ys) \<longleftrightarrow> valid_utf8 ys"
        using utf8_scan_step [OF "1.prems" [unfolded Cons] False] by metis
      let ?at = "at + Suc (length cs)"
      have ih: "?at \<le> i \<and> i < ?at + length bs' \<and> valid_utf8 (take (i - ?at) bs')"
        using "1.IH" [rule_format, OF _ s(2)] s(1) Cons by simp
      then have "i - at = Suc (length cs + (i - ?at))" by linarith
      then have "take (i - at) bs = b # cs @ take (i - ?at) bs'"
        using s(1) Cons by simp
      with ih s(1,3) Cons show ?thesis by (simp del: valid_utf8.simps)
    qed
  qed
qed

text \<open>The text of a \<open>FromUtf8Error\<close>, and the conversion.\<close>

definition show_utf8_error :: "nat \<times> nat option \<Rightarrow> string" where
  "show_utf8_error = (\<lambda>(at, len).
     (case len of
        Some n \<Rightarrow> ''invalid utf-8 sequence of '' @ nat_dec n @ '' bytes from index '' @ nat_dec at
      | None \<Rightarrow> ''incomplete utf-8 byte sequence from index '' @ nat_dec at))"

definition from_utf8 :: "8 word list \<Rightarrow> string + string" where
  "from_utf8 bs =
     (case utf8_scan 0 bs of None \<Rightarrow> Inr (bytes_str bs) | Some fault \<Rightarrow> Inl (show_utf8_error fault))"

lemma from_utf8_Inr: "from_utf8 bs = Inr s \<longleftrightarrow> valid_utf8 bs \<and> s = bytes_str bs"
  using utf8_scan_valid [of 0 bs] by (auto simp: from_utf8_def split: option.splits)

lemma of_char_word8: "unat (word_of_nat (of_char c) :: 8 word) = of_char c"
proof -
  have "(of_char c :: nat) < 256" by simp
  then show ?thesis by (simp add: unat_of_nat)
qed

lemma bytes_str_bytes [simp]: "bytes_str (str_bytes s) = s"
  by (simp add: bytes_str_def str_bytes_def comp_def of_char_word8)

end
