(* ===== verification/Json.thy ===== *)
theory Json
  imports Text_Fmt
begin

text \<open>
  \<open>serde_json::Value\<close> as the crate uses it: the value type (objects keep their insertion
  order, the crate enables \<open>preserve_order\<close>), the accessors \<open>get\<close>, \<open>[]\<close>, \<open>as_str\<close>, \<open>as_i64\<close>,
  \<open>as_u64\<close>, \<open>as_array\<close>, \<open>as_object\<close>, and the insertion of a key.  A floating point number is
  kept as its 64 bits; no code of the crate computes with one.

  The text form of a value is the business of \<open>serde_json\<close> and SQLite, which are not part of
  this repository: printing, parsing and SQLite's \<open>json_extract\<close> and \<open>json_set\<close> are the fields of
  a record \<open>codec\<close> that every definition touching stored text takes as an argument, and
  \<open>codec_laws\<close> states what their documentation promises and the store relies on.
\<close>

section \<open>Values\<close>

datatype jnum =
    PosInt "64 word"
  | NegInt "64 word"
  | Float "64 word"

datatype json =
    JNull
  | JBool bool
  | JNum jnum
  | JStr string
  | JArr "json list"
  | JObj "(string \<times> json) list"

type_synonym jobject = "(string \<times> json) list"

fun jget :: "json \<Rightarrow> string \<Rightarrow> json option" where
  "jget (JObj kvs) k = map_of kvs k"
| "jget _ k = None"

text \<open>\<open>v[k]\<close>: \<open>Null\<close> for a missing key and for a value that is not an object.\<close>

definition jindex :: "json \<Rightarrow> string \<Rightarrow> json" where
  "jindex v k = (case jget v k of None \<Rightarrow> JNull | Some x \<Rightarrow> x)"

fun as_str :: "json \<Rightarrow> string option" where
  "as_str (JStr s) = Some s"
| "as_str _ = None"

fun as_array :: "json \<Rightarrow> json list option" where
  "as_array (JArr xs) = Some xs"
| "as_array _ = None"

fun as_object :: "json \<Rightarrow> jobject option" where
  "as_object (JObj kvs) = Some kvs"
| "as_object _ = None"

definition i64_max :: int where "i64_max = 2 ^ 63 - 1"
definition i64_min :: int where "i64_min = - (2 ^ 63)"

fun as_i64 :: "json \<Rightarrow> int option" where
  "as_i64 (JNum (PosInt w)) = (if uint w \<le> i64_max then Some (uint w) else None)"
| "as_i64 (JNum (NegInt w)) = Some (sint w)"
| "as_i64 _ = None"

fun as_u64 :: "json \<Rightarrow> 64 word option" where
  "as_u64 (JNum (PosInt w)) = Some w"
| "as_u64 _ = None"

text \<open>\<open>json!(n)\<close> for an \<open>i64\<close> and for an unsigned number.\<close>

definition json_i64 :: "int \<Rightarrow> json" where
  "json_i64 i = JNum (if i < 0 then NegInt (word_of_int i) else PosInt (word_of_int i))"

definition json_u64 :: "64 word \<Rightarrow> json" where
  "json_u64 w = JNum (PosInt w)"

text \<open>\<open>map.insert(k, v)\<close> on an insertion-ordered map: an existing key keeps its place.\<close>

fun obj_insert :: "string \<Rightarrow> json \<Rightarrow> jobject \<Rightarrow> jobject" where
  "obj_insert k v [] = [(k, v)]"
| "obj_insert k v ((k', v') # kvs) =
     (if k' = k then (k, v) # kvs else (k', v') # obj_insert k v kvs)"

fun is_object :: "json \<Rightarrow> bool" where
  "is_object (JObj kvs) = True"
| "is_object _ = False"

lemma map_of_obj_insert [simp]:
  "map_of (obj_insert k v kvs) k' = (if k' = k then Some v else map_of kvs k')"
  by (induction kvs) auto

lemma jget_obj_insert [simp]:
  "jget (JObj (obj_insert k v kvs)) k' = (if k' = k then Some v else jget (JObj kvs) k')"
  by simp

lemma jindex_obj_insert [simp]:
  "jindex (JObj (obj_insert k v kvs)) k' = (if k' = k then v else jindex (JObj kvs) k')"
  by (simp add: jindex_def)

lemma jindex_JNull [simp]: "jindex JNull k = JNull"
  by (simp add: jindex_def)

lemma as_str_Some_iff [simp]: "as_str v = Some s \<longleftrightarrow> v = JStr s"
  by (cases v) auto

lemma as_array_Some_iff: "as_array v = Some xs \<longleftrightarrow> v = JArr xs"
  by (cases v) auto

lemma as_object_Some_iff: "as_object v = Some kvs \<longleftrightarrow> v = JObj kvs"
  by (cases v) auto

lemma as_i64_json_i64 [simp]:
  assumes "i64_min \<le> i" "i \<le> i64_max"
  shows "as_i64 (json_i64 i) = Some i"
proof (cases "i < 0")
  case True
  have "signed_take_bit 63 i = i"
    using assms by (intro signed_take_bit_int_eq_self) (simp_all add: i64_min_def i64_max_def)
  then have "sint (word_of_int i :: 64 word) = i"
    by (simp add: signed_of_int)
  with True show ?thesis by (simp add: json_i64_def)
next
  case False
  have "uint (word_of_int i :: 64 word) = i"
    using assms False by (simp add: uint_word_of_int i64_max_def)
  with False assms show ?thesis by (simp add: json_i64_def)
qed

lemma as_i64_range: "as_i64 v = Some i \<Longrightarrow> i64_min \<le> i \<and> i \<le> i64_max"
proof (induction v rule: as_i64.induct)
  case (1 w)
  then show ?case by (auto simp: i64_min_def intro: order_trans [OF _ uint_ge_0] split: if_splits)
next
  case (2 w)
  then show ?case
    using sint_ge [of w] sint_lt [of w] by (auto simp: i64_min_def i64_max_def)
qed auto

section \<open>What text can hold\<close>

text \<open>
  \<open>serde_json\<close> prints and re-reads a value unchanged unless it holds a float (re-reading may be
  off in the last bit) or is nested beyond the parser's recursion limit of 128.
\<close>

fun float_free :: "json \<Rightarrow> bool" where
  "float_free (JNum (Float w)) = False"
| "float_free (JArr xs) = list_all float_free xs"
| "float_free (JObj kvs) = list_all (\<lambda>kv. float_free (snd kv)) kvs"
| "float_free _ = True"

fun json_depth :: "json \<Rightarrow> nat" where
  "json_depth (JArr xs) = Suc (foldr max (map json_depth xs) 0)"
| "json_depth (JObj kvs) = Suc (foldr max (map (\<lambda>kv. json_depth (snd kv)) kvs) 0)"
| "json_depth _ = 0"

text \<open>Keys of an object never repeat (the map type of \<open>serde_json\<close> sees to it).\<close>

fun keys_distinct :: "json \<Rightarrow> bool" where
  "keys_distinct (JArr xs) = list_all keys_distinct xs"
| "keys_distinct (JObj kvs) =
     (distinct (map fst kvs) \<and> list_all (\<lambda>kv. keys_distinct (snd kv)) kvs)"
| "keys_distinct _ = True"

definition storable :: "json \<Rightarrow> bool" where
  "storable v \<longleftrightarrow> float_free v \<and> keys_distinct v \<and> json_depth v \<le> 127"

lemma float_free_insert:
  "list_all (\<lambda>kv. float_free (snd kv)) kvs \<Longrightarrow> float_free v \<Longrightarrow>
     list_all (\<lambda>kv. float_free (snd kv)) (obj_insert k v kvs)"
  by (induction kvs) auto

lemma keys_obj_insert: "fst ` set (obj_insert k v kvs) = insert k (fst ` set kvs)"
proof (induction kvs)
  case (Cons kv kvs)
  then show ?case by (cases kv; cases "fst kv = k") (simp_all add: insert_commute)
qed simp

lemma keys_distinct_insert:
  "distinct (map fst kvs) \<Longrightarrow> distinct (map fst (obj_insert k v kvs))"
proof (induction kvs)
  case (Cons kv kvs)
  then show ?case
    using keys_obj_insert [of k v kvs] by (cases kv) auto
qed simp

lemma keys_distinct_values_insert:
  "list_all (\<lambda>kv. keys_distinct (snd kv)) kvs \<Longrightarrow> keys_distinct v \<Longrightarrow>
     list_all (\<lambda>kv. keys_distinct (snd kv)) (obj_insert k v kvs)"
  by (induction kvs) auto

lemma depth_insert:
  "foldr max (map (\<lambda>kv. json_depth (snd kv)) (obj_insert k v kvs)) 0
     \<le> max (json_depth v) (foldr max (map (\<lambda>kv. json_depth (snd kv)) kvs) 0)"
  by (induction kvs) auto

lemma storable_insert_str:
  assumes "storable (JObj kvs)"
  shows "storable (JObj (obj_insert k (JStr s) kvs))"
  using assms float_free_insert [of kvs "JStr s" k] depth_insert [of k "JStr s" kvs]
    keys_distinct_insert [of kvs k "JStr s"] keys_distinct_values_insert [of kvs "JStr s" k]
  by (auto simp: storable_def)

section \<open>SQL values and stored text\<close>

datatype sqlval = SNull | SInt int | SReal "64 word" | SText string

text \<open>A path \<open>$.a.b\<close>: the value it names, if there is one.\<close>

fun jpointer :: "json \<Rightarrow> string list \<Rightarrow> json option" where
  "jpointer v [] = Some v"
| "jpointer v (k # ks) = (case jget v k of None \<Rightarrow> None | Some w \<Rightarrow> jpointer w ks)"

text \<open>
  What \<open>json_extract\<close> returns for a value, as the SQLite manual gives it: an SQL NULL, integer or
  text for a JSON null, Boolean, number or string (integers beyond 64 signed bits
  become reals), and some text for an array or object.
\<close>

fun sql_matches :: "json \<Rightarrow> sqlval \<Rightarrow> bool" where
  "sql_matches JNull s = (s = SNull)"
| "sql_matches (JBool b) s = (s = SInt (if b then 1 else 0))"
| "sql_matches (JNum (PosInt w)) s =
     (if uint w \<le> i64_max then s = SInt (uint w) else (\<exists>r. s = SReal r))"
| "sql_matches (JNum (NegInt w)) s = (s = SInt (sint w))"
| "sql_matches (JNum (Float w)) s = (s = SReal w)"
| "sql_matches (JStr t) s = (s = SText t)"
| "sql_matches (JArr xs) s = (\<exists>t. s = SText t)"
| "sql_matches (JObj kvs) s = (\<exists>t. s = SText t)"

record 't codec =
  enc :: "json \<Rightarrow> 't"
  dec :: "'t \<Rightarrow> string + json"
  jextract :: "'t \<Rightarrow> string list \<Rightarrow> string + sqlval"
  jset :: "'t \<Rightarrow> string \<Rightarrow> string \<Rightarrow> string + 't"

text \<open>
  \<open>canon cx t v\<close>: \<open>t\<close> is a text the store wrote for the value \<open>v\<close>: printed by \<open>serde_json\<close>, or
  obtained from such a text by \<open>json_set\<close> of a string at a top-level key.
\<close>

inductive canon :: "'t codec \<Rightarrow> 't \<Rightarrow> json \<Rightarrow> bool" for cx :: "'t codec" where
  canon_enc: "storable v \<Longrightarrow> canon cx (enc cx v) v"
| canon_set: "canon cx t (JObj kvs) \<Longrightarrow> jset cx t k s = Inr t' \<Longrightarrow>
    canon cx t' (JObj (obj_insert k (JStr s) kvs))"

definition codec_laws :: "'t codec \<Rightarrow> bool" where
  "codec_laws cx \<longleftrightarrow>
     (\<forall>t v. canon cx t v \<longrightarrow>
        dec cx t = Inr v \<and>
        (\<forall>path. \<exists>s. jextract cx t path = Inr s \<and>
           (case jpointer v path of None \<Rightarrow> s = SNull | Some w \<Rightarrow> sql_matches w s)) \<and>
        (is_object v \<longrightarrow> (\<forall>k s. \<exists>t'. jset cx t k s = Inr t')))"

lemma canon_storable: "canon cx t v \<Longrightarrow> storable v"
  by (induction rule: canon.induct) (auto intro: storable_insert_str)

lemma canon_dec: "codec_laws cx \<Longrightarrow> canon cx t v \<Longrightarrow> dec cx t = Inr v"
  by (auto simp: codec_laws_def)

lemma canon_extract:
  assumes "codec_laws cx" "canon cx t v"
  obtains s where "jextract cx t path = Inr s"
    "case jpointer v path of None \<Rightarrow> s = SNull | Some w \<Rightarrow> sql_matches w s"
  using assms by (metis codec_laws_def)

lemma canon_jset:
  assumes "codec_laws cx" "canon cx t (JObj kvs)"
  obtains t' where "jset cx t k s = Inr t'" "canon cx t' (JObj (obj_insert k (JStr s) kvs))"
proof -
  from assms obtain t' where "jset cx t k s = Inr t'"
    unfolding codec_laws_def by (metis is_object.simps(1))
  with assms(2) show thesis by (blast intro: that canon_set)
qed

text \<open>
  A codec that satisfies the laws: values are their own text.  It serves the closed
  instances of the theorems that assume \<open>codec_laws\<close>.
\<close>

fun sql_of :: "json \<Rightarrow> sqlval" where
  "sql_of JNull = SNull"
| "sql_of (JBool b) = SInt (if b then 1 else 0)"
| "sql_of (JNum (PosInt w)) = (if uint w \<le> i64_max then SInt (uint w) else SReal w)"
| "sql_of (JNum (NegInt w)) = SInt (sint w)"
| "sql_of (JNum (Float w)) = SReal w"
| "sql_of (JStr t) = SText t"
| "sql_of (JArr xs) = SText []"
| "sql_of (JObj kvs) = SText []"

definition id_codec :: "json codec" where
  "id_codec = \<lparr> enc = id, dec = Inr,
     jextract = (\<lambda>v path. Inr (case jpointer v path of None \<Rightarrow> SNull | Some w \<Rightarrow> sql_of w)),
     jset = (\<lambda>v k s. case v of JObj kvs \<Rightarrow> Inr (JObj (obj_insert k (JStr s) kvs))
                     | _ \<Rightarrow> Inl ''not an object'') \<rparr>"

lemma sql_matches_sql_of: "sql_matches v (sql_of v)"
  by (cases v rule: sql_of.cases) auto

lemma canon_id_codec: "canon id_codec t v \<Longrightarrow> t = v"
  by (induction rule: canon.induct) (auto simp: id_codec_def)

lemma id_codec_laws: "codec_laws id_codec"
  unfolding codec_laws_def
proof (intro allI impI)
  fix t v assume "canon id_codec t v"
  then have "t = v" by (rule canon_id_codec)
  then show "dec id_codec t = Inr v \<and>
        (\<forall>path. \<exists>s. jextract id_codec t path = Inr s \<and>
           (case jpointer v path of None \<Rightarrow> s = SNull | Some w \<Rightarrow> sql_matches w s)) \<and>
        (is_object v \<longrightarrow> (\<forall>k s. \<exists>t'. jset id_codec t k s = Inr t'))"
    by (cases v) (auto simp: id_codec_def sql_matches_sql_of split: option.splits)
qed

end
