(* ===== verification/Errors.thy ===== *)
theory Errors
  imports Json
begin

text \<open>
  The error types of the crate and the conversions between them: \<open>ErrorCode\<close> and \<open>ApiError\<close> of
  \<open>core/src/api.rs\<close>, \<open>StoreError\<close> of \<open>core/src/store.rs\<close>, \<open>KeyStoreError\<close> of
  \<open>core/src/session.rs\<close> and the FFI-visible \<open>CoreError\<close> of \<open>core/src/lib.rs\<close>, with the log
  records that \<open>emit\<close> sends to the host's sink.  The text of a \<open>rusqlite\<close> or \<open>pigeon-crypto\<close> failure
  is the library's own and is carried as a string.
\<close>

section \<open>Error codes of the server\<close>

datatype error_code =
    Forbidden | UnknownToken | MissingToken | BadJson | NotJson | NotFound | LimitExceeded
  | BadSignature | Unrecognized | UserInUse | InvalidUsername | Unknown
  | OtherCode string

definition code_from_wire :: "string \<Rightarrow> error_code" where
  "code_from_wire code =
     (if code = ''P_FORBIDDEN'' then Forbidden
      else if code = ''P_UNKNOWN_TOKEN'' then UnknownToken
      else if code = ''P_MISSING_TOKEN'' then MissingToken
      else if code = ''P_BAD_JSON'' then BadJson
      else if code = ''P_NOT_JSON'' then NotJson
      else if code = ''P_NOT_FOUND'' then NotFound
      else if code = ''P_LIMIT_EXCEEDED'' then LimitExceeded
      else if code = ''P_BAD_SIGNATURE'' then BadSignature
      else if code = ''P_UNRECOGNIZED'' then Unrecognized
      else if code = ''P_USER_IN_USE'' then UserInUse
      else if code = ''P_INVALID_USERNAME'' then InvalidUsername
      else if code = ''P_UNKNOWN'' then Unknown
      else OtherCode code)"

fun code_as_str :: "error_code \<Rightarrow> string" where
  "code_as_str Forbidden = ''P_FORBIDDEN''"
| "code_as_str UnknownToken = ''P_UNKNOWN_TOKEN''"
| "code_as_str MissingToken = ''P_MISSING_TOKEN''"
| "code_as_str BadJson = ''P_BAD_JSON''"
| "code_as_str NotJson = ''P_NOT_JSON''"
| "code_as_str NotFound = ''P_NOT_FOUND''"
| "code_as_str LimitExceeded = ''P_LIMIT_EXCEEDED''"
| "code_as_str BadSignature = ''P_BAD_SIGNATURE''"
| "code_as_str Unrecognized = ''P_UNRECOGNIZED''"
| "code_as_str UserInUse = ''P_USER_IN_USE''"
| "code_as_str InvalidUsername = ''P_INVALID_USERNAME''"
| "code_as_str Unknown = ''P_UNKNOWN''"
| "code_as_str (OtherCode code) = code"

lemma code_as_str_from_wire [simp]: "code_as_str (code_from_wire s) = s"
  by (simp add: code_from_wire_def)

lemma code_from_wire_inj [simp]: "code_from_wire s = code_from_wire t \<longleftrightarrow> s = t"
  by (metis code_as_str_from_wire)

lemma code_from_wire_limit [simp]:
  "code_from_wire s = LimitExceeded \<longleftrightarrow> s = ''P_LIMIT_EXCEEDED''"
  by (simp add: code_from_wire_def)

section \<open>Failures of the layers\<close>

datatype api_error =
    ServerErr (se_status: "16 word") (se_code: error_code) (se_message: string)
  | NetworkErr string
  | MalformedErr string

definition is_transient :: "api_error \<Rightarrow> bool" where
  "is_transient e =
     ((case e of NetworkErr _ \<Rightarrow> True | _ \<Rightarrow> False) \<or>
      (case e of ServerErr _ code _ \<Rightarrow> code = LimitExceeded | _ \<Rightarrow> False))"

datatype store_error =
    Db string
  | MalformedEvent string

datatype key_store_error = Backend string

datatype core_error =
    Crypto string
  | Api error_code string
  | Network string
  | Protocol string
  | Storage string

text \<open>The \<open>Display\<close> texts that \<open>thiserror\<close> derives from the \<open>#[error]\<close> attributes.\<close>

fun show_api_error :: "api_error \<Rightarrow> string" where
  "show_api_error (ServerErr st code m) =
     ''server error '' @ nat_dec (unat st) @ '' '' @ code_as_str code @ '': '' @ m"
| "show_api_error (NetworkErr r) = ''network error: '' @ r"
| "show_api_error (MalformedErr r) = ''malformed response: '' @ r"

fun show_store_error :: "store_error \<Rightarrow> string" where
  "show_store_error (Db m) = ''database error: '' @ m"
| "show_store_error (MalformedEvent r) = ''malformed event: '' @ r"

fun show_core_error :: "core_error \<Rightarrow> string" where
  "show_core_error (Crypto r) = ''crypto error: '' @ r"
| "show_core_error (Api code r) =
     ''server rejected the request ['' @ code_as_str code @ '']: '' @ r"
| "show_core_error (Network r) = ''network error: '' @ r"
| "show_core_error (Protocol r) = ''protocol error: '' @ r"
| "show_core_error (Storage r) = ''storage error: '' @ r"

section \<open>The conversions \<open>From\<close> that \<open>?\<close> applies\<close>

fun core_of_api :: "api_error \<Rightarrow> core_error" where
  "core_of_api (ServerErr st code m) = Api code m"
| "core_of_api (NetworkErr r) = Network r"
| "core_of_api (MalformedErr r) = Protocol r"

definition core_of_store :: "store_error \<Rightarrow> core_error" where
  "core_of_store e = Storage (show_store_error e)"

definition core_of_crypto :: "string \<Rightarrow> core_error" where
  "core_of_crypto m = Crypto m"

fun core_of_key_store :: "key_store_error \<Rightarrow> core_error" where
  "core_of_key_store (Backend r) = Storage r"

section \<open>Log records\<close>

datatype log_level = LError | LWarn | LInfo | LDebug | LTrace

record log_record =
  lg_level :: log_level
  lg_target :: string
  lg_message :: string

text \<open>
  \<open>emit\<close>: the record goes to the installed sink, if any.  The sink is its list of records so far.
\<close>

definition emit :: "log_level \<Rightarrow> string \<Rightarrow> string \<Rightarrow> log_record list option \<Rightarrow> log_record list option"
where
  "emit lvl target msg sink =
     (case sink of None \<Rightarrow> None
      | Some ls \<Rightarrow> Some (ls @ [\<lparr> lg_level = lvl, lg_target = target, lg_message = msg \<rparr>]))"

end
