(* ===== verification/Api.thy ===== *)
theory Api
  imports Act Errors
begin

text \<open>
  The HTTP client of \<open>core/src/api.rs\<close>, one definition per method.  A request is a record of what
  the code hands to \<open>reqwest\<close>; the network with the homeserver behind it is a parameter: a function
  that answers a request, with a state of its own, either with a transport failure (which includes a
  URL \<open>reqwest\<close> refuses) or with a status, the body parsed as JSON if it parses, and the body's bytes.
  The requests made are logged, so that what leaves the device can be stated.
\<close>

section \<open>Requests and replies\<close>

datatype http_method = GET | POST | PUT

datatype req_body = NoBody | JsonBody json | RawBody string "8 word list"

record request =
  rq_method :: http_method
  rq_url :: string
  rq_bearer :: "string option"
  rq_query :: "(string \<times> string) list"
  rq_body :: req_body
  rq_timeout_ms :: "nat option"

record http_reply =
  rp_status :: "16 word"
  rp_json :: "json option"
  rp_bytes :: "string + 8 word list"

type_synonym 'w server = "request \<Rightarrow> 'w \<Rightarrow> (string + http_reply) \<times> 'w"

record 'w net =
  net_remote :: 'w
  net_log :: "request list"

record api =
  api_base :: string
  api_token :: "string option"

type_synonym ('w, 'a) api_act = "('w net, api_error, 'a) act"

definition is_success :: "16 word \<Rightarrow> bool" where
  "is_success st \<longleftrightarrow> 200 \<le> unat st \<and> unat st < 300"

section \<open>Pure helpers\<close>

definition normalize_base :: "string \<Rightarrow> string" where
  "normalize_base base = trim_end_matches CHR ''/'' base"

definition join_url :: "string \<Rightarrow> string \<Rightarrow> string" where
  "join_url base path = base @ path"

definition parse_error :: "16 word \<Rightarrow> json \<Rightarrow> api_error" where
  "parse_error status body =
     ServerErr status
       (case as_str (jindex body ''errcode'') of None \<Rightarrow> Unknown | Some c \<Rightarrow> code_from_wire c)
       (case as_str (jindex body ''error'') of None \<Rightarrow> ''(no error message)'' | Some m \<Rightarrow> m)"

definition json_string :: "json \<Rightarrow> string \<Rightarrow> api_error + string" where
  "json_string body key =
     ok_or (MalformedErr (''response missing string field `'' @ key @ ''`'')) (as_str (jindex body key))"

text \<open>\<open>{b:02x}\<close>.\<close>

definition hex_digit :: "nat \<Rightarrow> char" where
  "hex_digit d = (char_of (if d < 10 then 48 + d else 87 + d) :: char)"

definition hex_byte :: "8 word \<Rightarrow> string" where
  "hex_byte b = [hex_digit (unat b div 16), hex_digit (unat b mod 16)]"

text \<open>\<open>content_hash\<close> of \<open>pigeon_core\<close> is the parameter \<open>hash\<close>.\<close>

type_synonym hash_fun = "json \<Rightarrow> string + 8 word list"

definition key_package_id :: "hash_fun \<Rightarrow> string \<Rightarrow> nat \<Rightarrow> string" where
  "key_package_id hash package_b64 index =
     (case hash (JStr package_b64) of
        Inr h \<Rightarrow> ''kp-'' @ concat (map hex_byte (take 8 h))
      | Inl _ \<Rightarrow> ''kp-'' @ nat_dec index)"

record auth_response =
  ar_user_id :: string
  ar_device_id :: string
  ar_access_token :: string

definition parse_auth :: "json \<Rightarrow> api_error + auth_response" where
  "parse_auth body =
     (let field = (\<lambda>key. ok_or (MalformedErr (''auth response missing string field `'' @ key @ ''`''))
                          (as_str (jindex body key)))
      in then_ok (field ''user_id'') (\<lambda>u.
         then_ok (field ''device_id'') (\<lambda>d.
         then_ok (field ''access_token'') (\<lambda>t.
         Inr \<lparr> ar_user_id = u, ar_device_id = d, ar_access_token = t \<rparr>))))"

section \<open>Transport\<close>

text \<open>\<open>Client::builder().build()\<close> is the parameter \<open>built\<close>.\<close>

definition api_new :: "string + unit \<Rightarrow> string \<Rightarrow> string option \<Rightarrow> api_error + api" where
  "api_new built base token =
     then_ok (map_err NetworkErr built) (\<lambda>_.
       Inr \<lparr> api_base = normalize_base base, api_token = token \<rparr>)"

definition set_token :: "api \<Rightarrow> string option \<Rightarrow> api" where
  "set_token a token = a\<lparr>api_token := token\<rparr>"

definition req :: "api \<Rightarrow> http_method \<Rightarrow> string \<Rightarrow> request" where
  "req a m path =
     \<lparr> rq_method = m, rq_url = join_url (api_base a) path, rq_bearer = api_token a, rq_query = [],
       rq_body = NoBody, rq_timeout_ms = None \<rparr>"

text \<open>\<open>req.send().await\<close>.\<close>

definition exchange :: "'w server \<Rightarrow> request \<Rightarrow> ('w, http_reply) api_act" where
  "exchange srv rq = (\<lambda>n.
     (case srv rq (net_remote n) of
        (r, w') \<Rightarrow> (map_err NetworkErr r, \<lparr> net_remote = w', net_log = net_log n @ [rq] \<rparr>)))"

definition send :: "'w server \<Rightarrow> request \<Rightarrow> ('w, json) api_act" where
  "send srv rq =
     bnd (exchange srv rq) (\<lambda>resp.
       (let body = (case rp_json resp of None \<Rightarrow> JNull | Some v \<Rightarrow> v)
        in if is_success (rp_status resp) then ret body
           else raise (parse_error (rp_status resp) body)))"

definition api_get :: "'w server \<Rightarrow> api \<Rightarrow> string \<Rightarrow> ('w, json) api_act" where
  "api_get srv a path = send srv (req a GET path)"

definition post :: "'w server \<Rightarrow> api \<Rightarrow> string \<Rightarrow> json \<Rightarrow> ('w, json) api_act" where
  "post srv a path body = send srv ((req a POST path)\<lparr>rq_body := JsonBody body\<rparr>)"

definition put :: "'w server \<Rightarrow> api \<Rightarrow> string \<Rightarrow> json \<Rightarrow> ('w, json) api_act" where
  "put srv a path body = send srv ((req a PUT path)\<lparr>rq_body := JsonBody body\<rparr>)"

section \<open>Accounts\<close>

definition register :: "'w server \<Rightarrow> api \<Rightarrow> string \<Rightarrow> string \<Rightarrow> ('w, auth_response) api_act" where
  "register srv a username password =
     bnd (post srv a ''/_pigeon/client/v1/register''
            (JObj [(''username'', JStr username), (''password'', JStr password)]))
       (\<lambda>body. lift_res (parse_auth body))"

definition login :: "'w server \<Rightarrow> api \<Rightarrow> string \<Rightarrow> string \<Rightarrow> ('w, auth_response) api_act" where
  "login srv a user password =
     bnd (post srv a ''/_pigeon/client/v1/login''
            (JObj [(''type'', JStr ''p.login.password''), (''user'', JStr user),
                   (''password'', JStr password)]))
       (\<lambda>body. lift_res (parse_auth body))"

definition logout :: "'w server \<Rightarrow> api \<Rightarrow> ('w, unit) api_act" where
  "logout srv a = bnd (post srv a ''/_pigeon/client/v1/logout'' (JObj [])) (\<lambda>_. ret ())"

definition whoami :: "'w server \<Rightarrow> api \<Rightarrow> ('w, json) api_act" where
  "whoami srv a = api_get srv a ''/_pigeon/client/v1/account/whoami''"

section \<open>Sync and rooms\<close>

definition sync :: "'w server \<Rightarrow> api \<Rightarrow> string option \<Rightarrow> 64 word \<Rightarrow> 32 word \<Rightarrow> ('w, json) api_act" where
  "sync srv a since timeout_ms limit =
     send srv ((req a GET ''/_pigeon/client/v1/sync'')\<lparr>
       rq_query := [(''timeout'', nat_dec (unat timeout_ms)), (''limit'', nat_dec (unat limit))] @
          (case since of None \<Rightarrow> [] | Some s \<Rightarrow> [(''since'', s)]),
       rq_timeout_ms := Some (unat timeout_ms + 15000)\<rparr>)"

definition create_room_body :: "string option \<Rightarrow> string option \<Rightarrow> bool \<Rightarrow> json" where
  "create_room_body name topic encryption =
     (let b0 = [];
          b1 = (case name of None \<Rightarrow> b0 | Some n \<Rightarrow> obj_insert ''name'' (JStr n) b0);
          b2 = (case topic of None \<Rightarrow> b1 | Some t \<Rightarrow> obj_insert ''topic'' (JStr t) b1);
          b3 = (if encryption then obj_insert ''encryption'' (JBool True) b2 else b2)
      in JObj b3)"

definition create_room ::
  "'w server \<Rightarrow> api \<Rightarrow> string option \<Rightarrow> string option \<Rightarrow> bool \<Rightarrow> ('w, string) api_act" where
  "create_room srv a name topic encryption =
     bnd (post srv a ''/_pigeon/client/v1/createRoom'' (create_room_body name topic encryption))
       (\<lambda>resp. lift_res (json_string resp ''room_id''))"

definition join_room :: "'w server \<Rightarrow> api \<Rightarrow> string \<Rightarrow> ('w, string) api_act" where
  "join_room srv a room_id =
     bnd (post srv a (''/_pigeon/client/v1/rooms/'' @ room_id @ ''/join'') (JObj []))
       (\<lambda>resp. lift_res (json_string resp ''room_id''))"

definition invite :: "'w server \<Rightarrow> api \<Rightarrow> string \<Rightarrow> string \<Rightarrow> ('w, string) api_act" where
  "invite srv a room_id user_id =
     bnd (post srv a (''/_pigeon/client/v1/rooms/'' @ room_id @ ''/invite'')
            (JObj [(''user_id'', JStr user_id)]))
       (\<lambda>resp. lift_res (json_string resp ''event_id''))"

definition messages :: "'w server \<Rightarrow> api \<Rightarrow> string \<Rightarrow> 32 word \<Rightarrow> ('w, json) api_act" where
  "messages srv a room_id limit =
     send srv ((req a GET (''/_pigeon/client/v1/rooms/'' @ room_id @ ''/messages''))\<lparr>
       rq_query := [(''limit'', nat_dec (unat limit))]\<rparr>)"

definition send_event ::
  "'w server \<Rightarrow> api \<Rightarrow> string \<Rightarrow> string \<Rightarrow> string \<Rightarrow> json \<Rightarrow> ('w, string) api_act" where
  "send_event srv a room_id event_type txn_id content =
     bnd (put srv a (''/_pigeon/client/v1/rooms/'' @ room_id @ ''/send/'' @ event_type @ ''/'' @ txn_id)
            content)
       (\<lambda>resp. lift_res (json_string resp ''event_id''))"

definition send_message ::
  "'w server \<Rightarrow> api \<Rightarrow> string \<Rightarrow> string \<Rightarrow> json \<Rightarrow> ('w, string) api_act" where
  "send_message srv a room_id txn_id content = send_event srv a room_id ''p.room.message'' txn_id content"

section \<open>Key directory\<close>

fun package_entries :: "hash_fun \<Rightarrow> nat \<Rightarrow> string list \<Rightarrow> json list" where
  "package_entries hash i [] = []"
| "package_entries hash i (pkg # pkgs) =
     JObj [(''key_id'', JStr (key_package_id hash pkg i)), (''package'', JStr pkg),
           (''last_resort'', JBool False)] # package_entries hash (Suc i) pkgs"

definition upload_body :: "hash_fun \<Rightarrow> string \<Rightarrow> string \<Rightarrow> string list \<Rightarrow> string option \<Rightarrow> json" where
  "upload_body hash device_id public_key_b64 key_packages_b64 last_resort_b64 =
     (let ps = package_entries hash 0 key_packages_b64;
          packages = (case last_resort_b64 of None \<Rightarrow> ps
             | Some lr \<Rightarrow> ps @ [JObj [(''key_id'', JStr (key_package_id hash lr (length ps))),
                                    (''package'', JStr lr), (''last_resort'', JBool True)]])
      in JObj [(''device_keys'', JObj [(''algorithms'', JArr [JStr ''p.mls.1'']),
                 (''keys'', JObj [(''ed25519:'' @ device_id, JStr public_key_b64)]),
                 (''signatures'', JObj [])]),
               (''key_packages'', JArr packages)])"

definition upload_keys ::
  "'w server \<Rightarrow> hash_fun \<Rightarrow> api \<Rightarrow> string \<Rightarrow> string \<Rightarrow> string list \<Rightarrow> string option \<Rightarrow> ('w, 32 word) api_act"
where
  "upload_keys srv hash a device_id public_key_b64 key_packages_b64 last_resort_b64 =
     bnd (post srv a ''/_pigeon/client/v1/keys/upload''
            (upload_body hash device_id public_key_b64 key_packages_b64 last_resort_b64))
       (\<lambda>resp. ret (ucast (case as_u64 (jindex resp ''key_package_count'') of None \<Rightarrow> 0 | Some n \<Rightarrow> n)))"

definition query_keys :: "'w server \<Rightarrow> api \<Rightarrow> string \<Rightarrow> ('w, json) api_act" where
  "query_keys srv a user_id =
     bnd (post srv a ''/_pigeon/client/v1/keys/query'' (JObj [(''device_keys'', JObj [(user_id, JArr [])])]))
       (\<lambda>resp. ret (jindex (jindex resp ''device_keys'') user_id))"

definition claim_keys :: "'w server \<Rightarrow> api \<Rightarrow> string \<Rightarrow> string \<Rightarrow> ('w, string option) api_act" where
  "claim_keys srv a user_id device_id =
     bnd (post srv a ''/_pigeon/client/v1/keys/claim''
            (JObj [(''one_time_keys'', JObj [(user_id, JArr [JStr device_id])])]))
       (\<lambda>resp. ret (as_str (jindex (jindex (jindex (jindex resp ''one_time_keys'') user_id) device_id)
                              ''package'')))"

definition send_to_device ::
  "'w server \<Rightarrow> api \<Rightarrow> string \<Rightarrow> string \<Rightarrow> json \<Rightarrow> ('w, unit) api_act" where
  "send_to_device srv a event_type txn_id msgs =
     bnd (put srv a (''/_pigeon/client/v1/sendToDevice/'' @ event_type @ ''/'' @ txn_id)
            (JObj [(''messages'', msgs)]))
       (\<lambda>_. ret ())"

section \<open>Key backup\<close>

definition put_room_key ::
  "'w server \<Rightarrow> api \<Rightarrow> string \<Rightarrow> string \<Rightarrow> string \<Rightarrow> ('w, unit) api_act" where
  "put_room_key srv a room_id session_id blob_b64 =
     bnd (put srv a (''/_pigeon/client/v1/room_keys/key/'' @ room_id @ ''/'' @ session_id)
            (JObj [(''blob'', JStr blob_b64)]))
       (\<lambda>_. ret ())"

definition get_room_key ::
  "'w server \<Rightarrow> api \<Rightarrow> string \<Rightarrow> string \<Rightarrow> ('w, string option) api_act" where
  "get_room_key srv a room_id session_id =
     catch (api_get srv a (''/_pigeon/client/v1/room_keys/key/'' @ room_id @ ''/'' @ session_id))
       (\<lambda>r. case r of
              Inr resp \<Rightarrow> ret (as_str (jindex resp ''blob''))
            | Inl err \<Rightarrow> (case err of ServerErr _ NotFound _ \<Rightarrow> ret None | _ \<Rightarrow> raise err))"

section \<open>Media\<close>

definition upload_media ::
  "'w server \<Rightarrow> api \<Rightarrow> 8 word list \<Rightarrow> string \<Rightarrow> ('w, string) api_act" where
  "upload_media srv a bytes content_type =
     bnd (send srv ((req a POST ''/_pigeon/media/v1/upload'')\<lparr>rq_body := RawBody content_type bytes\<rparr>))
       (\<lambda>resp. lift_res (json_string resp ''content_uri''))"

definition download_media ::
  "'w server \<Rightarrow> api \<Rightarrow> string \<Rightarrow> string \<Rightarrow> ('w, 8 word list) api_act" where
  "download_media srv a server media_id =
     bnd (exchange srv (req a GET (''/_pigeon/media/v1/download/'' @ server @ ''/'' @ media_id)))
       (\<lambda>resp.
         if \<not> is_success (rp_status resp)
         then raise (parse_error (rp_status resp) (case rp_json resp of None \<Rightarrow> JNull | Some v \<Rightarrow> v))
         else lift_res (map_err NetworkErr (rp_bytes resp)))"

end
