(* ===== verification/Keys.thy ===== *)
theory Keys
  imports Api
begin

text \<open>
  \<open>core/src/keys.rs\<close>: discovering a user's devices and claiming one KeyPackage from each.
\<close>

record claimed_key_package =
  ck_device_id :: string
  ck_key_package_b64 :: string

definition device_ids_of :: "json \<Rightarrow> string list" where
  "device_ids_of devices = (case as_object devices of None \<Rightarrow> [] | Some kvs \<Rightarrow> map fst kvs)"

fun claim_loop ::
  "'w server \<Rightarrow> api \<Rightarrow> string \<Rightarrow> string list \<Rightarrow> claimed_key_package list \<Rightarrow>
   ('w net, core_error, claimed_key_package list) act" where
  "claim_loop srv a user_id [] claimed = ret claimed"
| "claim_loop srv a user_id (d # ds) claimed =
     bnd (map_errA core_of_api (claim_keys srv a user_id d)) (\<lambda>k.
       claim_loop srv a user_id ds
         (case k of None \<Rightarrow> claimed
          | Some p \<Rightarrow> claimed @ [\<lparr> ck_device_id = d, ck_key_package_b64 = p \<rparr>]))"

definition claim_all_devices ::
  "'w server \<Rightarrow> api \<Rightarrow> string \<Rightarrow> ('w net, core_error, claimed_key_package list) act" where
  "claim_all_devices srv a user_id =
     bnd (map_errA core_of_api (query_keys srv a user_id)) (\<lambda>devices.
       claim_loop srv a user_id (device_ids_of devices) [])"

end
