(* ===== verification/E2ee.thy ===== *)
theory E2ee
  imports Act Errors
begin

text \<open>
  The MLS engine of \<open>core/src/e2ee.rs\<close>, one definition per method of \<open>E2ee\<close>.  The cryptography
  (\<open>pigeon_crypto\<close>), base64, the JSON text form and the host's key store are not part of the
  repository: they are the fields of the records \<open>mls\<close>, \<open>base64\<close>, \<open>json_text\<close> and \<open>key_store\<close>, which
  every definition takes as the one argument \<open>env\<close>.  A device operation returns the device it leaves
  behind on both outcomes, since \<open>pigeon_crypto\<close> changes it in place.  Randomness is a counter handed
  to the operations that draw it.
\<close>

section \<open>The code outside the repository\<close>

type_synonym bytes = "8 word list"

record ('d, 'g) mls =
  m_new :: "nat \<Rightarrow> string \<Rightarrow> string + 'd"
  m_restore :: "string \<Rightarrow> bytes \<Rightarrow> bytes \<Rightarrow> string + 'd"
  m_pubkey :: "'d \<Rightarrow> bytes"
  m_export :: "'d \<Rightarrow> string + bytes"
  m_key_packages :: "nat \<Rightarrow> 'd \<Rightarrow> (string + bytes list) \<times> 'd"
  m_last_resort :: "'d \<Rightarrow> (string + bytes) \<times> 'd"
  m_load_group :: "bytes \<Rightarrow> 'd \<Rightarrow> string + 'g option"
  m_create_group :: "bytes \<Rightarrow> 'd \<Rightarrow> (string + unit) \<times> 'd"
  m_add_member :: "'g \<Rightarrow> bytes \<Rightarrow> 'd \<Rightarrow> (string + bytes \<times> bytes) \<times> 'd"
  m_process_commit :: "'g \<Rightarrow> bytes \<Rightarrow> 'd \<Rightarrow> (string + unit) \<times> 'd"
  m_join :: "bytes \<Rightarrow> 'd \<Rightarrow> (string + unit) \<times> 'd"
  m_encrypt :: "'g \<Rightarrow> bytes \<Rightarrow> 'd \<Rightarrow> (string + bytes) \<times> 'd"
  m_decrypt :: "'g \<Rightarrow> bytes \<Rightarrow> 'd \<Rightarrow> (string + bytes) \<times> 'd"
  m_encrypt_media :: "nat \<Rightarrow> bytes \<Rightarrow> string + bytes \<times> bytes"
  m_decrypt_media :: "bytes \<Rightarrow> bytes \<Rightarrow> string + bytes"
  m_create_backup :: "nat \<Rightarrow> 'd \<Rightarrow> string + bytes \<times> bytes"
  m_restore_backup :: "bytes \<Rightarrow> bytes \<Rightarrow> string + 'd"

record base64 =
  b64_encode :: "bytes \<Rightarrow> string"
  b64_decode :: "string \<Rightarrow> string + bytes"

record json_text =
  jprint :: "json \<Rightarrow> string"
  jparse :: "bytes \<Rightarrow> string + json"

record 'k key_store =
  kp_put :: "string \<Rightarrow> bytes \<Rightarrow> 'k \<Rightarrow> (string + unit) \<times> 'k"
  kp_get :: "string \<Rightarrow> 'k \<Rightarrow> (string + bytes option) \<times> 'k"
  kp_delete :: "string \<Rightarrow> 'k \<Rightarrow> (string + unit) \<times> 'k"

record ('d, 'g, 'k) crypto_env =
  env_mls :: "('d, 'g) mls"
  env_b64 :: base64
  env_json :: json_text
  env_ks :: "'k key_store"

section \<open>The key store helpers of \<open>session.rs\<close>\<close>

text \<open>
  The state of a session's secrets: the device, if the session has an engine, the host's key store,
  if one is installed, and the randomness drawn so far.
\<close>

record ('d, 'k) vault =
  vt_device :: "'d option"
  vt_keys :: "'k option"
  vt_seed :: nat

type_synonym ('d, 'k, 'a) vault_act = "(('d, 'k) vault, core_error, 'a) act"

definition ks_call ::
  "('k \<Rightarrow> (string + 'a) \<times> 'k) \<Rightarrow> 'a \<Rightarrow> (('d, 'k) vault, core_error, bool \<times> 'a) act" where
  "ks_call f none = (\<lambda>v.
     (case vt_keys v of
        None \<Rightarrow> (Inr (False, none), v)
      | Some k \<Rightarrow>
          (case f k of (r, k') \<Rightarrow>
             (case r of Inl e \<Rightarrow> Inl (core_of_key_store (Backend e)) | Inr a \<Rightarrow> Inr (True, a),
              v\<lparr>vt_keys := Some k'\<rparr>))))"

definition ks_put :: "('d, 'g, 'k) crypto_env \<Rightarrow> string \<Rightarrow> bytes \<Rightarrow> ('d, 'k, bool) vault_act" where
  "ks_put env key value = bnd (ks_call (kp_put (env_ks env) key value) ()) (\<lambda>(done, _). ret done)"

definition ks_get :: "('d, 'g, 'k) crypto_env \<Rightarrow> string \<Rightarrow> ('d, 'k, bytes option) vault_act" where
  "ks_get env key = bnd (ks_call (kp_get (env_ks env) key) None) (\<lambda>(_, value). ret value)"

definition ks_delete :: "('d, 'g, 'k) crypto_env \<Rightarrow> string \<Rightarrow> ('d, 'k, unit) vault_act" where
  "ks_delete env key = bnd (ks_call (kp_delete (env_ks env) key) ()) (\<lambda>_. ret ())"

section \<open>Helpers\<close>

definition MLS_STATE_KEY :: string where "MLS_STATE_KEY = ''pigeon.mls.state.v1''"
definition KEY_PACKAGE_COUNT :: nat where "KEY_PACKAGE_COUNT = 5"

definition draw :: "('d, 'k, nat) vault_act" where
  "draw = (\<lambda>v. (Inr (vt_seed v), v\<lparr>vt_seed := Suc (vt_seed v)\<rparr>))"

text \<open>The device of the engine a method is called on; no method is called without one.\<close>

definition the_device :: "('d, 'k, 'd) vault_act" where
  "the_device = (\<lambda>v. (case vt_device v of
     None \<Rightarrow> Inl (Crypto ''E2EE is not available for this session'') | Some d \<Rightarrow> Inr d, v))"

definition set_device :: "'d \<Rightarrow> ('d, 'k, unit) vault_act" where
  "set_device d = modA (\<lambda>v. v\<lparr>vt_device := Some d\<rparr>)"

text \<open>A fallible operation of the device; the device changes in place.\<close>

definition on_device :: "('d \<Rightarrow> (string + 'a) \<times> 'd) \<Rightarrow> ('d, 'k, 'a) vault_act" where
  "on_device f = bnd the_device (\<lambda>d.
     (case f d of (r, d') \<Rightarrow> bnd (set_device d') (\<lambda>_. lift_res (map_err core_of_crypto r))))"

definition decode_wire :: "('d, 'g, 'k) crypto_env \<Rightarrow> string \<Rightarrow> string \<Rightarrow> core_error + bytes" where
  "decode_wire env b64 what =
     map_err (\<lambda>e. Crypto (what @ '' is not valid base64: '' @ e)) (b64_decode (env_b64 env) b64)"

definition decode_field :: "('d, 'g, 'k) crypto_env \<Rightarrow> json \<Rightarrow> string \<Rightarrow> core_error + bytes" where
  "decode_field env stored key =
     then_ok (ok_or (Storage (''stored MLS state missing `'' @ key @ ''`'')) (as_str (jindex stored key))) (\<lambda>s.
       map_err (\<lambda>e. Storage (''stored MLS `'' @ key @ ''` is not valid base64: '' @ e))
         (b64_decode (env_b64 env) s))"

definition stored_state :: "('d, 'g, 'k) crypto_env \<Rightarrow> 'd \<Rightarrow> bytes \<Rightarrow> json" where
  "stored_state env d blob =
     JObj [(''pubkey'', JStr (b64_encode (env_b64 env) (m_pubkey (env_mls env) d))),
           (''blob'', JStr (b64_encode (env_b64 env) blob))]"

definition persist :: "('d, 'g, 'k) crypto_env \<Rightarrow> 'd \<Rightarrow> ('d, 'k, unit) vault_act" where
  "persist env d =
     bnd (lift_res (map_err core_of_crypto (m_export (env_mls env) d))) (\<lambda>blob.
     bnd (ks_put env MLS_STATE_KEY (str_bytes (jprint (env_json env) (stored_state env d blob)))) (\<lambda>_.
     ret ()))"

definition load_group :: "('d, 'g, 'k) crypto_env \<Rightarrow> 'd \<Rightarrow> string \<Rightarrow> core_error + 'g" where
  "load_group env d room_id =
     then_ok (map_err core_of_crypto (m_load_group (env_mls env) (str_bytes room_id) d)) (\<lambda>g.
       ok_or (Crypto (''no MLS group for '' @ room_id)) g)"

section \<open>The engine\<close>

text \<open>\<open>persist(&device)\<close> of the current device.\<close>

definition persist_current :: "('d, 'g, 'k) crypto_env \<Rightarrow> ('d, 'k, unit) vault_act" where
  "persist_current env = bnd the_device (persist env)"

text \<open>
  \<open>create\<close> and \<open>restore\<close> return the engine; here they return its device, and the caller installs it
  (\<open>install_engine\<close>).
\<close>

definition e2ee_create :: "('d, 'g, 'k) crypto_env \<Rightarrow> string \<Rightarrow> ('d, 'k, 'd) vault_act" where
  "e2ee_create env user_id =
     bnd draw (\<lambda>seed.
     bnd (lift_res (map_err core_of_crypto (m_new (env_mls env) seed user_id))) (\<lambda>d.
     bnd (persist env d) (\<lambda>_. ret d)))"

definition e2ee_restore :: "('d, 'g, 'k) crypto_env \<Rightarrow> string \<Rightarrow> ('d, 'k, 'd option) vault_act" where
  "e2ee_restore env user_id =
     bnd (ks_get env MLS_STATE_KEY) (\<lambda>b.
     (case b of
        None \<Rightarrow> ret None
      | Some bs \<Rightarrow>
          lift_res
            (then_ok (map_err (\<lambda>e. Storage (''corrupt stored MLS state: '' @ e)) (jparse (env_json env) bs)) (\<lambda>stored.
             then_ok (decode_field env stored ''pubkey'') (\<lambda>pubkey.
             then_ok (decode_field env stored ''blob'') (\<lambda>blob.
             then_ok (map_err core_of_crypto (m_restore (env_mls env) user_id pubkey blob)) (\<lambda>d.
             Inr (Some d))))))))"

definition install_engine :: "'d option \<Rightarrow> ('d, 'k, unit) vault_act" where
  "install_engine d = modA (\<lambda>v. v\<lparr>vt_device := d\<rparr>)"

definition e2ee_clear :: "('d, 'g, 'k) crypto_env \<Rightarrow> ('d, 'k, unit) vault_act" where
  "e2ee_clear env = ks_delete env MLS_STATE_KEY"

definition signature_public_key_b64 :: "('d, 'g, 'k) crypto_env \<Rightarrow> ('d, 'k, string) vault_act" where
  "signature_public_key_b64 env =
     bnd the_device (\<lambda>d. ret (b64_encode (env_b64 env) (m_pubkey (env_mls env) d)))"

definition key_packages :: "('d, 'g, 'k) crypto_env \<Rightarrow> nat \<Rightarrow> ('d, 'k, string list) vault_act" where
  "key_packages env n =
     bnd (on_device (m_key_packages (env_mls env) n)) (\<lambda>packages.
     bnd (persist_current env) (\<lambda>_.
     ret (map (b64_encode (env_b64 env)) packages)))"

definition last_resort_key_package :: "('d, 'g, 'k) crypto_env \<Rightarrow> ('d, 'k, string) vault_act" where
  "last_resort_key_package env =
     bnd (on_device (m_last_resort (env_mls env))) (\<lambda>kp.
     bnd (persist_current env) (\<lambda>_.
     ret (b64_encode (env_b64 env) kp)))"

definition has_group :: "('d, 'g, 'k) crypto_env \<Rightarrow> string \<Rightarrow> ('d, 'k, bool) vault_act" where
  "has_group env room_id =
     bnd the_device (\<lambda>d.
       lift_res (then_ok (map_err core_of_crypto (m_load_group (env_mls env) (str_bytes room_id) d))
         (\<lambda>g. Inr (g \<noteq> None))))"

definition create_group :: "('d, 'g, 'k) crypto_env \<Rightarrow> string \<Rightarrow> ('d, 'k, unit) vault_act" where
  "create_group env room_id =
     bnd (on_device (m_create_group (env_mls env) (str_bytes room_id))) (\<lambda>_. persist_current env)"

record add_outcome =
  ao_welcome :: string
  ao_commit :: string

definition add_member ::
  "('d, 'g, 'k) crypto_env \<Rightarrow> string \<Rightarrow> string \<Rightarrow> ('d, 'k, add_outcome) vault_act" where
  "add_member env room_id key_package_b64 =
     bnd the_device (\<lambda>d.
     bnd (lift_res (load_group env d room_id)) (\<lambda>group.
     bnd (lift_res (decode_wire env key_package_b64 ''KeyPackage'')) (\<lambda>key_package.
     bnd (on_device (m_add_member (env_mls env) group key_package)) (\<lambda>(welcome, commit).
     bnd (persist_current env) (\<lambda>_.
     ret \<lparr> ao_welcome = b64_encode (env_b64 env) welcome,
           ao_commit = b64_encode (env_b64 env) commit \<rparr>)))))"

definition process_commit ::
  "('d, 'g, 'k) crypto_env \<Rightarrow> string \<Rightarrow> string \<Rightarrow> ('d, 'k, unit) vault_act" where
  "process_commit env room_id commit_b64 =
     bnd the_device (\<lambda>d.
     bnd (lift_res (load_group env d room_id)) (\<lambda>group.
     bnd (lift_res (decode_wire env commit_b64 ''commit'')) (\<lambda>commit.
     bnd (on_device (m_process_commit (env_mls env) group commit)) (\<lambda>_.
     persist_current env))))"

definition join_from_welcome :: "('d, 'g, 'k) crypto_env \<Rightarrow> string \<Rightarrow> ('d, 'k, unit) vault_act" where
  "join_from_welcome env welcome_b64 =
     bnd (lift_res (decode_wire env welcome_b64 ''Welcome'')) (\<lambda>welcome.
     bnd (on_device (m_join (env_mls env) welcome)) (\<lambda>_.
     persist_current env))"

definition encrypt :: "('d, 'g, 'k) crypto_env \<Rightarrow> string \<Rightarrow> string \<Rightarrow> ('d, 'k, string) vault_act" where
  "encrypt env room_id plaintext =
     bnd the_device (\<lambda>d.
     bnd (lift_res (load_group env d room_id)) (\<lambda>group.
     bnd (on_device (m_encrypt (env_mls env) group (str_bytes plaintext))) (\<lambda>ciphertext.
     bnd (persist_current env) (\<lambda>_.
     ret (b64_encode (env_b64 env) ciphertext)))))"

definition decrypt :: "('d, 'g, 'k) crypto_env \<Rightarrow> string \<Rightarrow> string \<Rightarrow> ('d, 'k, string) vault_act" where
  "decrypt env room_id ciphertext_b64 =
     bnd the_device (\<lambda>d.
     bnd (lift_res (load_group env d room_id)) (\<lambda>group.
     bnd (lift_res (decode_wire env ciphertext_b64 ''ciphertext'')) (\<lambda>ciphertext.
     bnd (on_device (m_decrypt (env_mls env) group ciphertext)) (\<lambda>plaintext.
     bnd (persist_current env) (\<lambda>_.
     lift_res (map_err (\<lambda>e. Crypto (''decrypted bytes are not UTF-8: '' @ e)) (from_utf8 plaintext)))))))"

section \<open>Media and backups\<close>

definition encrypt_media ::
  "('d, 'g, 'k) crypto_env \<Rightarrow> bytes \<Rightarrow> ('d, 'k, string \<times> bytes) vault_act" where
  "encrypt_media env plaintext =
     bnd draw (\<lambda>seed.
     bnd (lift_res (map_err core_of_crypto (m_encrypt_media (env_mls env) seed plaintext)))
       (\<lambda>(key, ciphertext). ret (b64_encode (env_b64 env) key, ciphertext)))"

definition decrypt_media :: "('d, 'g, 'k) crypto_env \<Rightarrow> string \<Rightarrow> bytes \<Rightarrow> core_error + bytes" where
  "decrypt_media env key_b64 ciphertext =
     then_ok (decode_wire env key_b64 ''media key'') (\<lambda>key.
       map_err core_of_crypto (m_decrypt_media (env_mls env) key ciphertext))"

definition create_backup :: "('d, 'g, 'k) crypto_env \<Rightarrow> ('d, 'k, string \<times> string) vault_act" where
  "create_backup env =
     bnd draw (\<lambda>seed.
     bnd the_device (\<lambda>d.
     bnd (lift_res (map_err core_of_crypto (m_create_backup (env_mls env) seed d))) (\<lambda>(recovery_key, blob).
     ret (b64_encode (env_b64 env) recovery_key, b64_encode (env_b64 env) blob))))"

definition restore_from_backup ::
  "('d, 'g, 'k) crypto_env \<Rightarrow> string \<Rightarrow> string \<Rightarrow> ('d, 'k, unit) vault_act" where
  "restore_from_backup env recovery_key_b64 blob_b64 =
     bnd (lift_res (decode_wire env recovery_key_b64 ''recovery key'')) (\<lambda>recovery_key.
     bnd (lift_res (decode_wire env blob_b64 ''backup blob'')) (\<lambda>blob.
     bnd (lift_res (map_err core_of_crypto (m_restore_backup (env_mls env) recovery_key blob))) (\<lambda>restored.
     bnd (set_device restored) (\<lambda>_.
     persist_current env))))"

end
