(* ===== verification/Store.thy ===== *)
theory Store
  imports Errors
begin

text \<open>
  The data model and the operations of \<open>core/src/store.rs\<close>: the wire event and its parsed form,
  the four tables of the SQLite schema as lists of rows, and one definition per method of \<open>Store\<close>,
  each SQL statement written as the list operation it denotes.  A fallible method returns
  \<open>store_error + ...\<close>; a mutating one returns the new database, and on an error the transaction
  rolls back, so the database a caller goes on with is the old one.

  Uniqueness of the primary keys and the foreign key of \<open>room_state\<close> are checked where the
  statement checks them.  A column value is read back with its SQL type (\<open>get_opt_text\<close>).
\<close>

section \<open>Events\<close>

datatype membership_state =
    MJoin | MInvite | MLeave | MBan | MKnock | MOther string

definition membership_from_wire :: "string \<Rightarrow> membership_state" where
  "membership_from_wire s =
     (if s = ''join'' then MJoin
      else if s = ''invite'' then MInvite
      else if s = ''leave'' then MLeave
      else if s = ''ban'' then MBan
      else if s = ''knock'' then MKnock
      else MOther s)"

datatype send_state = Confirmed | Sending | Failed

definition send_state_from_local :: "int \<Rightarrow> send_state" where
  "send_state_from_local l = (if l = 1 then Sending else if l = 2 then Failed else Confirmed)"

record stored_event =
  ev_event_id :: string
  ev_room_id :: string
  ev_sender :: string
  ev_event_type :: string
  ev_state_key :: "string option"
  ev_origin_server_ts :: int
  ev_depth :: int
  ev_content :: json
  ev_payload :: json
  ev_send_state :: send_state
  ev_decrypted :: "string option"
  ev_decrypt_failed :: bool

definition str_field :: "json \<Rightarrow> string \<Rightarrow> store_error + string" where
  "str_field event key =
     ok_or (MalformedEvent (''event missing string field `'' @ key @ ''`''))
       (as_str (jindex event key))"

definition int_field :: "json \<Rightarrow> string \<Rightarrow> store_error + int" where
  "int_field event key =
     ok_or (MalformedEvent (''event missing integer field `'' @ key @ ''`''))
       (as_i64 (jindex event key))"

definition from_wire :: "json \<Rightarrow> store_error + stored_event" where
  "from_wire event =
     then_ok (str_field event ''event_id'') (\<lambda>eid.
     then_ok (str_field event ''room_id'') (\<lambda>rid.
     then_ok (str_field event ''sender'') (\<lambda>snd.
     then_ok (str_field event ''type'') (\<lambda>ty.
     then_ok (int_field event ''origin_server_ts'') (\<lambda>ts.
     then_ok (int_field event ''depth'') (\<lambda>d.
     Inr \<lparr> ev_event_id = eid, ev_room_id = rid, ev_sender = snd, ev_event_type = ty,
           ev_state_key = as_str (jindex event ''state_key''),
           ev_origin_server_ts = ts, ev_depth = d,
           ev_content = (case jget event ''content'' of None \<Rightarrow> JNull | Some c \<Rightarrow> c),
           ev_payload = event, ev_send_state = Confirmed,
           ev_decrypted = None, ev_decrypt_failed = False \<rparr>))))))"

record pending_send =
  ps_txn_id :: string
  ps_room_id :: string
  ps_body :: string

record pending_decrypt =
  pd_event_id :: string
  pd_room_id :: string
  pd_sender :: string
  pd_ciphertext_b64 :: string

record pending_commit =
  pc_event_id :: string
  pc_room_id :: string
  pc_sender :: string
  pc_commit_b64 :: string

datatype pending_mls_item = MlsMessage pending_decrypt | MlsCommit pending_commit

record room_summary =
  rs_room_id :: string
  rs_name :: "string option"
  rs_topic :: "string option"
  rs_encrypted :: bool
  rs_last_activity_ts :: int

section \<open>Tables\<close>

text \<open>A row of \<open>events\<close>, with the columns that the migrations to versions 2 and 3 add.\<close>

record 't event_row =
  r_event_id :: string
  r_room_id :: string
  r_sender :: string
  r_type :: string
  r_state_key :: "string option"
  r_ts :: int
  r_depth :: int
  r_payload :: 't
  r_local :: int
  r_decrypted :: "string option"
  r_decrypt_state :: int

record state_row =
  s_room_id :: string
  s_type :: string
  s_state_key :: string
  s_event_id :: string
  s_depth :: int

record pending_row =
  p_txn_id :: string
  p_room_id :: string
  p_body :: string
  p_event_id :: string
  p_created_ts :: int

record 't db =
  sync_token :: "string option"
  events :: "'t event_row list"
  room_state :: "state_row list"
  pending_sends_tab :: "pending_row list"

definition empty_db :: "'t db" where
  "empty_db = \<lparr> sync_token = None, events = [], room_state = [], pending_sends_tab = [] \<rparr>"

definition state_key_of :: "state_row \<Rightarrow> string \<times> string \<times> string" where
  "state_key_of s = (s_room_id s, s_type s, s_state_key s)"

definition DECRYPT_OK :: int where "DECRYPT_OK = 1"
definition DECRYPT_FAILED :: int where "DECRYPT_FAILED = 2"

text \<open>
  The position of an event in the timeline, \<open>ORDER BY depth ASC, event_id ASC\<close>: a type of its own
  with that order, so that the library's \<open>sort_key\<close> is the \<open>ORDER BY\<close>.
\<close>

datatype dag_pos = DagPos (pos_depth: int) (pos_id: string)

instantiation dag_pos :: linorder
begin

definition less_eq_dag_pos :: "dag_pos \<Rightarrow> dag_pos \<Rightarrow> bool" where
  "less_eq_dag_pos a b \<longleftrightarrow> (pos_depth a, pos_id a) \<le> (pos_depth b, pos_id b)"

definition less_dag_pos :: "dag_pos \<Rightarrow> dag_pos \<Rightarrow> bool" where
  "less_dag_pos a b \<longleftrightarrow> (pos_depth a, pos_id a) < (pos_depth b, pos_id b)"

instance
proof
  fix x y z :: dag_pos
  show "x < y \<longleftrightarrow> x \<le> y \<and> \<not> y \<le> x"
    by (simp only: less_eq_dag_pos_def less_dag_pos_def less_le_not_le)
  show "x \<le> x" by (simp only: less_eq_dag_pos_def order_refl)
  show "x \<le> y \<Longrightarrow> y \<le> z \<Longrightarrow> x \<le> z"
    unfolding less_eq_dag_pos_def by (rule order_trans)
  show "x \<le> y \<Longrightarrow> y \<le> x \<Longrightarrow> x = y"
    unfolding less_eq_dag_pos_def by (cases x; cases y) (metis dag_pos.sel order_antisym prod.inject)
  show "x \<le> y \<or> y \<le> x"
    unfolding less_eq_dag_pos_def by (rule linear)
qed

end

definition row_pos :: "'t event_row \<Rightarrow> dag_pos" where
  "row_pos r = DagPos (r_depth r) (r_event_id r)"

lemma dag_pos_le: "DagPos d i \<le> DagPos d' i' \<longleftrightarrow> d < d' \<or> d = d' \<and> i \<le> i'"
  by (auto simp: less_eq_dag_pos_def less_eq_prod_def)

lemma dag_pos_less: "DagPos d i < DagPos d' i' \<longleftrightarrow> d < d' \<or> d = d' \<and> i < i'"
  by (auto simp: less_dag_pos_def less_prod_def)

section \<open>Sync token\<close>

definition save_sync_token :: "'t db \<Rightarrow> string \<Rightarrow> 't db" where
  "save_sync_token db token = db\<lparr>sync_token := Some token\<rparr>"

definition load_sync_token :: "'t db \<Rightarrow> string option" where
  "load_sync_token db = sync_token db"

section \<open>Writes: append events, fold current state\<close>

definition has_event :: "'t db \<Rightarrow> string \<Rightarrow> bool" where
  "has_event db eid = has_key r_event_id eid (events db)"

definition row_of_event :: "'t codec \<Rightarrow> stored_event \<Rightarrow> 't event_row" where
  "row_of_event cx ev = \<lparr> r_event_id = ev_event_id ev, r_room_id = ev_room_id ev,
     r_sender = ev_sender ev, r_type = ev_event_type ev, r_state_key = ev_state_key ev,
     r_ts = ev_origin_server_ts ev, r_depth = ev_depth ev, r_payload = enc cx (ev_payload ev),
     r_local = 0, r_decrypted = None, r_decrypt_state = 0 \<rparr>"

text \<open>\<open>INSERT OR IGNORE\<close> and the number of rows it changed.\<close>

definition insert_event :: "'t codec \<Rightarrow> 't db \<Rightarrow> stored_event \<Rightarrow> 't db \<times> nat" where
  "insert_event cx db ev =
     (if has_event db (ev_event_id ev) then (db, 0)
      else (db\<lparr>events := events db @ [row_of_event cx ev]\<rparr>, 1))"

definition fk_error :: store_error where
  "fk_error = Db ''FOREIGN KEY constraint failed''"

text \<open>
  The upsert of \<open>fold_state\<close>.  The \<open>expect\<close> of the code on a missing state key is the \<open>Inl\<close> of
  the first line; no caller reaches it.
\<close>

definition fold_state :: "'t db \<Rightarrow> stored_event \<Rightarrow> store_error + 't db" where
  "fold_state db ev =
     (case ev_state_key ev of
        None \<Rightarrow> Inl (Db ''panic: fold_state called on a non-state event'')
      | Some key \<Rightarrow>
          (let k = (ev_room_id ev, ev_event_type ev, key);
               new = \<lparr> s_room_id = ev_room_id ev, s_type = ev_event_type ev, s_state_key = key,
                       s_event_id = ev_event_id ev, s_depth = ev_depth ev \<rparr>
           in case find_row state_key_of k (room_state db) of
                None \<Rightarrow>
                  (if \<not> has_event db (ev_event_id ev) then Inl fk_error
                   else Inr (db\<lparr>room_state := room_state db @ [new]\<rparr>))
              | Some s \<Rightarrow>
                  (if \<not> s_depth s \<le> ev_depth ev then Inr db
                   else if \<not> has_event db (ev_event_id ev) then Inl fk_error
                   else Inr (db\<lparr>room_state :=
                          upd_rows (\<lambda>s. state_key_of s = k)
                            (\<lambda>s. s\<lparr>s_event_id := ev_event_id ev, s_depth := ev_depth ev\<rparr>)
                            (room_state db)\<rparr>))))"

fun apply_loop :: "'t codec \<Rightarrow> 't db \<Rightarrow> stored_event list \<Rightarrow> nat \<Rightarrow> store_error + 't db \<times> nat" where
  "apply_loop cx db [] inserted = Inr (db, inserted)"
| "apply_loop cx db (ev # evs) inserted =
     (let (db1, n) = insert_event cx db ev
      in if ev_state_key ev \<noteq> None
         then then_ok (fold_state db1 ev) (\<lambda>db2. apply_loop cx db2 evs (inserted + n))
         else apply_loop cx db1 evs (inserted + n))"

definition apply_events :: "'t codec \<Rightarrow> 't db \<Rightarrow> json list \<Rightarrow> store_error + 't db \<times> nat" where
  "apply_events cx db evs =
     then_ok (collect_res from_wire evs) (\<lambda>parsed. apply_loop cx db parsed 0)"

section \<open>Reads\<close>

definition parse_stored_payload ::
  "'t codec \<Rightarrow> 't \<Rightarrow> int \<Rightarrow> string option \<Rightarrow> int \<Rightarrow> store_error + stored_event" where
  "parse_stored_payload cx payload local decrypted dstate =
     then_ok (map_err (\<lambda>e. MalformedEvent (''corrupt stored event payload: '' @ e)) (dec cx payload)) (\<lambda>v.
     then_ok (from_wire v) (\<lambda>ev.
     Inr (ev\<lparr>ev_send_state := send_state_from_local local, ev_decrypted := decrypted,
              ev_decrypt_failed := (dstate = DECRYPT_FAILED)\<rparr>)))"

definition parse_row :: "'t codec \<Rightarrow> 't event_row \<Rightarrow> store_error + stored_event" where
  "parse_row cx r =
     parse_stored_payload cx (r_payload r) (r_local r) (r_decrypted r) (r_decrypt_state r)"

definition in_timeline :: "string \<Rightarrow> int option \<Rightarrow> 't event_row \<Rightarrow> bool" where
  "in_timeline room before r \<longleftrightarrow>
     r_room_id r = room \<and> (case before of None \<Rightarrow> True | Some d \<Rightarrow> r_depth r < d) \<and>
     r_type r \<noteq> ''p.mls.commit''"

text \<open>The rows the query of \<open>timeline\<close> yields: newest first, at most \<open>limit\<close>.\<close>

definition timeline_rows :: "'t db \<Rightarrow> string \<Rightarrow> nat \<Rightarrow> int option \<Rightarrow> 't event_row list" where
  "timeline_rows db room limit before =
     take limit (rev (sort_key row_pos (filter (in_timeline room before) (events db))))"

definition timeline ::
  "'t codec \<Rightarrow> 't db \<Rightarrow> string \<Rightarrow> nat \<Rightarrow> int option \<Rightarrow> store_error + stored_event list" where
  "timeline cx db room limit before =
     then_ok (collect_res (parse_row cx) (timeline_rows db room limit before)) (\<lambda>evs. Inr (rev evs))"

text \<open>Reading a column as \<open>Option<String>\<close>.\<close>

fun get_opt_text :: "sqlval \<Rightarrow> store_error + string option" where
  "get_opt_text SNull = Inr None"
| "get_opt_text (SText s) = Inr (Some s)"
| "get_opt_text _ = Inl (Db ''Invalid column type'')"

definition find_state :: "'t db \<Rightarrow> string \<Rightarrow> string \<Rightarrow> string \<Rightarrow> 't event_row option" where
  "find_state db room ty key =
     (case find_row state_key_of (room, ty, key) (room_state db) of
        None \<Rightarrow> None
      | Some s \<Rightarrow> find_row r_event_id (s_event_id s) (events db))"

text \<open>The scalar subquery of \<open>list_rooms\<close> for \<open>name\<close> and \<open>topic\<close>: NULL when there is no such state.\<close>

definition state_content_field ::
  "'t codec \<Rightarrow> 't db \<Rightarrow> string \<Rightarrow> string \<Rightarrow> string \<Rightarrow> store_error + sqlval" where
  "state_content_field cx db room ty field =
     (case find_state db room ty [] of
        None \<Rightarrow> Inr SNull
      | Some r \<Rightarrow> map_err Db (jextract cx (r_payload r) [''content'', field]))"

definition is_room_encrypted :: "'t db \<Rightarrow> string \<Rightarrow> bool" where
  "is_room_encrypted db room =
     (\<exists>s\<in>set (room_state db). s_room_id s = room \<and> s_type s = ''p.room.encryption'')"

definition last_activity :: "'t db \<Rightarrow> string \<Rightarrow> int" where
  "last_activity db room =
     (case map r_ts (filter (\<lambda>r. r_room_id r = room) (events db)) of
        [] \<Rightarrow> 0 | ts # tss \<Rightarrow> foldr max tss ts)"

definition summarise_room :: "'t codec \<Rightarrow> 't db \<Rightarrow> string \<Rightarrow> store_error + room_summary" where
  "summarise_room cx db room =
     then_ok (state_content_field cx db room ''p.room.name'' ''name'') (\<lambda>n.
     then_ok (state_content_field cx db room ''p.room.topic'' ''topic'') (\<lambda>t.
     then_ok (get_opt_text n) (\<lambda>name.
     then_ok (get_opt_text t) (\<lambda>topic.
     Inr \<lparr> rs_room_id = room, rs_name = name, rs_topic = topic,
           rs_encrypted = is_room_encrypted db room,
           rs_last_activity_ts = last_activity db room \<rparr>))))"

definition list_rooms :: "'t codec \<Rightarrow> 't db \<Rightarrow> store_error + room_summary list" where
  "list_rooms cx db =
     collect_res (summarise_room cx db)
       (sort_key (\<lambda>room. (- last_activity db room, room))
          (remdups (map s_room_id (room_state db))))"

definition current_state ::
  "'t codec \<Rightarrow> 't db \<Rightarrow> string \<Rightarrow> string \<Rightarrow> string \<Rightarrow> store_error + stored_event option" where
  "current_state cx db room ty key =
     (case find_state db room ty key of
        None \<Rightarrow> Inr None
      | Some r \<Rightarrow> then_ok (parse_stored_payload cx (r_payload r) 0 None 0) (\<lambda>ev. Inr (Some ev)))"

definition membership ::
  "'t codec \<Rightarrow> 't db \<Rightarrow> string \<Rightarrow> string \<Rightarrow> store_error + membership_state option" where
  "membership cx db room user =
     then_ok (current_state cx db room ''p.room.member'' user) (\<lambda>m.
       Inr (case m of None \<Rightarrow> None
            | Some ev \<Rightarrow>
                (case jget (ev_content ev) ''membership'' of None \<Rightarrow> None
                 | Some v \<Rightarrow> map_option membership_from_wire (as_str v))))"

section \<open>Outbound send queue and local echo\<close>

text \<open>
  The ids of a send, from the counter value \<open>n\<close> that \<open>fetch_add\<close> returned and the clock reading
  \<open>ts\<close>.  \<open>now_millis\<close> is a clock reading, an argument of the operations that take one.
\<close>

definition next_send_ids :: "64 word \<Rightarrow> int \<Rightarrow> string \<times> string" where
  "next_send_ids n ts =
     (''m'' @ int_dec ts @ ''-'' @ nat_dec (unat n),
      ''$local-'' @ int_dec ts @ ''-'' @ nat_dec (unat n))"

text \<open>
  \<open>COALESCE(MAX(depth), 0) + 1\<close> over the room.  SQLite's integer addition turns into a real beyond
  64 bits, which the read as \<open>i64\<close> refuses.
\<close>

definition max_depth :: "'t db \<Rightarrow> string \<Rightarrow> int" where
  "max_depth db room =
     (case map r_depth (filter (\<lambda>r. r_room_id r = room) (events db)) of
        [] \<Rightarrow> 0 | d # ds \<Rightarrow> foldr max ds d)"

definition echo_depth :: "'t db \<Rightarrow> string \<Rightarrow> store_error + int" where
  "echo_depth db room =
     (if max_depth db room + 1 \<le> i64_max then Inr (max_depth db room + 1)
      else Inl (Db ''Invalid column type Real''))"

definition echo_payload :: "string \<Rightarrow> string \<Rightarrow> string \<Rightarrow> int \<Rightarrow> int \<Rightarrow> string \<Rightarrow> json" where
  "echo_payload event_id room sender ts depth body =
     JObj [(''event_id'', JStr event_id), (''room_id'', JStr room), (''sender'', JStr sender),
           (''type'', JStr ''p.room.message''), (''origin_server_ts'', json_i64 ts),
           (''depth'', json_i64 depth),
           (''content'', JObj [(''body'', JStr body), (''msgtype'', JStr ''p.text'')])]"

definition queue_send ::
  "'t codec \<Rightarrow> 't db \<Rightarrow> 64 word \<Rightarrow> int \<Rightarrow> int \<Rightarrow> string \<Rightarrow> string \<Rightarrow> string \<Rightarrow> store_error + 't db \<times> string"
where
  "queue_send cx db n id_ts ts room sender body =
     (let (txn, eid) = next_send_ids n id_ts
      in then_ok (echo_depth db room) (\<lambda>depth.
         if has_event db eid then Inl (Db ''UNIQUE constraint failed: events.event_id'')
         else if has_key p_txn_id txn (pending_sends_tab db)
         then Inl (Db ''UNIQUE constraint failed: pending_sends.txn_id'')
         else Inr (db\<lparr>events := events db @
                  [\<lparr> r_event_id = eid, r_room_id = room, r_sender = sender,
                     r_type = ''p.room.message'', r_state_key = None, r_ts = ts, r_depth = depth,
                     r_payload = enc cx (echo_payload eid room sender ts depth body),
                     r_local = 1, r_decrypted = None, r_decrypt_state = 0 \<rparr>],
                pending_sends_tab := pending_sends_tab db @
                  [\<lparr> p_txn_id = txn, p_room_id = room, p_body = body, p_event_id = eid,
                     p_created_ts = ts \<rparr>]\<rparr>, txn)))"

definition send_of_row :: "pending_row \<Rightarrow> pending_send" where
  "send_of_row p = \<lparr> ps_txn_id = p_txn_id p, ps_room_id = p_room_id p, ps_body = p_body p \<rparr>"

definition pending_sends :: "'t db \<Rightarrow> pending_send list" where
  "pending_sends db =
     map send_of_row (sort_key (\<lambda>p. (p_created_ts p, p_txn_id p)) (pending_sends_tab db))"

definition has_pending_send :: "'t db \<Rightarrow> string \<Rightarrow> bool" where
  "has_pending_send db room = (\<exists>p\<in>set (pending_sends_tab db). p_room_id p = room)"

text \<open>\<open>DELETE FROM events\<close> and a change of \<open>event_id\<close> are refused while current state refers to the row.\<close>

definition state_refers :: "'t db \<Rightarrow> string \<Rightarrow> bool" where
  "state_refers db eid = (\<exists>s\<in>set (room_state db). s_event_id s = eid)"

definition delete_event :: "'t db \<Rightarrow> string \<Rightarrow> store_error + 't db" where
  "delete_event db eid =
     (if has_event db eid \<and> state_refers db eid then Inl fk_error
      else Inr (db\<lparr>events := filter (\<lambda>r. r_event_id r \<noteq> eid) (events db)\<rparr>))"

definition promote_echo ::
  "'t codec \<Rightarrow> 't db \<Rightarrow> string \<Rightarrow> string \<Rightarrow> store_error + 't db" where
  "promote_echo cx db provisional real =
     (case find_row r_event_id provisional (events db) of
        None \<Rightarrow> Inr db
      | Some r \<Rightarrow>
          then_ok (map_err Db (jset cx (r_payload r) ''event_id'' real)) (\<lambda>pl.
          if state_refers db provisional then Inl fk_error
          else Inr (db\<lparr>events :=
                 upd_rows (\<lambda>r. r_event_id r = provisional)
                   (\<lambda>r. r\<lparr>r_event_id := real, r_local := 0, r_payload := pl\<rparr>) (events db)\<rparr>)))"

definition keep_plaintext :: "'t db \<Rightarrow> string \<Rightarrow> string \<Rightarrow> 't db" where
  "keep_plaintext db real body =
     db\<lparr>events := upd_rows (\<lambda>r. r_event_id r = real \<and> r_type r = ''p.room.encrypted'')
         (\<lambda>r. r\<lparr>r_decrypted := Some body, r_decrypt_state := DECRYPT_OK\<rparr>) (events db)\<rparr>"

definition dequeue :: "'t db \<Rightarrow> string \<Rightarrow> 't db" where
  "dequeue db txn =
     db\<lparr>pending_sends_tab := filter (\<lambda>p. p_txn_id p \<noteq> txn) (pending_sends_tab db)\<rparr>"

definition resolve_send :: "'t codec \<Rightarrow> 't db \<Rightarrow> string \<Rightarrow> string \<Rightarrow> store_error + 't db" where
  "resolve_send cx db txn real =
     then_ok
       (case find_row p_txn_id txn (pending_sends_tab db) of
          None \<Rightarrow> Inr db
        | Some p \<Rightarrow>
            (if has_event db real
             then delete_event (keep_plaintext db real (p_body p)) (p_event_id p)
             else promote_echo cx db (p_event_id p) real))
       (\<lambda>db'. Inr (dequeue db' txn))"

definition fail_send :: "'t db \<Rightarrow> string \<Rightarrow> 't db" where
  "fail_send db txn =
     dequeue
       (case find_row p_txn_id txn (pending_sends_tab db) of
          None \<Rightarrow> db
        | Some p \<Rightarrow> db\<lparr>events :=
            upd_rows (\<lambda>r. r_event_id r = p_event_id p) (\<lambda>r. r\<lparr>r_local := 2\<rparr>) (events db)\<rparr>)
       txn"

section \<open>Encrypted messages\<close>

definition awaits_mls :: "'t event_row \<Rightarrow> bool" where
  "awaits_mls r \<longleftrightarrow>
     (r_type r = ''p.room.encrypted'' \<or> r_type r = ''p.mls.commit'') \<and> r_decrypt_state r = 0"

definition mls_item ::
  "'t event_row \<Rightarrow> string option \<Rightarrow> string option \<Rightarrow> pending_mls_item option" where
  "mls_item r ciphertext commit =
     (if r_type r = ''p.room.encrypted'' then
        map_option (\<lambda>c. MlsMessage \<lparr> pd_event_id = r_event_id r, pd_room_id = r_room_id r,
            pd_sender = r_sender r, pd_ciphertext_b64 = c \<rparr>) ciphertext
      else if r_type r = ''p.mls.commit'' then
        map_option (\<lambda>c. MlsCommit \<lparr> pc_event_id = r_event_id r, pc_room_id = r_room_id r,
            pc_sender = r_sender r, pc_commit_b64 = c \<rparr>) commit
      else None)"

definition read_mls_row :: "'t codec \<Rightarrow> 't event_row \<Rightarrow> store_error + pending_mls_item option" where
  "read_mls_row cx r =
     then_ok (map_err Db (jextract cx (r_payload r) [''content'', ''ciphertext''])) (\<lambda>ct.
     then_ok (map_err Db (jextract cx (r_payload r) [''content'', ''commit''])) (\<lambda>cm.
     then_ok (get_opt_text ct) (\<lambda>ciphertext.
     then_ok (get_opt_text cm) (\<lambda>commit.
     Inr (mls_item r ciphertext commit)))))"

definition pending_mls :: "'t codec \<Rightarrow> 't db \<Rightarrow> store_error + pending_mls_item list" where
  "pending_mls cx db =
     then_ok (collect_res (read_mls_row cx) (sort_key row_pos (filter awaits_mls (events db))))
       (\<lambda>items. Inr (List.map_filter id items))"

definition upd_event :: "'t db \<Rightarrow> string \<Rightarrow> ('t event_row \<Rightarrow> 't event_row) \<Rightarrow> 't db" where
  "upd_event db eid f = db\<lparr>events := upd_rows (\<lambda>r. r_event_id r = eid) f (events db)\<rparr>"

definition set_decrypted :: "'t db \<Rightarrow> string \<Rightarrow> string \<Rightarrow> 't db" where
  "set_decrypted db eid plaintext =
     upd_event db eid (\<lambda>r. r\<lparr>r_decrypted := Some plaintext, r_decrypt_state := DECRYPT_OK\<rparr>)"

definition set_decrypt_failed :: "'t db \<Rightarrow> string \<Rightarrow> 't db" where
  "set_decrypt_failed db eid = upd_event db eid (\<lambda>r. r\<lparr>r_decrypt_state := DECRYPT_FAILED\<rparr>)"

definition set_commit_processed :: "'t db \<Rightarrow> string \<Rightarrow> 't db" where
  "set_commit_processed db eid = upd_event db eid (\<lambda>r. r\<lparr>r_decrypt_state := DECRYPT_OK\<rparr>)"

end
