(* ===== verification/Client.thy ===== *)
theory Client
  imports Keys E2ee Store
begin

text \<open>
  The logged-in client of \<open>core/src/session.rs\<close> and the world it acts on: the network, the vault
  (MLS device and key store), the stores, the host's log sink, the clock and the two process-wide
  counters that the ids of sends are drawn from.  \<open>PigeonClient\<close> itself is immutable; its engine is
  the vault's device (\<open>None\<close> when E2EE is unavailable), its store a reference into the world's stores.
  A method runs without interleaving with others.
\<close>

section \<open>The world\<close>

text \<open>A store is a file, or one of the in-memory stores opened so far.\<close>

datatype store_ref = StoreFile string | InMemory nat

text \<open>The calls made to the host's \<open>SyncObserver\<close>, and the seconds slept between sync cycles.\<close>

datatype observer_call = OnChange | OnStatus bool

record ('w, 'd, 'k, 't) world =
  wd_net :: "'w net"
  wd_vault :: "('d, 'k) vault"
  wd_stores :: "store_ref \<Rightarrow> 't db"
  wd_memory_stores :: nat
  wd_sink :: "log_record list option"
  wd_ticks :: nat
  wd_send_counter :: "64 word"
  wd_txn_counter :: "64 word"
  wd_observer :: "observer_call list"
  wd_sleeps :: "nat list"

text \<open>
  What the code relies on: the server, \<open>Client::builder\<close>, the content hash, the text form of stored
  payloads, the cryptography, the clock (its n-th reading in milliseconds), opening a SQLite file and
  the host's data directory.
\<close>

record ('w, 'd, 'g, 'k, 't) client_env =
  ce_server :: "'w server"
  ce_http :: "string + unit"
  ce_hash :: hash_fun
  ce_codec :: "'t codec"
  ce_crypto :: "('d, 'g, 'k) crypto_env"
  ce_clock :: "nat \<Rightarrow> int"
  ce_open :: "string \<Rightarrow> string + unit"
  ce_store_dir :: "string option"

type_synonym ('w, 'd, 'k, 't, 'a) client_act = "(('w, 'd, 'k, 't) world, core_error, 'a) act"

record session =
  ss_user_id :: string
  ss_device_id :: string
  ss_server :: string

record pigeon_client =
  cl_api :: api
  cl_session :: session
  cl_store :: store_ref

section \<open>Acting on a part of the world\<close>

definition on_net :: "('w, 'a) api_act \<Rightarrow> (('w, 'd, 'k, 't) world, api_error, 'a) act" where
  "on_net m = (\<lambda>w. case m (wd_net w) of (r, n) \<Rightarrow> (r, w\<lparr>wd_net := n\<rparr>))"

definition on_core_net ::
  "('w net, core_error, 'a) act \<Rightarrow> ('w, 'd, 'k, 't, 'a) client_act" where
  "on_core_net m = (\<lambda>w. case m (wd_net w) of (r, n) \<Rightarrow> (r, w\<lparr>wd_net := n\<rparr>))"

definition call_api :: "('w, 'a) api_act \<Rightarrow> ('w, 'd, 'k, 't, 'a) client_act" where
  "call_api m = map_errA core_of_api (on_net m)"

definition on_vault :: "('d, 'k, 'a) vault_act \<Rightarrow> ('w, 'd, 'k, 't, 'a) client_act" where
  "on_vault m = (\<lambda>w. case m (wd_vault w) of (r, v) \<Rightarrow> (r, w\<lparr>wd_vault := v\<rparr>))"

definition store_read ::
  "pigeon_client \<Rightarrow> ('t db \<Rightarrow> store_error + 'a) \<Rightarrow> ('w, 'd, 'k, 't, 'a) client_act" where
  "store_read cl f = (\<lambda>w. (map_err core_of_store (f (wd_stores w (cl_store cl))), w))"

text \<open>A failed write leaves the store as it was: its transaction rolls back.\<close>

definition store_write ::
  "pigeon_client \<Rightarrow> ('t db \<Rightarrow> store_error + 't db \<times> 'a) \<Rightarrow> ('w, 'd, 'k, 't, 'a) client_act" where
  "store_write cl f = (\<lambda>w.
     (case f (wd_stores w (cl_store cl)) of
        Inl e \<Rightarrow> (Inl (core_of_store e), w)
      | Inr (db', a) \<Rightarrow> (Inr a, w\<lparr>wd_stores := (wd_stores w)(cl_store cl := db')\<rparr>)))"

definition store_update ::
  "pigeon_client \<Rightarrow> ('t db \<Rightarrow> 't db) \<Rightarrow> ('w, 'd, 'k, 't, unit) client_act" where
  "store_update cl f = store_write cl (\<lambda>db. Inr (f db, ()))"

definition log_emit :: "log_level \<Rightarrow> string \<Rightarrow> string \<Rightarrow> (('w, 'd, 'k, 't) world, 'e, unit) act" where
  "log_emit lvl target msg = modA (\<lambda>w. w\<lparr>wd_sink := emit lvl target msg (wd_sink w)\<rparr>)"

definition tick :: "('w, 'd, 'g, 'k, 't) client_env \<Rightarrow> ('w, 'd, 'k, 't, int) client_act" where
  "tick env = (\<lambda>w. (Inr (ce_clock env (wd_ticks w)), w\<lparr>wd_ticks := Suc (wd_ticks w)\<rparr>))"

text \<open>
  A clock reading is milliseconds since the epoch, negative before it; \<open>as i64\<close> keeps 64 bits.
\<close>

definition now_millis :: "int \<Rightarrow> int" where
  "now_millis reading = (if reading < 0 then 0 else sint (word_of_int reading :: 64 word))"

definition has_engine :: "(('w, 'd, 'k, 't) world, 'e, bool) act" where
  "has_engine = (\<lambda>w. (Inr (vt_device (wd_vault w) \<noteq> None), w))"

section \<open>The session blob\<close>

definition SESSION_KEY :: string where "SESSION_KEY = ''pigeon.session.v1''"
definition BACKUP_ROOM :: string where "BACKUP_ROOM = ''!e2ee-backup''"
definition BACKUP_SESSION :: string where "BACKUP_SESSION = ''mls-device-state''"
definition STORE_FILE :: string where "STORE_FILE = ''pigeon.sqlite3''"

definition encode_session :: "json_text \<Rightarrow> session \<Rightarrow> string \<Rightarrow> bytes" where
  "encode_session jt s token =
     str_bytes (jprint jt
       (JObj [(''user_id'', JStr (ss_user_id s)), (''device_id'', JStr (ss_device_id s)),
              (''server'', JStr (ss_server s)), (''access_token'', JStr token)]))"

definition decode_session :: "json_text \<Rightarrow> bytes \<Rightarrow> core_error + session \<times> string" where
  "decode_session jt bs =
     then_ok (map_err (\<lambda>e. Storage (''corrupt stored session: '' @ e)) (jparse jt bs)) (\<lambda>value.
       (let field = (\<lambda>key. ok_or (Storage (''stored session missing `'' @ key @ ''`''))
                       (as_str (jindex value key)))
        in then_ok (field ''user_id'') (\<lambda>u.
           then_ok (field ''device_id'') (\<lambda>d.
           then_ok (field ''server'') (\<lambda>s.
           then_ok (field ''access_token'') (\<lambda>t.
           Inr (\<lparr> ss_user_id = u, ss_device_id = d, ss_server = s \<rparr>, t)))))))"

section \<open>Opening the store\<close>

text \<open>\<open>dir.join(file)\<close>.\<close>

definition path_join :: "string \<Rightarrow> string \<Rightarrow> string" where
  "path_join dir file = (if dir = [] \<or> last dir = CHR ''/'' then dir @ file else dir @ ''/'' @ file)"

definition open_store :: "('w, 'd, 'g, 'k, 't) client_env \<Rightarrow> ('w, 'd, 'k, 't, store_ref) client_act" where
  "open_store env =
     (case ce_store_dir env of
        Some dir \<Rightarrow>
          bnd (lift_res (map_err (\<lambda>e. core_of_store (Db e)) (ce_open env (path_join dir STORE_FILE))))
            (\<lambda>_. ret (StoreFile (path_join dir STORE_FILE)))
      | None \<Rightarrow>
          bnd (log_emit LWarn ''session''
                 ''no store dir set; using in-memory store (data will not survive restart)'')
            (\<lambda>_. (\<lambda>w. (Inr (InMemory (wd_memory_stores w)),
                       w\<lparr>wd_stores := (wd_stores w)(InMemory (wd_memory_stores w) := empty_db),
                         wd_memory_stores := Suc (wd_memory_stores w)\<rparr>))))"

section \<open>Publishing keys\<close>

definition publish_device_keys ::
  "('w, 'd, 'g, 'k, 't) client_env \<Rightarrow> pigeon_client \<Rightarrow> (('w, 'd, 'k, 't) world, core_error, unit) act" where
  "publish_device_keys env cl =
     bnd has_engine (\<lambda>engine.
     if \<not> engine then ret ()
     else
       catch (on_vault (key_packages (ce_crypto env) KEY_PACKAGE_COUNT)) (\<lambda>kr.
       (case kr of
          Inl err \<Rightarrow> log_emit LWarn ''e2ee'' (''could not generate KeyPackages: '' @ show_core_error err)
        | Inr kps \<Rightarrow>
            bnd (catch (on_vault (last_resort_key_package (ce_crypto env))) (\<lambda>lr.
                  (case lr of
                     Inr p \<Rightarrow> ret (Some p)
                   | Inl err \<Rightarrow>
                       bnd (log_emit LWarn ''e2ee''
                              (''could not generate the last-resort KeyPackage: '' @ show_core_error err))
                         (\<lambda>_. ret None)))) (\<lambda>last_resort.
            bnd (on_vault (signature_public_key_b64 (ce_crypto env))) (\<lambda>pubkey.
            catch (on_net (upload_keys (ce_server env) (ce_hash env) (cl_api cl)
                     (ss_device_id (cl_session cl)) pubkey kps last_resort)) (\<lambda>ur.
            (case ur of
               Inr n \<Rightarrow> log_emit LInfo ''e2ee''
                 (''published device keys ('' @ nat_dec (unat n) @ '' KeyPackages available)'')
             | Inl err \<Rightarrow> log_emit LWarn ''e2ee''
                 (''device key upload failed (E2EE limited until next login): '' @ show_api_error err))))))))"

end
