(* ===== verification/Session.thy ===== *)
theory Session
  imports Client
begin

text \<open>
  The session lifecycle of \<open>core/src/session.rs\<close>: register and login, restoring a session on launch,
  logout, and the encrypted key backup.
\<close>

section \<open>Login\<close>

text \<open>The engine of a new session: minted, with the failure logged and E2EE left unavailable.\<close>

definition create_engine ::
  "('w, 'd, 'g, 'k, 't) client_env \<Rightarrow> string \<Rightarrow> ('w, 'd, 'k, 't, 'd option) client_act" where
  "create_engine env user_id =
     catch (on_vault (e2ee_create (ce_crypto env) user_id)) (\<lambda>r.
       (case r of
          Inr d \<Rightarrow> ret (Some d)
        | Inl err \<Rightarrow>
            bnd (log_emit LWarn ''e2ee''
                   (''could not create MLS identity; E2EE disabled this session: '' @ show_core_error err))
              (\<lambda>_. ret None)))"

definition finish_login ::
  "('w, 'd, 'g, 'k, 't) client_env \<Rightarrow> string \<Rightarrow> api \<Rightarrow> auth_response \<Rightarrow>
   ('w, 'd, 'k, 't, pigeon_client) client_act" where
  "finish_login env server a auth =
     (let s = \<lparr> ss_user_id = ar_user_id auth, ss_device_id = ar_device_id auth, ss_server = server \<rparr>
      in bnd (on_vault (ks_put (ce_crypto env) SESSION_KEY
                (encode_session (env_json (ce_crypto env)) s (ar_access_token auth)))) (\<lambda>stored.
         bnd (if stored then ret ()
              else log_emit LWarn ''session''
                     ''no key store installed; session will not survive restart'') (\<lambda>_.
         bnd (open_store env) (\<lambda>store.
         bnd (create_engine env (ss_user_id s)) (\<lambda>engine.
         bnd (on_vault (install_engine engine)) (\<lambda>_.
         ret \<lparr> cl_api = set_token a (Some (ar_access_token auth)), cl_session = s, cl_store = store \<rparr>))))))"

definition client_register ::
  "('w, 'd, 'g, 'k, 't) client_env \<Rightarrow> string \<Rightarrow> string \<Rightarrow> string \<Rightarrow>
   ('w, 'd, 'k, 't, pigeon_client) client_act" where
  "client_register env server username password =
     bnd (lift_res (map_err core_of_api (api_new (ce_http env) server None))) (\<lambda>a.
     bnd (call_api (register (ce_server env) a username password)) (\<lambda>auth.
     bnd (finish_login env server a auth) (\<lambda>client.
     bnd (publish_device_keys env client) (\<lambda>_.
     ret client))))"

definition client_login ::
  "('w, 'd, 'g, 'k, 't) client_env \<Rightarrow> string \<Rightarrow> string \<Rightarrow> string \<Rightarrow>
   ('w, 'd, 'k, 't, pigeon_client) client_act" where
  "client_login env server user password =
     bnd (lift_res (map_err core_of_api (api_new (ce_http env) server None))) (\<lambda>a.
     bnd (call_api (login (ce_server env) a user password)) (\<lambda>auth.
     bnd (finish_login env server a auth) (\<lambda>client.
     bnd (publish_device_keys env client) (\<lambda>_.
     ret client))))"

section \<open>Restoring a session\<close>

definition mint_e2ee ::
  "('w, 'd, 'g, 'k, 't) client_env \<Rightarrow> string \<Rightarrow> ('w, 'd, 'k, 't, 'd option \<times> bool) client_act" where
  "mint_e2ee env user_id =
     bnd (create_engine env user_id) (\<lambda>engine. ret (engine, engine \<noteq> None))"

definition restore_or_mint_e2ee ::
  "('w, 'd, 'g, 'k, 't) client_env \<Rightarrow> string \<Rightarrow> ('w, 'd, 'k, 't, 'd option \<times> bool) client_act" where
  "restore_or_mint_e2ee env user_id =
     catch (on_vault (e2ee_restore (ce_crypto env) user_id)) (\<lambda>r.
       (case r of
          Inr (Some d) \<Rightarrow> ret (Some d, False)
        | Inr None \<Rightarrow> mint_e2ee env user_id
        | Inl err \<Rightarrow>
            bnd (log_emit LWarn ''e2ee''
                   (''stored MLS state unusable; minting a fresh identity: '' @ show_core_error err))
              (\<lambda>_. mint_e2ee env user_id)))"

text \<open>The client of a stored session: engine, then store; and whether the identity is new.\<close>

definition restored_client ::
  "('w, 'd, 'g, 'k, 't) client_env \<Rightarrow> api \<Rightarrow> session \<Rightarrow>
   ('w, 'd, 'k, 't, pigeon_client \<times> bool) client_act" where
  "restored_client env a s =
     bnd (restore_or_mint_e2ee env (ss_user_id s)) (\<lambda>(engine, minted).
     bnd (open_store env) (\<lambda>store.
     bnd (on_vault (install_engine engine)) (\<lambda>_.
     ret (\<lparr> cl_api = a, cl_session = s, cl_store = store \<rparr>, minted))))"

definition restore_session ::
  "('w, 'd, 'g, 'k, 't) client_env \<Rightarrow> ('w, 'd, 'k, 't, pigeon_client option) client_act" where
  "restore_session env =
     bnd (on_vault (ks_get (ce_crypto env) SESSION_KEY)) (\<lambda>b.
     (case b of
        None \<Rightarrow> ret None
      | Some bs \<Rightarrow>
          bnd (lift_res (decode_session (env_json (ce_crypto env)) bs)) (\<lambda>(s, token).
          bnd (lift_res (map_err core_of_api (api_new (ce_http env) (ss_server s) (Some token)))) (\<lambda>a.
          catch (on_net (whoami (ce_server env) a)) (\<lambda>r.
          (case r of
             Inr _ \<Rightarrow>
               bnd (restored_client env a s) (\<lambda>(client, minted).
               bnd (if minted then publish_device_keys env client else ret ()) (\<lambda>_.
               ret (Some client)))
           | Inl (ServerErr st code m) \<Rightarrow>
               (if code = UnknownToken \<or> code = MissingToken
                then bnd (on_vault (ks_delete (ce_crypto env) SESSION_KEY)) (\<lambda>_. ret None)
                else raise (core_of_api (ServerErr st code m)))
           | Inl (NetworkErr e) \<Rightarrow>
               bnd (log_emit LInfo ''session'' ''restored session without server validation (offline)'') (\<lambda>_.
               bnd (restored_client env a s) (\<lambda>(client, _).
               ret (Some client)))
           | Inl other \<Rightarrow> raise (core_of_api other)))))))"

section \<open>Logout\<close>

definition client_logout ::
  "('w, 'd, 'g, 'k, 't) client_env \<Rightarrow> pigeon_client \<Rightarrow> ('w, 'd, 'k, 't, unit) client_act" where
  "client_logout env cl =
     bnd (catch (on_net (logout (ce_server env) (cl_api cl))) (\<lambda>r.
            (case r of
               Inr _ \<Rightarrow> ret ()
             | Inl err \<Rightarrow> log_emit LInfo ''session''
                 (''server logout failed; clearing local session anyway: '' @ show_api_error err)))) (\<lambda>_.
     bnd (on_vault (ks_delete (ce_crypto env) SESSION_KEY)) (\<lambda>_.
     bnd (on_vault (e2ee_clear (ce_crypto env))) (\<lambda>_.
     ret ())))"

section \<open>Key backup\<close>

definition backup ::
  "('w, 'd, 'g, 'k, 't) client_env \<Rightarrow> pigeon_client \<Rightarrow> ('w, 'd, 'k, 't, string) client_act" where
  "backup env cl =
     bnd (on_vault (bnd the_device (\<lambda>_. create_backup (ce_crypto env)))) (\<lambda>(recovery_key, blob).
     bnd (call_api (put_room_key (ce_server env) (cl_api cl) BACKUP_ROOM BACKUP_SESSION blob)) (\<lambda>_.
     ret recovery_key))"

definition restore_backup ::
  "('w, 'd, 'g, 'k, 't) client_env \<Rightarrow> pigeon_client \<Rightarrow> string \<Rightarrow> ('w, 'd, 'k, 't, unit) client_act" where
  "restore_backup env cl recovery_key =
     bnd (call_api (get_room_key (ce_server env) (cl_api cl) BACKUP_ROOM BACKUP_SESSION)) (\<lambda>b.
     (case b of
        None \<Rightarrow> raise (Crypto ''no encryption-key backup found on the server'')
      | Some blob \<Rightarrow>
          bnd (on_vault (bnd the_device (\<lambda>_. restore_from_backup (ce_crypto env) recovery_key blob))) (\<lambda>_.
          publish_device_keys env cl)))"

end
