(* ===== verification/Timeline.thy ===== *)
theory Timeline
  imports Store
begin

text \<open>
  What the user interface is handed: the records \<open>Room\<close>, \<open>ImageContent\<close> and \<open>TimelineEvent\<close> of
  \<open>core/src/rooms.rs\<close> and their construction from the store's rows.  Parsing the decrypted text of an
  image message (\<open>serde_json::from_str\<close>) is the parameter \<open>parse\<close>.
\<close>

section \<open>Records of the interface\<close>

record image_content =
  im_uri :: string
  im_mimetype :: string
  im_width :: "32 word"
  im_height :: "32 word"
  im_size :: "64 word"
  im_key :: "string option"

record room =
  ro_room_id :: string
  ro_name :: "string option"
  ro_topic :: "string option"
  ro_encrypted :: bool
  ro_last_activity_ts :: int

definition room_from :: "room_summary \<Rightarrow> room" where
  "room_from r = \<lparr> ro_room_id = rs_room_id r, ro_name = rs_name r, ro_topic = rs_topic r,
     ro_encrypted = rs_encrypted r, ro_last_activity_ts = rs_last_activity_ts r \<rparr>"

record timeline_event =
  te_event_id :: string
  te_sender :: string
  te_origin_server_ts :: int
  te_cursor :: int
  te_body :: "string option"
  te_system_text :: "string option"
  te_pending :: bool
  te_failed :: bool
  te_image :: "image_content option"

section \<open>Images\<close>

definition get_str :: "json \<Rightarrow> string \<Rightarrow> string option" where
  "get_str v k = Option.bind (jget v k) as_str"

definition meta_field :: "json option \<Rightarrow> json \<Rightarrow> string \<Rightarrow> json option" where
  "meta_field info holder k =
     (case Option.bind info (\<lambda>i. jget i k) of Some v \<Rightarrow> Some v | None \<Rightarrow> jget holder k)"

definition meta_u64 :: "json option \<Rightarrow> json \<Rightarrow> string \<Rightarrow> 64 word" where
  "meta_u64 info holder k =
     (case Option.bind (meta_field info holder k) as_u64 of Some n \<Rightarrow> n | None \<Rightarrow> 0)"

definition parse_image :: "json \<Rightarrow> image_content option" where
  "parse_image content =
     (let file = (case jget content ''file'' of Some f \<Rightarrow> (if is_object f then Some f else None) | None \<Rightarrow> None);
          holder = (case file of Some f \<Rightarrow> f | None \<Rightarrow> content);
          key = (case file of Some f \<Rightarrow> get_str f ''key'' | None \<Rightarrow> None);
          info = jget content ''info''
      in case get_str holder ''url'' of
           None \<Rightarrow> None
         | Some uri \<Rightarrow> Some \<lparr> im_uri = uri,
             im_mimetype = (case Option.bind (meta_field info holder ''mimetype'') as_str of
                              Some m \<Rightarrow> m | None \<Rightarrow> ''application/octet-stream''),
             im_width = ucast (meta_u64 info holder ''w''),
             im_height = ucast (meta_u64 info holder ''h''),
             im_size = meta_u64 info holder ''size'', im_key = key \<rparr>)"

section \<open>System lines\<close>

text \<open>The UTF-8 bytes of the quotation marks U+201C and U+201D and of the warning sign U+26A0.\<close>

definition utf8 :: "nat list \<Rightarrow> string" where
  "utf8 bs = map char_of bs"

definition ldquo :: string where "ldquo = utf8 [226, 128, 156]"
definition rdquo :: string where "rdquo = utf8 [226, 128, 157]"
definition warning_sign :: string where "warning_sign = utf8 [226, 154, 160]"

definition member_line :: "string \<Rightarrow> string \<Rightarrow> string \<Rightarrow> string" where
  "member_line sender target mship =
     (if mship = ''join'' then target @ '' joined''
      else if mship = ''leave'' then target @ '' left''
      else if mship = ''invite'' then sender @ '' invited '' @ target
      else if mship = ''ban'' then sender @ '' banned '' @ target
      else if mship = ''knock'' then target @ '' requested to join''
      else target @ '': '' @ mship)"

definition render_system :: "stored_event \<Rightarrow> string option" where
  "render_system ev =
     (let str_field = get_str (ev_content ev); ty = ev_event_type ev
      in if ty = ''p.room.member'' then
           (let m = (case str_field ''membership'' of Some m \<Rightarrow> m | None \<Rightarrow> []);
                target = (case ev_state_key ev of Some k \<Rightarrow> k | None \<Rightarrow> ev_sender ev)
            in Some (member_line (ev_sender ev) target m))
         else if ty = ''p.room.name'' then
           Some (case str_field ''name'' of
                   Some nm \<Rightarrow> ''Room name set to '' @ ldquo @ nm @ rdquo
                 | None \<Rightarrow> ''Room name removed'')
         else if ty = ''p.room.topic'' then Some ''Topic updated''
         else if ty = ''p.room.encryption'' then Some ''Encryption enabled''
         else if ty = ''p.room.create'' then Some ''Room created''
         else None)"

section \<open>Timeline entries\<close>

definition decrypted_image :: "(string \<Rightarrow> string + json) \<Rightarrow> stored_event \<Rightarrow> json option" where
  "decrypted_image parse ev =
     (if ev_event_type ev = ''p.room.encrypted'' then
        (case ev_decrypted ev of None \<Rightarrow> None
         | Some pt \<Rightarrow>
             (case parse pt of Inl _ \<Rightarrow> None
              | Inr v \<Rightarrow> (if get_str v ''msgtype'' = Some ''p.image'' then Some v else None)))
      else None)"

definition event_image :: "(string \<Rightarrow> string + json) \<Rightarrow> stored_event \<Rightarrow> image_content option" where
  "event_image parse ev =
     (if ev_event_type ev = ''p.room.message'' \<and> get_str (ev_content ev) ''msgtype'' = Some ''p.image''
      then parse_image (ev_content ev)
      else Option.bind (decrypted_image parse ev) parse_image)"

definition event_body :: "(string \<Rightarrow> string + json) \<Rightarrow> stored_event \<Rightarrow> string option" where
  "event_body parse ev =
     (if ev_event_type ev = ''p.room.message'' then get_str (ev_content ev) ''body''
      else if ev_event_type ev = ''p.room.encrypted'' then
        (case decrypted_image parse ev of Some v \<Rightarrow> get_str v ''body'' | None \<Rightarrow> ev_decrypted ev)
      else None)"

definition event_system_text :: "(string \<Rightarrow> string + json) \<Rightarrow> stored_event \<Rightarrow> string option" where
  "event_system_text parse ev =
     (if event_body parse ev \<noteq> None then None
      else if ev_event_type ev = ''p.room.encrypted'' then
        (if ev_decrypt_failed ev then Some (warning_sign @ '' Unable to decrypt this message'') else None)
      else render_system ev)"

definition timeline_from :: "(string \<Rightarrow> string + json) \<Rightarrow> stored_event \<Rightarrow> timeline_event" where
  "timeline_from parse ev =
     \<lparr> te_event_id = ev_event_id ev, te_sender = ev_sender ev,
       te_origin_server_ts = ev_origin_server_ts ev, te_cursor = ev_depth ev,
       te_body = event_body parse ev, te_system_text = event_system_text parse ev,
       te_pending = (ev_send_state ev = Sending), te_failed = (ev_send_state ev = Failed),
       te_image = event_image parse ev \<rparr>"

section \<open>What is shown\<close>

definition message_type :: "string \<Rightarrow> bool" where
  "message_type ty \<longleftrightarrow> ty = ''p.room.message'' \<or> ty = ''p.room.encrypted''"

lemma render_system_message: "message_type (ev_event_type ev) \<Longrightarrow> render_system ev = None"
  by (auto simp: message_type_def render_system_def Let_def)

lemma event_body_message: "\<not> message_type (ev_event_type ev) \<Longrightarrow> event_body parse ev = None"
  by (simp add: message_type_def event_body_def)

text \<open>
  A timeline entry never shows both a message body and a system line. Ciphertext that has not
  been decrypted shows neither, and no image, unless decryption failed, which shows the one
  placeholder; what is shown of an encrypted event comes from its decrypted text alone.
\<close>

theorem timeline_entry_display:
  "(te_body (timeline_from parse ev) = None \<or> te_system_text (timeline_from parse ev) = None) \<and>
   (ev_event_type ev = ''p.room.encrypted'' \<longrightarrow>
      timeline_from parse (ev\<lparr>ev_content := c\<rparr>) = timeline_from parse ev \<and>
      (ev_decrypted ev = None \<longrightarrow>
        te_body (timeline_from parse ev) = None \<and> te_image (timeline_from parse ev) = None \<and>
        te_system_text (timeline_from parse ev) =
          (if ev_decrypt_failed ev then Some (warning_sign @ '' Unable to decrypt this message'') else None)))"
proof (intro conjI impI)
  show "te_body (timeline_from parse ev) = None \<or> te_system_text (timeline_from parse ev) = None"
    by (simp add: timeline_from_def event_system_text_def)
next
  assume e: "ev_event_type ev = ''p.room.encrypted''"
  have "decrypted_image parse (ev\<lparr>ev_content := c\<rparr>) = decrypted_image parse ev"
    by (simp add: decrypted_image_def)
  with e have b: "event_body parse (ev\<lparr>ev_content := c\<rparr>) = event_body parse ev"
    by (simp add: event_body_def split: option.split)
  with e \<open>decrypted_image parse _ = _\<close> show "timeline_from parse (ev\<lparr>ev_content := c\<rparr>) = timeline_from parse ev"
    by (simp add: timeline_from_def event_system_text_def event_image_def b)
next
  assume "ev_event_type ev = ''p.room.encrypted''" "ev_decrypted ev = None"
  then show "te_body (timeline_from parse ev) = None" "te_image (timeline_from parse ev) = None"
    "te_system_text (timeline_from parse ev) =
       (if ev_decrypt_failed ev then Some (warning_sign @ '' Unable to decrypt this message'') else None)"
    by (simp_all add: timeline_from_def event_system_text_def event_body_def event_image_def
        decrypted_image_def)
qed

definition undecryptable :: stored_event where
  "undecryptable = \<lparr> ev_event_id = ''$e'', ev_room_id = ''!r'', ev_sender = ''@a'',
     ev_event_type = ''p.room.encrypted'', ev_state_key = None, ev_origin_server_ts = 1, ev_depth = 1,
     ev_content = JNull, ev_payload = JNull, ev_send_state = Confirmed, ev_decrypted = None,
     ev_decrypt_failed = True \<rparr>"

theorem timeline_entry_display_witness:
  "te_system_text (timeline_from (\<lambda>s. Inl s) undecryptable) =
     Some (warning_sign @ '' Unable to decrypt this message'')"
  using timeline_entry_display [of "\<lambda>s. Inl s" undecryptable JNull] by (simp add: undecryptable_def)

definition plain_image_content ::
  "string \<Rightarrow> string \<Rightarrow> string \<Rightarrow> 32 word \<Rightarrow> 32 word \<Rightarrow> 64 word \<Rightarrow> json" where
  "plain_image_content caption uri mimetype width height sz =
     JObj [(''msgtype'', JStr ''p.image''), (''body'', JStr caption), (''url'', JStr uri),
           (''info'', JObj [(''mimetype'', JStr mimetype), (''w'', json_u64 (ucast width)),
              (''h'', json_u64 (ucast height)), (''size'', json_u64 sz)])]"

definition encrypted_image_content ::
  "string \<Rightarrow> string \<Rightarrow> string \<Rightarrow> string \<Rightarrow> 32 word \<Rightarrow> 32 word \<Rightarrow> 64 word \<Rightarrow> json" where
  "encrypted_image_content caption uri key_b64 mimetype width height sz =
     JObj [(''msgtype'', JStr ''p.image''), (''body'', JStr caption),
           (''file'', JObj [(''url'', JStr uri), (''key'', JStr key_b64), (''mimetype'', JStr mimetype),
              (''w'', json_u64 (ucast width)), (''h'', json_u64 (ucast height)), (''size'', json_u64 sz)])]"

text \<open>
  An image round-trips: the content that \<open>send_image\<close> writes, plain or encrypted, is read back
  as the same address, type, size, dimensions and per-file key.
\<close>

theorem image_content_roundtrip:
  "parse_image (plain_image_content caption uri mt w h sz) =
     Some \<lparr> im_uri = uri, im_mimetype = mt, im_width = w, im_height = h, im_size = sz, im_key = None \<rparr> \<and>
   parse_image (encrypted_image_content caption uri key mt w h sz) =
     Some \<lparr> im_uri = uri, im_mimetype = mt, im_width = w, im_height = h, im_size = sz, im_key = Some key \<rparr>"
  by (simp add: parse_image_def plain_image_content_def encrypted_image_content_def get_str_def
      meta_field_def meta_u64_def json_u64_def ucast_down_ucast_id is_down)

end
