(* ===== verification/Media.thy ===== *)
theory Media
  imports Errors
begin

text \<open>
  \<open>core/src/media.rs\<close>: the upload limit and the parsing of \<open>pigeon://{server}/{media_id}\<close> content
  URIs.  The characterisation at the end says exactly which URIs are accepted, and as what.
\<close>

definition MAX_UPLOAD_BYTES :: nat where
  "MAX_UPLOAD_BYTES = 50 * 1024 * 1024"

definition SCHEME :: string where
  "SCHEME = ''pigeon://''"

definition parse_content_uri :: "string \<Rightarrow> core_error + string \<times> string" where
  "parse_content_uri uri =
     (case strip_prefix SCHEME uri of
        None \<Rightarrow> Inl (Protocol (''not a pigeon:// content URI: '' @ uri))
      | Some rest \<Rightarrow>
          (case split_once CHR ''/'' rest of
             None \<Rightarrow> Inl (Protocol (''content URI missing media id: '' @ uri))
           | Some (server, media_id) \<Rightarrow>
               (if server = [] \<or> media_id = [] \<or> CHR ''/'' \<in> set media_id
                then Inl (Protocol (''malformed content URI: '' @ uri))
                else Inr (server, media_id))))"

text \<open>The URI the server's documentation gives for a medium; the inverse of the parser.\<close>

definition content_uri :: "string \<Rightarrow> string \<Rightarrow> string" where
  "content_uri server media_id = SCHEME @ server @ ''/'' @ media_id"

definition valid_media_ref :: "string \<Rightarrow> string \<Rightarrow> bool" where
  "valid_media_ref server media_id \<longleftrightarrow>
     server \<noteq> [] \<and> media_id \<noteq> [] \<and> CHR ''/'' \<notin> set server \<and> CHR ''/'' \<notin> set media_id"

lemma strip_prefix_self [simp]: "strip_prefix p (p @ r) = Some r"
  by simp

lemma parse_content_uri_Inr:
  "parse_content_uri uri = Inr (server, media_id) \<longleftrightarrow>
     uri = content_uri server media_id \<and> valid_media_ref server media_id"
proof
  assume "parse_content_uri uri = Inr (server, media_id)"
  then show "uri = content_uri server media_id \<and> valid_media_ref server media_id"
    by (auto simp: parse_content_uri_def content_uri_def valid_media_ref_def split_once_Some
        split: option.splits if_splits)
next
  assume r: "uri = content_uri server media_id \<and> valid_media_ref server media_id"
  then have "split_once CHR ''/'' (server @ CHR ''/'' # media_id) = Some (server, media_id)"
    by (simp add: split_once_Some valid_media_ref_def)
  with r show "parse_content_uri uri = Inr (server, media_id)"
    by (simp add: parse_content_uri_def content_uri_def valid_media_ref_def)
qed

lemma parse_content_uri_error:
  "parse_content_uri uri = Inl e \<Longrightarrow> \<exists>reason. e = Protocol reason"
  by (auto simp: parse_content_uri_def split: option.splits if_splits)

text \<open>
  A content URI is accepted as (server, media id) exactly when it is
  \<open>pigeon://server/media_id\<close> with both parts non-empty and free of slashes; every other URI is
  rejected, always with a protocol error.
\<close>

theorem parse_content_uri_spec:
  "(parse_content_uri uri = Inr (server, media_id) \<longleftrightarrow>
      uri = content_uri server media_id \<and> valid_media_ref server media_id) \<and>
   ((\<nexists>s m. uri = content_uri s m \<and> valid_media_ref s m) \<longleftrightarrow>
      (\<exists>reason. parse_content_uri uri = Inl (Protocol reason)))"
proof (intro conjI)
  show "parse_content_uri uri = Inr (server, media_id) \<longleftrightarrow>
      uri = content_uri server media_id \<and> valid_media_ref server media_id"
    by (rule parse_content_uri_Inr)
  show "(\<nexists>s m. uri = content_uri s m \<and> valid_media_ref s m) \<longleftrightarrow>
      (\<exists>reason. parse_content_uri uri = Inl (Protocol reason))"
  proof (cases "parse_content_uri uri")
    case (Inl e)
    have "\<not> (uri = content_uri s m \<and> valid_media_ref s m)" for s m
      using Inl parse_content_uri_Inr [of uri s m] by simp
    moreover have "\<exists>reason. parse_content_uri uri = Inl (Protocol reason)"
      using parse_content_uri_error [OF Inl] Inl by simp
    ultimately show ?thesis by blast
  next
    case (Inr sm)
    obtain s m where sm: "sm = (s, m)" by (cases sm)
    have "uri = content_uri s m \<and> valid_media_ref s m"
      using Inr sm by (simp add: parse_content_uri_Inr)
    then show ?thesis using Inr by auto
  qed
qed

end
