(* ===== verification/Rooms.thy ===== *)
theory Rooms
  imports Session Timeline Media
begin

text \<open>
  The client's methods on rooms, \<open>core/src/rooms.rs\<close>: the local reads, creating, joining and
  inviting, media, sending with the local echo and the retry queue, and the pass over inbound MLS
  events.
\<close>

section \<open>Reads\<close>

definition client_list_rooms ::
  "('w, 'd, 'g, 'k, 't) client_env \<Rightarrow> pigeon_client \<Rightarrow> ('w, 'd, 'k, 't, room list) client_act" where
  "client_list_rooms env cl =
     bnd (store_read cl (list_rooms (ce_codec env))) (\<lambda>rooms. ret (map room_from rooms))"

definition parse_text :: "('w, 'd, 'g, 'k, 't) client_env \<Rightarrow> string \<Rightarrow> string + json" where
  "parse_text env s = jparse (env_json (ce_crypto env)) (str_bytes s)"

definition client_timeline ::
  "('w, 'd, 'g, 'k, 't) client_env \<Rightarrow> pigeon_client \<Rightarrow> string \<Rightarrow> 32 word \<Rightarrow> int option \<Rightarrow>
   ('w, 'd, 'k, 't, timeline_event list) client_act" where
  "client_timeline env cl room_id limit before =
     bnd (store_read cl (\<lambda>db. timeline (ce_codec env) db room_id (unat limit) before)) (\<lambda>evs.
       ret (map (timeline_from (parse_text env)) evs))"

section \<open>Transaction ids of one-shot sends\<close>

definition next_txn_id ::
  "('w, 'd, 'g, 'k, 't) client_env \<Rightarrow> ('w, 'd, 'k, 't, string) client_act" where
  "next_txn_id env =
     bnd (tick env) (\<lambda>reading. (\<lambda>w.
       (Inr (''mob-td-'' @ nat_dec (nat reading) @ ''-'' @ nat_dec (unat (wd_txn_counter w))),
        w\<lparr>wd_txn_counter := wd_txn_counter w + 1\<rparr>)))"

section \<open>Creating and joining\<close>

definition client_create_room ::
  "('w, 'd, 'g, 'k, 't) client_env \<Rightarrow> pigeon_client \<Rightarrow> string option \<Rightarrow> string option \<Rightarrow>
   ('w, 'd, 'k, 't, string) client_act" where
  "client_create_room env cl nm topic =
     call_api (create_room (ce_server env) (cl_api cl) nm topic False)"

definition create_encrypted_room ::
  "('w, 'd, 'g, 'k, 't) client_env \<Rightarrow> pigeon_client \<Rightarrow> string option \<Rightarrow> string option \<Rightarrow>
   ('w, 'd, 'k, 't, string) client_act" where
  "create_encrypted_room env cl nm topic =
     bnd has_engine (\<lambda>engine.
     if \<not> engine
     then raise (Crypto ''E2EE is unavailable for this session; cannot create an encrypted room'')
     else
       bnd (call_api (create_room (ce_server env) (cl_api cl) nm topic True)) (\<lambda>room_id.
       bnd (on_vault (create_group (ce_crypto env) room_id)) (\<lambda>_.
       ret room_id)))"

definition client_join_room ::
  "('w, 'd, 'g, 'k, 't) client_env \<Rightarrow> pigeon_client \<Rightarrow> string \<Rightarrow> ('w, 'd, 'k, 't, unit) client_act" where
  "client_join_room env cl room_id =
     bnd (call_api (join_room (ce_server env) (cl_api cl) room_id)) (\<lambda>_. ret ())"

section \<open>Inviting\<close>

definition welcome_device ::
  "('w, 'd, 'g, 'k, 't) client_env \<Rightarrow> pigeon_client \<Rightarrow> string \<Rightarrow> string \<Rightarrow> claimed_key_package \<Rightarrow>
   ('w, 'd, 'k, 't, unit) client_act" where
  "welcome_device env cl room_id user_id kp =
     bnd (on_vault (add_member (ce_crypto env) room_id (ck_key_package_b64 kp))) (\<lambda>outcome.
     bnd (next_txn_id env) (\<lambda>txn.
     bnd (call_api (send_to_device (ce_server env) (cl_api cl) ''p.mls.welcome'' txn
            (JObj [(user_id, JObj [(ck_device_id kp,
               JObj [(''welcome'', JStr (ao_welcome outcome)), (''room_id'', JStr room_id)])])]))) (\<lambda>_.
     bnd (next_txn_id env) (\<lambda>txn'.
     bnd (call_api (send_event (ce_server env) (cl_api cl) room_id ''p.mls.commit'' txn'
            (JObj [(''commit'', JStr (ao_commit outcome))]))) (\<lambda>_.
     ret ())))))"

definition welcome_to_group ::
  "('w, 'd, 'g, 'k, 't) client_env \<Rightarrow> pigeon_client \<Rightarrow> string \<Rightarrow> string \<Rightarrow>
   ('w, 'd, 'k, 't, unit) client_act" where
  "welcome_to_group env cl room_id user_id =
     bnd (on_core_net (claim_all_devices (ce_server env) (cl_api cl) user_id)) (\<lambda>claimed.
       forA (welcome_device env cl room_id user_id) claimed)"

definition client_invite ::
  "('w, 'd, 'g, 'k, 't) client_env \<Rightarrow> pigeon_client \<Rightarrow> string \<Rightarrow> string \<Rightarrow>
   ('w, 'd, 'k, 't, unit) client_act" where
  "client_invite env cl room_id user_id =
     bnd (call_api (invite (ce_server env) (cl_api cl) room_id user_id)) (\<lambda>_.
     bnd has_engine (\<lambda>engine.
     if \<not> engine then ret ()
     else
       bnd (on_vault (has_group (ce_crypto env) room_id)) (\<lambda>held.
       if held then welcome_to_group env cl room_id user_id else ret ())))"

section \<open>Media\<close>

definition client_upload_media ::
  "('w, 'd, 'g, 'k, 't) client_env \<Rightarrow> pigeon_client \<Rightarrow> bytes \<Rightarrow> string \<Rightarrow>
   ('w, 'd, 'k, 't, string) client_act" where
  "client_upload_media env cl bs content_type =
     (if length bs > MAX_UPLOAD_BYTES
      then raise (Api LimitExceeded (''file exceeds the '' @ nat_dec (MAX_UPLOAD_BYTES div (1024 * 1024))
                    @ '' MiB media upload limit''))
      else call_api (upload_media (ce_server env) (cl_api cl) bs content_type))"

definition client_download_media ::
  "('w, 'd, 'g, 'k, 't) client_env \<Rightarrow> pigeon_client \<Rightarrow> string \<Rightarrow> ('w, 'd, 'k, 't, bytes) client_act" where
  "client_download_media env cl uri =
     bnd (lift_res (parse_content_uri uri)) (\<lambda>(server, media_id).
       call_api (download_media (ce_server env) (cl_api cl) server media_id))"

definition download_image ::
  "('w, 'd, 'g, 'k, 't) client_env \<Rightarrow> pigeon_client \<Rightarrow> image_content \<Rightarrow> ('w, 'd, 'k, 't, bytes) client_act" where
  "download_image env cl img =
     bnd (client_download_media env cl (im_uri img)) (\<lambda>bs.
     (case im_key img of
        Some key \<Rightarrow> on_vault (bnd the_device (\<lambda>_. lift_res (decrypt_media (ce_crypto env) key bs)))
      | None \<Rightarrow> ret bs))"

definition holds_group ::
  "('w, 'd, 'g, 'k, 't) client_env \<Rightarrow> string \<Rightarrow> ('w, 'd, 'k, 't, bool) client_act" where
  "holds_group env room_id =
     bnd has_engine (\<lambda>engine.
       if engine then on_vault (has_group (ce_crypto env) room_id) else ret False)"

definition encrypted_event :: "string \<Rightarrow> json" where
  "encrypted_event ciphertext = JObj [(''algorithm'', JStr ''p.mls.1''), (''ciphertext'', JStr ciphertext)]"

definition send_image ::
  "('w, 'd, 'g, 'k, 't) client_env \<Rightarrow> pigeon_client \<Rightarrow> string \<Rightarrow> bytes \<Rightarrow> string \<Rightarrow> 32 word \<Rightarrow> 32 word \<Rightarrow>
   string \<Rightarrow> ('w, 'd, 'k, 't, unit) client_act" where
  "send_image env cl room_id bs mimetype width height caption =
     bnd (holds_group env room_id) (\<lambda>enc.
     (let sz = word_of_nat (length bs)
      in if enc then
           bnd (on_vault (encrypt_media (ce_crypto env) bs)) (\<lambda>(key_b64, ciphertext).
           bnd (client_upload_media env cl ciphertext ''application/octet-stream'') (\<lambda>uri.
           bnd (on_vault (encrypt (ce_crypto env) room_id
                  (jprint (env_json (ce_crypto env))
                     (encrypted_image_content caption uri key_b64 mimetype width height sz)))) (\<lambda>ciphertext_b64.
           bnd (next_txn_id env) (\<lambda>txn.
           bnd (call_api (send_event (ce_server env) (cl_api cl) room_id ''p.room.encrypted'' txn
                  (encrypted_event ciphertext_b64))) (\<lambda>_.
           ret ())))))
         else
           bnd (client_upload_media env cl bs mimetype) (\<lambda>uri.
           bnd (next_txn_id env) (\<lambda>txn.
           bnd (call_api (send_event (ce_server env) (cl_api cl) room_id ''p.room.message'' txn
                  (plain_image_content caption uri mimetype width height sz))) (\<lambda>_.
           ret ())))))"

section \<open>Sending\<close>

definition encrypt_for_send ::
  "('w, 'd, 'g, 'k, 't) client_env \<Rightarrow> string \<Rightarrow> string \<Rightarrow> ('w, 'd, 'k, 't, string option) client_act" where
  "encrypt_for_send env room_id body =
     bnd has_engine (\<lambda>engine.
     if \<not> engine then ret None
     else
       bnd (on_vault (has_group (ce_crypto env) room_id)) (\<lambda>held.
       if held then bnd (on_vault (encrypt (ce_crypto env) room_id body)) (\<lambda>c. ret (Some c))
       else ret None))"

text \<open>
  What one round of the loop of \<open>flush_pending\<close> does with a queued send: the event to transmit, or
  the reason it is not transmitted (held back, or failed).
\<close>

datatype outgoing = Transmit string json | Held | Unencryptable

definition plan_send ::
  "('w, 'd, 'g, 'k, 't) client_env \<Rightarrow> pigeon_client \<Rightarrow> pending_send \<Rightarrow>
   ('w, 'd, 'k, 't, outgoing) client_act" where
  "plan_send env cl ps =
     catch (encrypt_for_send env (ps_room_id ps) (ps_body ps)) (\<lambda>r.
     (case r of
        Inr (Some ciphertext) \<Rightarrow> ret (Transmit ''p.room.encrypted'' (encrypted_event ciphertext))
      | Inr None \<Rightarrow>
          bnd (store_read cl (\<lambda>db. Inr (is_room_encrypted db (ps_room_id ps)))) (\<lambda>encrypted.
          if encrypted then
            bnd (log_emit LWarn ''e2ee''
                   (''holding a queued message for encrypted room '' @ ps_room_id ps @ '' ''
                     @ utf8 [226, 128, 148] @ '' no MLS group yet; will send once the group is joined''))
              (\<lambda>_. ret Held)
          else ret (Transmit ''p.room.message''
                      (JObj [(''body'', JStr (ps_body ps)), (''msgtype'', JStr ''p.text'')])))
      | Inl err \<Rightarrow>
          bnd (log_emit LWarn ''e2ee''
                 (''could not encrypt outbound message; marking failed: '' @ show_core_error err))
            (\<lambda>_. ret Unencryptable)))"

fun flush_loop ::
  "('w, 'd, 'g, 'k, 't) client_env \<Rightarrow> pigeon_client \<Rightarrow> pending_send list \<Rightarrow> bool \<Rightarrow>
   ('w, 'd, 'k, 't, bool) client_act" where
  "flush_loop env cl [] changed = ret changed"
| "flush_loop env cl (ps # sends) changed =
     bnd (plan_send env cl ps) (\<lambda>plan.
     (case plan of
        Held \<Rightarrow> flush_loop env cl sends changed
      | Unencryptable \<Rightarrow>
          bnd (store_update cl (\<lambda>db. fail_send db (ps_txn_id ps))) (\<lambda>_.
          flush_loop env cl sends True)
      | Transmit event_type content \<Rightarrow>
          catch (on_net (send_event (ce_server env) (cl_api cl) (ps_room_id ps) event_type
                   (ps_txn_id ps) content)) (\<lambda>r.
          (case r of
             Inr event_id \<Rightarrow>
               bnd (store_write cl (\<lambda>db. then_ok (resolve_send (ce_codec env) db (ps_txn_id ps) event_id)
                      (\<lambda>db'. Inr (db', ())))) (\<lambda>_.
               flush_loop env cl sends True)
           | Inl err \<Rightarrow>
               (if is_transient err then ret changed
                else bnd (store_update cl (\<lambda>db. fail_send db (ps_txn_id ps))) (\<lambda>_.
                     flush_loop env cl sends True))))))"

definition flush_pending ::
  "('w, 'd, 'g, 'k, 't) client_env \<Rightarrow> pigeon_client \<Rightarrow> ('w, 'd, 'k, 't, bool) client_act" where
  "flush_pending env cl =
     bnd (store_read cl (\<lambda>db. Inr (pending_sends db))) (\<lambda>sends. flush_loop env cl sends False)"

text \<open>\<open>queue_send\<close> draws its ids from the process-wide counter and reads the clock twice.\<close>

definition queue_message ::
  "('w, 'd, 'g, 'k, 't) client_env \<Rightarrow> pigeon_client \<Rightarrow> string \<Rightarrow> string \<Rightarrow>
   ('w, 'd, 'k, 't, string) client_act" where
  "queue_message env cl room_id body = (\<lambda>w.
     bnd (modA (\<lambda>w. w\<lparr>wd_send_counter := wd_send_counter w + 1\<rparr>)) (\<lambda>_.
     bnd (tick env) (\<lambda>id_reading.
     bnd (tick env) (\<lambda>reading.
     store_write cl (\<lambda>db. queue_send (ce_codec env) db (wd_send_counter w) (now_millis id_reading)
       (now_millis reading) room_id (ss_user_id (cl_session cl)) body)))) w)"

definition client_send_message ::
  "('w, 'd, 'g, 'k, 't) client_env \<Rightarrow> pigeon_client \<Rightarrow> string \<Rightarrow> string \<Rightarrow>
   ('w, 'd, 'k, 't, unit) client_act" where
  "client_send_message env cl room_id body =
     bnd (queue_message env cl room_id body) (\<lambda>_.
     bnd (flush_pending env cl) (\<lambda>_. ret ()))"

section \<open>Inbound MLS events\<close>

definition inbound_commit ::
  "('w, 'd, 'g, 'k, 't) client_env \<Rightarrow> pigeon_client \<Rightarrow> pending_commit \<Rightarrow> bool \<Rightarrow>
   ('w, 'd, 'k, 't, bool) client_act" where
  "inbound_commit env cl c changed =
     bnd (on_vault (has_group (ce_crypto env) (pc_room_id c))) (\<lambda>held.
     if \<not> held then ret changed
     else
       bnd (if pc_sender c \<noteq> ss_user_id (cl_session cl) then
              catch (on_vault (process_commit (ce_crypto env) (pc_room_id c) (pc_commit_b64 c))) (\<lambda>r.
              (case r of
                 Inr _ \<Rightarrow> ret ()
               | Inl err \<Rightarrow> log_emit LInfo ''e2ee''
                   (''commit '' @ pc_event_id c @ '' not applied (skipped): '' @ show_core_error err)))
            else ret ()) (\<lambda>_.
       bnd (store_update cl (\<lambda>db. set_commit_processed db (pc_event_id c))) (\<lambda>_.
       ret True)))"

definition inbound_message ::
  "('w, 'd, 'g, 'k, 't) client_env \<Rightarrow> pigeon_client \<Rightarrow> pending_decrypt \<Rightarrow> bool \<Rightarrow>
   ('w, 'd, 'k, 't, bool) client_act" where
  "inbound_message env cl m changed =
     bnd (on_vault (has_group (ce_crypto env) (pd_room_id m))) (\<lambda>held.
     if \<not> held then ret changed
     else
       bnd (if pd_sender m = ss_user_id (cl_session cl)
            then store_read cl (\<lambda>db. Inr (has_pending_send db (pd_room_id m))) else ret False) (\<lambda>waiting.
       if waiting then ret changed
       else
         catch (on_vault (decrypt (ce_crypto env) (pd_room_id m) (pd_ciphertext_b64 m))) (\<lambda>r.
         (case r of
            Inr plaintext \<Rightarrow>
              bnd (store_update cl (\<lambda>db. set_decrypted db (pd_event_id m) plaintext)) (\<lambda>_. ret True)
          | Inl err \<Rightarrow>
              bnd (log_emit LWarn ''e2ee''
                     (''failed to decrypt '' @ pd_event_id m @ '': '' @ show_core_error err)) (\<lambda>_.
              bnd (store_update cl (\<lambda>db. set_decrypt_failed db (pd_event_id m))) (\<lambda>_. ret True))))))"

fun inbound_loop ::
  "('w, 'd, 'g, 'k, 't) client_env \<Rightarrow> pigeon_client \<Rightarrow> pending_mls_item list \<Rightarrow> bool \<Rightarrow>
   ('w, 'd, 'k, 't, bool) client_act" where
  "inbound_loop env cl [] changed = ret changed"
| "inbound_loop env cl (MlsCommit c # items) changed =
     bnd (inbound_commit env cl c changed) (inbound_loop env cl items)"
| "inbound_loop env cl (MlsMessage m # items) changed =
     bnd (inbound_message env cl m changed) (inbound_loop env cl items)"

definition process_inbound_mls ::
  "('w, 'd, 'g, 'k, 't) client_env \<Rightarrow> pigeon_client \<Rightarrow> ('w, 'd, 'k, 't, bool) client_act" where
  "process_inbound_mls env cl =
     bnd has_engine (\<lambda>engine.
     if \<not> engine then ret False
     else
       bnd (store_read cl (pending_mls (ce_codec env))) (\<lambda>items. inbound_loop env cl items False))"

section \<open>Backfill\<close>

definition fetch_messages ::
  "('w, 'd, 'g, 'k, 't) client_env \<Rightarrow> pigeon_client \<Rightarrow> string \<Rightarrow> 32 word \<Rightarrow>
   ('w, 'd, 'k, 't, 32 word) client_act" where
  "fetch_messages env cl room_id limit =
     bnd (call_api (messages (ce_server env) (cl_api cl) room_id limit)) (\<lambda>resp.
     (let chunk = (case as_array (jindex resp ''chunk'') of None \<Rightarrow> [] | Some evs \<Rightarrow> evs)
      in bnd (store_write cl (\<lambda>db. apply_events (ce_codec env) db chunk)) (\<lambda>inserted.
         bnd (process_inbound_mls env cl) (\<lambda>_.
         ret (word_of_nat inserted)))))"

end
