(* ===== verification/Sync.thy ===== *)
theory Sync
  imports Rooms
begin

text \<open>
  The sync loop of \<open>core/src/sync.rs\<close>.  The loop of \<open>run_sync\<close> never ends by itself; here it runs for
  a number of cycles, after which the host has cancelled it, or until a fatal error.  Durations are in
  milliseconds for requests and in seconds for the backoff.
\<close>

definition SYNC_TIMEOUT_MS :: "64 word" where "SYNC_TIMEOUT_MS = 30000"
definition SYNC_LIMIT :: "32 word" where "SYNC_LIMIT = 100"
definition BACKOFF_START :: nat where "BACKOFF_START = 1"
definition BACKOFF_MAX :: nat where "BACKOFF_MAX = 30"

section \<open>Folding a response\<close>

definition room_events :: "json \<Rightarrow> json list" where
  "room_events room =
     (case as_array (jindex (jindex room ''timeline'') ''events'') of None \<Rightarrow> [] | Some evs \<Rightarrow> evs)"

definition joined_events :: "json \<Rightarrow> json list" where
  "joined_events resp =
     (case as_object (jindex (jindex resp ''rooms'') ''join'') of
        None \<Rightarrow> []
      | Some kvs \<Rightarrow> concat (map (\<lambda>kv. room_events (snd kv)) kvs))"

definition apply_sync ::
  "('w, 'd, 'g, 'k, 't) client_env \<Rightarrow> pigeon_client \<Rightarrow> json \<Rightarrow> ('w, 'd, 'k, 't, bool) client_act" where
  "apply_sync env cl resp =
     bnd (store_write cl (\<lambda>db. apply_events (ce_codec env) db (joined_events resp))) (\<lambda>inserted.
       ret (inserted > 0))"

definition persist_sync_token ::
  "('w, 'd, 'g, 'k, 't) client_env \<Rightarrow> pigeon_client \<Rightarrow> json \<Rightarrow> ('w, 'd, 'k, 't, unit) client_act" where
  "persist_sync_token env cl resp =
     (case as_str (jindex resp ''next_batch'') of
        None \<Rightarrow> ret ()
      | Some t \<Rightarrow> store_update cl (\<lambda>db. save_sync_token db t))"

text \<open>The step of the loop that joins from a Welcome, once the room is known not to be held.\<close>

definition join_welcome ::
  "('w, 'd, 'g, 'k, 't) client_env \<Rightarrow> string option \<Rightarrow> string \<Rightarrow> bool \<Rightarrow>
   ('w, 'd, 'k, 't, bool) client_act" where
  "join_welcome env room_id welcome_b64 joined =
     catch (on_vault (join_from_welcome (ce_crypto env) welcome_b64)) (\<lambda>r.
     (case r of
        Inr _ \<Rightarrow>
          bnd (log_emit LInfo ''e2ee''
                 (''joined encrypted group'' @ (case room_id of None \<Rightarrow> [] | Some rm \<Rightarrow> '' for '' @ rm)))
            (\<lambda>_. ret True)
      | Inl err \<Rightarrow>
          bnd (log_emit LWarn ''e2ee'' (''failed to join from Welcome (skipping): '' @ show_core_error err))
            (\<lambda>_. ret joined)))"

definition to_device_event ::
  "('w, 'd, 'g, 'k, 't) client_env \<Rightarrow> json \<Rightarrow> bool \<Rightarrow> ('w, 'd, 'k, 't, bool) client_act" where
  "to_device_event env ev joined =
     (if jindex ev ''type'' \<noteq> JStr ''p.mls.welcome'' then ret joined
      else
        (case as_str (jindex (jindex ev ''content'') ''welcome'') of
           None \<Rightarrow> ret joined
         | Some welcome_b64 \<Rightarrow>
             (case as_str (jindex (jindex ev ''content'') ''room_id'') of
                None \<Rightarrow> join_welcome env None welcome_b64 joined
              | Some rm \<Rightarrow>
                  catch (on_vault (has_group (ce_crypto env) rm)) (\<lambda>r.
                  (case r of
                     Inr True \<Rightarrow> ret joined
                   | Inr False \<Rightarrow> join_welcome env (Some rm) welcome_b64 joined
                   | Inl err \<Rightarrow>
                       bnd (log_emit LWarn ''e2ee''
                              (''could not check group membership for '' @ rm @ '': '' @ show_core_error err))
                         (\<lambda>_. ret joined))))))"

fun to_device_loop ::
  "('w, 'd, 'g, 'k, 't) client_env \<Rightarrow> json list \<Rightarrow> bool \<Rightarrow> ('w, 'd, 'k, 't, bool) client_act" where
  "to_device_loop env [] joined = ret joined"
| "to_device_loop env (ev # evs) joined = bnd (to_device_event env ev joined) (to_device_loop env evs)"

definition apply_to_device ::
  "('w, 'd, 'g, 'k, 't) client_env \<Rightarrow> json \<Rightarrow> ('w, 'd, 'k, 't, bool) client_act" where
  "apply_to_device env resp =
     (case as_array (jindex (jindex resp ''to_device'') ''events'') of
        None \<Rightarrow> ret False
      | Some evs \<Rightarrow>
          bnd has_engine (\<lambda>engine. if engine then to_device_loop env evs False else ret False))"

section \<open>The loop\<close>

definition notify :: "observer_call \<Rightarrow> ('w, 'd, 'k, 't, unit) client_act" where
  "notify c = modA (\<lambda>w. w\<lparr>wd_observer := wd_observer w @ [c]\<rparr>)"

definition sleep_secs :: "nat \<Rightarrow> ('w, 'd, 'k, 't, unit) client_act" where
  "sleep_secs n = modA (\<lambda>w. w\<lparr>wd_sleeps := wd_sleeps w @ [n]\<rparr>)"

definition handle_batch ::
  "('w, 'd, 'g, 'k, 't) client_env \<Rightarrow> pigeon_client \<Rightarrow> json \<Rightarrow> ('w, 'd, 'k, 't, nat) client_act" where
  "handle_batch env cl resp =
     bnd (apply_sync env cl resp) (\<lambda>applied.
     bnd (apply_to_device env resp) (\<lambda>joined.
     bnd (persist_sync_token env cl resp) (\<lambda>_.
     bnd (process_inbound_mls env cl) (\<lambda>mls_changed.
     bnd (flush_pending env cl) (\<lambda>flushed.
     bnd (notify (OnStatus True)) (\<lambda>_.
     bnd (if applied \<or> joined \<or> mls_changed \<or> flushed then notify OnChange else ret ()) (\<lambda>_.
     ret BACKOFF_START)))))))"

definition back_off ::
  "api_error \<Rightarrow> nat \<Rightarrow> ('w, 'd, 'k, 't, nat) client_act" where
  "back_off err backoff =
     bnd (log_emit LInfo ''sync''
            (''sync retryable error, backing off '' @ nat_dec backoff @ ''s: '' @ show_api_error err)) (\<lambda>_.
     bnd (notify (OnStatus False)) (\<lambda>_.
     bnd (sleep_secs backoff) (\<lambda>_.
     ret (min (backoff * 2) BACKOFF_MAX))))"

text \<open>One turn of the loop, from a backoff to the next.\<close>

definition sync_cycle ::
  "('w, 'd, 'g, 'k, 't) client_env \<Rightarrow> pigeon_client \<Rightarrow> nat \<Rightarrow> ('w, 'd, 'k, 't, nat) client_act" where
  "sync_cycle env cl backoff =
     bnd (store_read cl (\<lambda>db. Inr (load_sync_token db))) (\<lambda>since.
     catch (on_net (sync (ce_server env) (cl_api cl) since SYNC_TIMEOUT_MS SYNC_LIMIT)) (\<lambda>r.
     (case r of
        Inr resp \<Rightarrow> handle_batch env cl resp
      | Inl err \<Rightarrow>
          (if is_transient err then back_off err backoff else raise (core_of_api err)))))"

fun sync_cycles ::
  "('w, 'd, 'g, 'k, 't) client_env \<Rightarrow> pigeon_client \<Rightarrow> nat \<Rightarrow> nat \<Rightarrow> ('w, 'd, 'k, 't, nat) client_act" where
  "sync_cycles env cl 0 backoff = ret backoff"
| "sync_cycles env cl (Suc n) backoff = bnd (sync_cycle env cl backoff) (sync_cycles env cl n)"

definition run_sync ::
  "('w, 'd, 'g, 'k, 't) client_env \<Rightarrow> pigeon_client \<Rightarrow> nat \<Rightarrow> ('w, 'd, 'k, 't, nat) client_act" where
  "run_sync env cl cycles = sync_cycles env cl cycles BACKOFF_START"

end
