(* ===== verification/Lww.thy ===== *)
theory Lww
  imports Prelude
begin

text \<open>
  The contract of a last-writer-wins store: putting an event changes the entry of at most one key,
  and there the entry with the larger version stays, the newcomer winning a tie.  The
  locale \<open>lww_store\<close> states that contract; what follows from it for whole sequences of events (which
  entry wins, that replaying a sequence changes nothing, that the order does not matter when versions
  differ) is proved once inside it.  \<open>Store_Log\<close> interprets it on the store's own tables.
\<close>

fun lww :: "('v \<times> 'p::linorder) option \<Rightarrow> 'v \<times> 'p \<Rightarrow> ('v \<times> 'p) option" where
  "lww None e = Some e"
| "lww (Some c) e = (if snd c \<le> snd e then Some e else Some c)"

lemma lww_cases: "lww c e = Some e \<or> lww c e = c"
  by (cases c) auto

lemma foldl_lww_Some: "\<exists>w. foldl lww (Some c) es = Some w \<and> w \<in> insert c (set es)"
proof (induction es arbitrary: c)
  case Nil
  then show ?case by simp
next
  case (Cons e es)
  then show ?case by (cases "snd c \<le> snd e") (simp; metis insertCI insertE)+
qed

lemma foldl_lww_upper: "foldl lww c es = Some w \<Longrightarrow>
    (\<forall>e\<in>set es. snd e \<le> snd w) \<and> (\<forall>c'. c = Some c' \<longrightarrow> snd c' \<le> snd w)"
proof (induction es arbitrary: c)
  case Nil
  then show ?case by simp
next
  case (Cons e es)
  have r: "foldl lww (lww c e) es = Some w" using Cons.prems by simp
  show ?case
  proof (cases "lww c e")
    case None
    then show ?thesis by (cases c) (auto split: if_splits)
  next
    case (Some x)
    with Cons.IH [OF r] have "snd x \<le> snd w" "\<forall>e\<in>set es. snd e \<le> snd w" by auto
    with Some show ?thesis by (cases c) (auto split: if_splits)
  qed
qed

lemma foldl_lww_lower:
  assumes "\<forall>e\<in>set es. snd e < snd c"
  shows "foldl lww (Some c) es = Some c"
  using assms by (induction es) auto

text \<open>The winner: the last of the entries with the greatest version.\<close>

lemma foldl_lww_split:
  assumes "foldl lww c es = Some w"
  shows "(c = Some w \<and> (\<forall>e\<in>set es. snd e < snd w)) \<or>
    (\<exists>as bs. es = as @ w # bs \<and> (\<forall>e\<in>set bs. snd e < snd w))"
  using assms
proof (induction es arbitrary: c)
  case Nil
  then show ?case by simp
next
  case (Cons e es)
  then have "foldl lww (lww c e) es = Some w" by simp
  from Cons.IH [OF this] show ?case
  proof
    assume h: "lww c e = Some w \<and> (\<forall>e\<in>set es. snd e < snd w)"
    show ?thesis
    proof (cases "w = e")
      case True
      then show ?thesis using h by (intro disjI2 exI [of _ "[]"] exI [of _ es]) simp
    next
      case False
      with h show ?thesis by (cases c) (auto split: if_splits)
    qed
  next
    assume "\<exists>as bs. es = as @ w # bs \<and> (\<forall>e\<in>set bs. snd e < snd w)"
    then show ?thesis by (metis append_Cons)
  qed
qed

lemma foldl_lww_suffix:
  assumes "\<forall>e\<in>set bs. snd e < snd w" "\<forall>e\<in>set as. snd e \<le> snd w"
    "\<forall>c'. c = Some c' \<longrightarrow> snd c' \<le> snd w"
  shows "foldl lww c (as @ w # bs) = Some w"
proof -
  have "\<forall>c'. foldl lww c as = Some c' \<longrightarrow> snd c' \<le> snd w"
  proof (intro allI impI)
    fix c' assume r: "foldl lww c as = Some c'"
    then have "c = Some c' \<or> c' \<in> set as"
      using foldl_lww_split [OF r] by auto
    then show "snd c' \<le> snd w" using assms(2,3) by blast
  qed
  then have "lww (foldl lww c as) w = Some w"
    by (cases "foldl lww c as") auto
  then show ?thesis
    using foldl_lww_lower [OF assms(1)] by simp
qed

lemma foldl_lww_idem: "foldl lww (foldl lww c es) es = foldl lww c es"
proof (cases "foldl lww c es")
  case None
  then have "es = []"
  proof (cases es)
    case (Cons e es')
    then show ?thesis
      using None foldl_lww_Some [of "the (lww c e)" es'] by (cases c) auto
  qed simp
  then show ?thesis by simp
next
  case (Some w)
  note up = foldl_lww_upper [OF Some]
  from foldl_lww_split [OF Some] show ?thesis
  proof
    assume "c = Some w \<and> (\<forall>e\<in>set es. snd e < snd w)"
    then show ?thesis using foldl_lww_lower Some by metis
  next
    assume "\<exists>as bs. es = as @ w # bs \<and> (\<forall>e\<in>set bs. snd e < snd w)"
    then obtain as bs where es: "es = as @ w # bs" "\<forall>e\<in>set bs. snd e < snd w" by blast
    then have "foldl lww (Some w) es = Some w"
      unfolding es(1) using up es by (intro foldl_lww_suffix) (auto simp del: split_paired_All)
    with Some show ?thesis by simp
  qed
qed

text \<open>With pairwise different versions neither order nor repetition matters.\<close>

lemma foldl_lww_set:
  assumes set_eq: "set es = set es'" and inj: "inj_on snd (set es)"
  shows "foldl lww None es = foldl lww None es'"
proof (cases es)
  case Nil
  then show ?thesis using set_eq by simp
next
  case (Cons e xs)
  from set_eq obtain e' xs' where es': "es' = e' # xs'" using Cons by (cases es') auto
  obtain w where w: "foldl lww None es = Some w" "w \<in> set es"
    using foldl_lww_Some [of e xs] Cons by auto
  obtain w' where w': "foldl lww None es' = Some w'" "w' \<in> set es'"
    using foldl_lww_Some [of e' xs'] es' by auto
  have "snd w \<le> snd w'" using foldl_lww_upper [OF w'(1)] w(2) set_eq by blast
  moreover have "snd w' \<le> snd w" using foldl_lww_upper [OF w(1)] w'(2) set_eq by blast
  ultimately have "snd w = snd w'" by simp
  then have "w = w'" using inj w(2) w'(2) set_eq by (auto dest: inj_onD)
  with w(1) w'(1) show ?thesis by simp
qed

locale lww_store =
  fixes put :: "'m \<Rightarrow> 'e \<Rightarrow> 'm"
    and look :: "'m \<Rightarrow> 'k \<Rightarrow> ('v \<times> 'p::linorder) option"
    and key :: "'e \<Rightarrow> 'k option"
    and entry :: "'e \<Rightarrow> 'v \<times> 'p"
  assumes look_put:
    "look (put m e) k = (if key e = Some k then lww (look m k) (entry e) else look m k)"
begin

lemma look_foldl:
  "look (foldl put m es) k =
     foldl lww (look m k) (map entry (filter (\<lambda>e. key e = Some k) es))"
  by (induction es arbitrary: m) (auto simp: look_put)

lemma replay: "look (foldl put (foldl put m es) es) = look (foldl put m es)"
  by (rule ext) (simp add: look_foldl foldl_lww_idem)

lemma winner_greatest:
  assumes "look (foldl put m es) k = Some w" "e \<in> set es" "key e = Some k"
  shows "snd (entry e) \<le> snd w"
  using foldl_lww_upper [OF assms(1) [unfolded look_foldl]] assms(2,3) by auto

lemma winner_origin:
  assumes "look (foldl put m es) k = Some w"
  shows "look m k = Some w \<or> (\<exists>e\<in>set es. key e = Some k \<and> entry e = w)"
  using foldl_lww_split [OF assms [unfolded look_foldl]]
proof
  assume "\<exists>as bs. map entry (filter (\<lambda>e. key e = Some k) es) = as @ w # bs \<and>
     (\<forall>e\<in>set bs. snd e < snd w)"
  then have "w \<in> set (map entry (filter (\<lambda>e. key e = Some k) es))" by (metis in_set_conv_decomp)
  then show ?thesis by auto
qed simp

lemma present:
  assumes "e \<in> set es" "key e = Some k"
  shows "\<exists>w. look (foldl put m es) k = Some w"
proof -
  let ?xs = "map entry (filter (\<lambda>e. key e = Some k) es)"
  obtain x xs where "?xs = x # xs" using assms by (cases ?xs) (auto simp: filter_empty_conv)
  then show ?thesis
    using foldl_lww_Some [of "the (lww (look m k) x)" xs]
    by (cases "look m k") (auto simp: look_foldl)
qed

lemma order_irrelevant:
  assumes "set es = set es'" "look m = (\<lambda>k. None)"
    and "\<And>k. inj_on (\<lambda>e. snd (entry e)) {e \<in> set es. key e = Some k}"
  shows "look (foldl put m es) = look (foldl put m es')"
proof (rule ext)
  fix k
  let ?f = "\<lambda>es. map entry (filter (\<lambda>e. key e = Some k) es)"
  have "set (?f es) = set (?f es')" using assms(1) by simp
  moreover have "inj_on snd (set (?f es))"
    using assms(3) [of k] by (auto simp: inj_on_def)
  ultimately have "foldl lww None (?f es) = foldl lww None (?f es')"
    by (rule foldl_lww_set)
  then show "look (foldl put m es) k = look (foldl put m es') k"
    by (simp add: look_foldl assms(2))
qed

end

end
