(* ===== verification/Store_Log.thy ===== *)
theory Store_Log
  imports Store Lww
begin

text \<open>
  What \<open>apply_events\<close> does to the store: the event log only grows, by exactly the events whose id
  is new, and current state is the last-writer-wins fold of the state events (the interpretation of
  the locale \<open>lww_store\<close>).  From these follow that applying a batch again is a no-op, that a
  malformed event changes nothing, and that two devices that receive the same events in different
  orders and batches end in stores with the same content.
\<close>

section \<open>One event\<close>

text \<open>The effect of one round of the loop: append, then fold if it is a state event.\<close>

definition apply_one :: "'t codec \<Rightarrow> 't db \<Rightarrow> stored_event \<Rightarrow> 't db" where
  "apply_one cx db ev =
     (let db1 = fst (insert_event cx db ev)
      in case fold_state db1 ev of Inl _ \<Rightarrow> db1 | Inr db2 \<Rightarrow> db2)"

definition state_key :: "stored_event \<Rightarrow> (string \<times> string \<times> string) option" where
  "state_key ev = map_option (\<lambda>k. (ev_room_id ev, ev_event_type ev, k)) (ev_state_key ev)"

definition state_entry :: "stored_event \<Rightarrow> string \<times> int" where
  "state_entry ev = (ev_event_id ev, ev_depth ev)"

text \<open>Current state as a map: the winning event id and its depth.\<close>

definition state_map :: "'t db \<Rightarrow> string \<times> string \<times> string \<Rightarrow> (string \<times> int) option" where
  "state_map db k =
     map_option (\<lambda>s. (s_event_id s, s_depth s)) (find_row state_key_of k (room_state db))"

definition event_ids :: "'t db \<Rightarrow> string set" where
  "event_ids db = r_event_id ` set (events db)"

lemma has_event_iff: "has_event db eid \<longleftrightarrow> eid \<in> event_ids db"
  by (simp add: has_event_def has_key_iff event_ids_def)

lemma insert_event_has: "has_event (fst (insert_event cx db ev)) (ev_event_id ev)"
  by (auto simp: insert_event_def has_event_def has_key_iff row_of_event_def)

lemma insert_event_state [simp]: "room_state (fst (insert_event cx db ev)) = room_state db"
  by (simp add: insert_event_def)

lemma fold_state_total:
  assumes "ev_state_key ev = Some k" "has_event db (ev_event_id ev)"
  shows "\<exists>rs. fold_state db ev = Inr (db\<lparr>room_state := rs\<rparr>)"
proof (cases "find_row state_key_of (ev_room_id ev, ev_event_type ev, k) (room_state db)")
  case None
  then show ?thesis using assms by (auto simp: fold_state_def Let_def)
next
  case (Some s)
  show ?thesis
  proof (cases "s_depth s \<le> ev_depth ev")
    case True
    then show ?thesis using assms Some by (auto simp: fold_state_def Let_def)
  next
    case False
    then have "fold_state db ev = Inr (db\<lparr>room_state := room_state db\<rparr>)"
      using assms Some by (simp add: fold_state_def Let_def)
    then show ?thesis by blast
  qed
qed

text \<open>The loop never fails: each state event finds its row in the log.\<close>

lemma apply_loop_fold:
  "\<exists>m. apply_loop cx db evs n = Inr (foldl (apply_one cx) db evs, m)"
proof (induction evs arbitrary: db n)
  case Nil
  then show ?case by simp
next
  case (Cons ev evs)
  obtain db1 k where ins: "insert_event cx db ev = (db1, k)" by (cases "insert_event cx db ev")
  have has: "has_event db1 (ev_event_id ev)"
    using insert_event_has [of cx db ev] ins by simp
  show ?case
  proof (cases "ev_state_key ev")
    case None
    then have "apply_one cx db ev = db1"
      using ins by (simp add: apply_one_def fold_state_def)
    with None ins Cons.IH [of db1 "n + k"] show ?thesis by simp
  next
    case (Some key)
    then obtain rs where "fold_state db1 ev = Inr (db1\<lparr>room_state := rs\<rparr>)"
      using fold_state_total [OF Some has] by blast
    with Some ins Cons.IH show ?thesis by (simp add: apply_one_def)
  qed
qed

lemma apply_one_events [simp]:
  "events (apply_one cx db ev) = events (fst (insert_event cx db ev))"
proof (cases "ev_state_key ev")
  case None
  then show ?thesis by (simp add: apply_one_def fold_state_def)
next
  case (Some k)
  then show ?thesis
    using fold_state_total [OF Some insert_event_has [of cx db ev]]
    by (auto simp: apply_one_def)
qed

lemma apply_one_frame [simp]:
  "sync_token (apply_one cx db ev) = sync_token db"
  "pending_sends_tab (apply_one cx db ev) = pending_sends_tab db"
proof -
  have i: "sync_token (fst (insert_event cx db ev)) = sync_token db"
      "pending_sends_tab (fst (insert_event cx db ev)) = pending_sends_tab db"
    by (simp_all add: insert_event_def)
  have "sync_token (apply_one cx db ev) = sync_token db \<and>
      pending_sends_tab (apply_one cx db ev) = pending_sends_tab db"
  proof (cases "ev_state_key ev")
    case None
    then show ?thesis using i by (simp add: apply_one_def fold_state_def)
  next
    case (Some k)
    then show ?thesis
      using fold_state_total [OF Some insert_event_has [of cx db ev]] i
      by (auto simp: apply_one_def)
  qed
  then show "sync_token (apply_one cx db ev) = sync_token db"
    "pending_sends_tab (apply_one cx db ev) = pending_sends_tab db" by simp_all
qed

lemma foldl_apply_frame:
  "sync_token (foldl (apply_one cx) db evs) = sync_token db"
  "pending_sends_tab (foldl (apply_one cx) db evs) = pending_sends_tab db"
  by (induction evs arbitrary: db) simp_all

section \<open>Current state is a last-writer-wins store\<close>

lemma find_row_upd_entry:
  assumes "find_row state_key_of k rows = Some s"
    "state_key_of (s\<lparr>s_event_id := i, s_depth := d\<rparr>) = state_key_of s"
  shows "find_row state_key_of k'
      (upd_rows (\<lambda>s. state_key_of s = k) (\<lambda>s. s\<lparr>s_event_id := i, s_depth := d\<rparr>) rows) =
    (if k' = k then Some (s\<lparr>s_event_id := i, s_depth := d\<rparr>) else find_row state_key_of k' rows)"
proof -
  have "find_row state_key_of k'
      (upd_rows (\<lambda>s. state_key_of s = k) (\<lambda>s. s\<lparr>s_event_id := i, s_depth := d\<rparr>) rows) =
    map_option (\<lambda>s. if state_key_of s = k then s\<lparr>s_event_id := i, s_depth := d\<rparr> else s)
      (find_row state_key_of k' rows)"
    by (rule find_row_upd_rows) (simp add: state_key_of_def)
  moreover have "state_key_of r = k'" if "find_row state_key_of k' rows = Some r" for r
    using find_row_Some_D [OF that] by simp
  ultimately show ?thesis
    using assms(1) by (cases "find_row state_key_of k' rows") auto
qed

lemma state_map_fold_state:
  assumes "ev_state_key ev = Some key" "has_event db (ev_event_id ev)"
    and "fold_state db ev = Inr db'"
  shows "state_map db' k =
    (if k = (ev_room_id ev, ev_event_type ev, key)
     then lww (state_map db k) (state_entry ev) else state_map db k)"
proof (cases "find_row state_key_of (ev_room_id ev, ev_event_type ev, key) (room_state db)")
  case None
  then show ?thesis
    using assms by (auto simp: fold_state_def Let_def state_map_def find_row_append
        state_key_of_def state_entry_def split: option.splits)
next
  case (Some s)
  have "state_key_of (s\<lparr>s_event_id := i, s_depth := d\<rparr>) = state_key_of s" for i d
    by (simp add: state_key_of_def)
  note upd = find_row_upd_entry [OF Some this]
  show ?thesis
  proof (cases "s_depth s \<le> ev_depth ev")
    case True
    then have db': "db' = db\<lparr>room_state :=
        upd_rows (\<lambda>s. state_key_of s = (ev_room_id ev, ev_event_type ev, key))
          (\<lambda>s. s\<lparr>s_event_id := ev_event_id ev, s_depth := ev_depth ev\<rparr>) (room_state db)\<rparr>"
      using assms Some by (simp add: fold_state_def Let_def)
    show ?thesis
      unfolding db' using Some True by (simp add: state_map_def upd state_entry_def)
  next
    case False
    then show ?thesis
      using assms Some by (simp add: fold_state_def Let_def state_map_def state_entry_def)
  qed
qed

lemma state_map_apply_one:
  "state_map (apply_one cx db ev) k =
     (if state_key ev = Some k then lww (state_map db k) (state_entry ev) else state_map db k)"
proof -
  let ?db1 = "fst (insert_event cx db ev)"
  have eq: "state_map ?db1 k = state_map db k" by (simp add: state_map_def)
  show ?thesis
  proof (cases "ev_state_key ev")
    case None
    then show ?thesis using eq by (simp add: apply_one_def fold_state_def state_key_def)
  next
    case (Some key)
    then obtain rs where f: "fold_state ?db1 ev = Inr (?db1\<lparr>room_state := rs\<rparr>)"
      using fold_state_total [OF Some insert_event_has [of cx db ev]] by blast
    show ?thesis
      using state_map_fold_state [OF Some insert_event_has [of cx db ev] f, of k] f eq Some
      by (auto simp: apply_one_def state_key_def)
  qed
qed

interpretation room_log: lww_store "apply_one cx" state_map state_key state_entry
  for cx :: "'t codec"
  by unfold_locales (rule state_map_apply_one)

section \<open>The event log\<close>

text \<open>The log after a batch: each event with a new id is appended, in order, once.\<close>

fun log_add :: "'t codec \<Rightarrow> 't event_row list \<Rightarrow> stored_event list \<Rightarrow> 't event_row list" where
  "log_add cx rows [] = rows"
| "log_add cx rows (ev # evs) =
     log_add cx (if has_key r_event_id (ev_event_id ev) rows then rows
                 else rows @ [row_of_event cx ev]) evs"

lemma events_foldl: "events (foldl (apply_one cx) db evs) = log_add cx (events db) evs"
  by (induction evs arbitrary: db) (simp_all add: insert_event_def has_event_def)

lemma row_of_event_id [simp]: "r_event_id (row_of_event cx ev) = ev_event_id ev"
  by (simp add: row_of_event_def)

lemma log_add_ids:
  "r_event_id ` set (log_add cx rows evs) = r_event_id ` set rows \<union> ev_event_id ` set evs"
  by (induction evs arbitrary: rows) (auto simp: has_key_iff)

lemma log_add_prefix: "\<exists>new. log_add cx rows evs = rows @ new"
proof (induction evs arbitrary: rows)
  case Nil
  then show ?case by simp
next
  case (Cons ev evs)
  then show ?case by (cases "has_key r_event_id (ev_event_id ev) rows") (simp_all, metis append_assoc)
qed

lemma log_add_rows:
  "set (log_add cx rows evs) \<subseteq> set rows \<union> row_of_event cx ` set evs"
proof (induction evs arbitrary: rows)
  case Nil
  then show ?case by simp
next
  case (Cons ev evs)
  then show ?case
    using Cons.IH [of rows] Cons.IH [of "rows @ [row_of_event cx ev]"] by auto
qed

lemma log_add_distinct:
  "distinct (map r_event_id rows) \<Longrightarrow> distinct (map r_event_id (log_add cx rows evs))"
  by (induction evs arbitrary: rows) (auto simp: has_key_iff)

lemma log_add_known:
  "ev_event_id ` set evs \<subseteq> r_event_id ` set rows \<Longrightarrow> log_add cx rows evs = rows"
  by (induction evs) (auto simp: has_key_iff)

lemma log_add_append: "log_add cx rows (as @ bs) = log_add cx (log_add cx rows as) bs"
  by (induction as arbitrary: rows) simp_all

text \<open>The count \<open>apply_events\<close> returns is the growth of the log.\<close>

lemma apply_loop_count:
  "apply_loop cx db evs n = Inr (db', m) \<Longrightarrow> m = n + (length (events db') - length (events db))
     \<and> length (events db) \<le> length (events db')"
proof (induction evs arbitrary: db n)
  case Nil
  then show ?case by simp
next
  case (Cons ev evs)
  obtain db1 k where ins: "insert_event cx db ev = (db1, k)" by (cases "insert_event cx db ev")
  have k: "length (events db1) = length (events db) + k"
    using ins by (auto simp: insert_event_def split: if_splits)
  show ?case
  proof (cases "ev_state_key ev")
    case None
    with Cons.prems ins have "apply_loop cx db1 evs (n + k) = Inr (db', m)" by simp
    from Cons.IH [OF this] k show ?thesis by auto
  next
    case (Some key)
    have has: "has_event db1 (ev_event_id ev)" using insert_event_has [of cx db ev] ins by simp
    then obtain rs where "fold_state db1 ev = Inr (db1\<lparr>room_state := rs\<rparr>)"
      using fold_state_total [OF Some has] by blast
    with Cons.prems ins Some
    have "apply_loop cx (db1\<lparr>room_state := rs\<rparr>) evs (n + k) = Inr (db', m)" by simp
    from Cons.IH [OF this] k show ?thesis by auto
  qed
qed

lemma apply_events_Inr:
  "apply_events cx db evs = Inr (db', n) \<longleftrightarrow>
     (\<exists>parsed. collect_res from_wire evs = Inr parsed \<and>
        db' = foldl (apply_one cx) db parsed \<and> n = length (events db') - length (events db))"
proof
  assume "apply_events cx db evs = Inr (db', n)"
  then obtain parsed where p: "collect_res from_wire evs = Inr parsed"
      "apply_loop cx db parsed 0 = Inr (db', n)"
    by (auto simp: apply_events_def then_ok_Inr_iff)
  then show "\<exists>parsed. collect_res from_wire evs = Inr parsed \<and>
        db' = foldl (apply_one cx) db parsed \<and> n = length (events db') - length (events db)"
    using apply_loop_fold [of cx db parsed 0] apply_loop_count [OF p(2)] by auto
next
  assume "\<exists>parsed. collect_res from_wire evs = Inr parsed \<and>
        db' = foldl (apply_one cx) db parsed \<and> n = length (events db') - length (events db)"
  then obtain parsed where p: "collect_res from_wire evs = Inr parsed"
      "db' = foldl (apply_one cx) db parsed" "n = length (events db') - length (events db)"
    by blast
  obtain m where m: "apply_loop cx db parsed 0 = Inr (db', m)"
    using apply_loop_fold [of cx db parsed 0] p(2) by auto
  with p apply_loop_count [OF m] show "apply_events cx db evs = Inr (db', n)"
    by (simp add: apply_events_def)
qed

lemma apply_events_Inl:
  "apply_events cx db evs = Inl e \<longleftrightarrow> collect_res from_wire evs = Inl e"
  using apply_loop_fold [of cx db _ 0]
  by (cases "collect_res from_wire evs") (auto simp: apply_events_def, metis sum.distinct(1))

section \<open>Replaying a batch\<close>

lemma upd_rows_state_keys:
  "map state_key_of (upd_rows (\<lambda>s. state_key_of s = k) (\<lambda>s. s\<lparr>s_event_id := i, s_depth := d\<rparr>) rows)
     = map state_key_of rows"
  by (rule upd_rows_keys) (simp add: state_key_of_def)

lemma apply_one_keys:
  "map state_key_of (room_state (apply_one cx db ev)) =
     (case state_key ev of None \<Rightarrow> map state_key_of (room_state db)
      | Some k \<Rightarrow> (if has_key state_key_of k (room_state db) then map state_key_of (room_state db)
                  else map state_key_of (room_state db) @ [k]))"
proof (cases "ev_state_key ev")
  case None
  then show ?thesis by (simp add: apply_one_def fold_state_def state_key_def)
next
  case (Some key)
  note has = insert_event_has [of cx db ev]
  show ?thesis
  proof (cases "find_row state_key_of (ev_room_id ev, ev_event_type ev, key) (room_state db)")
    case None
    then show ?thesis
      using Some has by (simp add: apply_one_def fold_state_def Let_def state_key_def
          has_key_find_row state_key_of_def)
  next
    case (Some s)
    then show ?thesis
      using \<open>ev_state_key ev = Some key\<close> has
      by (simp add: apply_one_def fold_state_def Let_def state_key_def has_key_find_row
          upd_rows_state_keys)
  qed
qed

lemma apply_one_keys_distinct:
  "distinct (map state_key_of (room_state db)) \<Longrightarrow>
   distinct (map state_key_of (room_state (apply_one cx db ev)))"
  by (simp add: apply_one_keys has_key_def split: option.splits)

lemma foldl_keys_distinct:
  "distinct (map state_key_of (room_state db)) \<Longrightarrow>
   distinct (map state_key_of (room_state (foldl (apply_one cx) db evs)))"
  by (induction evs arbitrary: db) (simp_all add: apply_one_keys_distinct)

lemma foldl_keys_known:
  assumes "\<forall>ev\<in>set evs. \<forall>k. state_key ev = Some k \<longrightarrow> has_key state_key_of k (room_state db)"
  shows "map state_key_of (room_state (foldl (apply_one cx) db evs)) =
    map state_key_of (room_state db)"
  using assms
proof (induction evs arbitrary: db)
  case Nil
  then show ?case by simp
next
  case (Cons ev evs)
  have eq: "map state_key_of (room_state (apply_one cx db ev)) = map state_key_of (room_state db)"
    using Cons.prems by (auto simp: apply_one_keys split: option.splits)
  then have "\<forall>ev'\<in>set evs. \<forall>k. state_key ev' = Some k \<longrightarrow>
      has_key state_key_of k (room_state (apply_one cx db ev))"
    using Cons.prems by (auto simp: has_key_def simp del: set_map)
  from Cons.IH [OF this] eq show ?case by simp
qed

text \<open>Rows with distinct keys are determined by their keys, in order, and the map they form.\<close>

lemma state_rows_eq:
  assumes "map state_key_of xs = map state_key_of ys" "distinct (map state_key_of xs)"
    and "\<And>k. map_option (\<lambda>s. (s_event_id s, s_depth s)) (find_row state_key_of k xs) =
             map_option (\<lambda>s. (s_event_id s, s_depth s)) (find_row state_key_of k ys)"
  shows "xs = ys"
proof (rule nth_equalityI)
  show len: "length xs = length ys" using assms(1) by (metis length_map)
  fix i assume i: "i < length xs"
  have key: "state_key_of (xs ! i) = state_key_of (ys ! i)"
    using assms(1) i len by (metis nth_map)
  have "find_row state_key_of (state_key_of (xs ! i)) xs = Some (xs ! i)"
    using assms(2) i by (simp add: find_row_distinct)
  moreover have "find_row state_key_of (state_key_of (xs ! i)) ys = Some (ys ! i)"
    using assms(1,2) i len key by (simp add: find_row_distinct)
  ultimately have "s_event_id (xs ! i) = s_event_id (ys ! i)" "s_depth (xs ! i) = s_depth (ys ! i)"
    using assms(3) [of "state_key_of (xs ! i)"] by simp_all
  with key show "xs ! i = ys ! i" by (simp add: state_key_of_def)
qed

lemma has_key_state_map: "has_key state_key_of k (room_state db) \<longleftrightarrow> state_map db k \<noteq> None"
  by (simp add: has_key_find_row state_map_def)

lemma foldl_apply_replay:
  assumes "distinct (map state_key_of (room_state db))"
  shows "foldl (apply_one cx) (foldl (apply_one cx) db evs) evs = foldl (apply_one cx) db evs"
proof -
  let ?db = "foldl (apply_one cx) db evs" and ?db2 = "foldl (apply_one cx) (foldl (apply_one cx) db evs) evs"
  have "events ?db2 = events ?db"
    by (simp add: events_foldl log_add_known log_add_ids)
  moreover have "room_state ?db2 = room_state ?db"
  proof (rule state_rows_eq [symmetric])
    have "\<forall>ev\<in>set evs. \<forall>k. state_key ev = Some k \<longrightarrow> has_key state_key_of k (room_state ?db)"
      using room_log.present by (fastforce simp: has_key_state_map)
    then show "map state_key_of (room_state ?db) = map state_key_of (room_state ?db2)"
      by (rule foldl_keys_known [symmetric])
    show "distinct (map state_key_of (room_state ?db))"
      using assms by (rule foldl_keys_distinct)
    show "map_option (\<lambda>s. (s_event_id s, s_depth s)) (find_row state_key_of k (room_state ?db)) =
        map_option (\<lambda>s. (s_event_id s, s_depth s)) (find_row state_key_of k (room_state ?db2))" for k
      using fun_cong [OF room_log.replay, of cx db evs k] by (simp add: state_map_def)
  qed
  moreover have "sync_token ?db2 = sync_token ?db" "pending_sends_tab ?db2 = pending_sends_tab ?db"
    by (simp_all add: foldl_apply_frame)
  ultimately show ?thesis by simp
qed

lemma apply_events_replay_eq:
  assumes "distinct (map state_key_of (room_state db))" "apply_events cx db evs = Inr (db', n)"
  shows "apply_events cx db' evs = Inr (db', 0)"
  using assms by (auto simp: apply_events_Inr foldl_apply_replay)

section \<open>Which events are accepted\<close>

text \<open>The fields a wire event must have, with their types.\<close>

definition wire_ok :: "json \<Rightarrow> bool" where
  "wire_ok v \<longleftrightarrow>
     (\<forall>k\<in>{''event_id'', ''room_id'', ''sender'', ''type''}. \<exists>s. jget v k = Some (JStr s)) \<and>
     (\<forall>k\<in>{''origin_server_ts'', ''depth''}. \<exists>w i. jget v k = Some w \<and> as_i64 w = Some i)"

lemma jindex_JStr: "jindex v k = JStr s \<longleftrightarrow> jget v k = Some (JStr s)"
  by (simp add: jindex_def split: option.splits)

lemma as_i64_jindex: "as_i64 (jindex v k) = Some i \<longleftrightarrow> (\<exists>w. jget v k = Some w \<and> as_i64 w = Some i)"
  by (auto simp: jindex_def split: option.splits)

lemma str_field_Inr [simp]: "str_field v k = Inr s \<longleftrightarrow> jget v k = Some (JStr s)"
  by (simp add: str_field_def jindex_JStr)

lemma int_field_Inr [simp]: "int_field v k = Inr i \<longleftrightarrow> (\<exists>w. jget v k = Some w \<and> as_i64 w = Some i)"
  by (simp add: int_field_def as_i64_jindex)

lemma str_field_Inl: "str_field v k = Inl e \<Longrightarrow> \<exists>r. e = MalformedEvent r"
  by (auto simp: str_field_def)

lemma int_field_Inl: "int_field v k = Inl e \<Longrightarrow> \<exists>r. e = MalformedEvent r"
  by (auto simp: int_field_def)

lemma from_wire_Inr_iff: "(\<exists>ev. from_wire v = Inr ev) \<longleftrightarrow> wire_ok v"
  unfolding from_wire_def wire_ok_def by (auto simp: then_ok_Inr_iff)

lemma from_wire_Inl: "from_wire v = Inl e \<Longrightarrow> \<exists>r. e = MalformedEvent r"
  unfolding from_wire_def then_ok_def
  by (auto split: sum.splits dest: str_field_Inl int_field_Inl)

lemma collect_from_wire_Inl: "collect_res from_wire evs = Inl e \<Longrightarrow> \<exists>r. e = MalformedEvent r"
  by (induction evs) (auto split: sum.splits dest: from_wire_Inl)

lemma collect_from_wire_ok: "(\<exists>ps. collect_res from_wire evs = Inr ps) \<longleftrightarrow> (\<forall>v\<in>set evs. wire_ok v)"
proof (induction evs)
  case (Cons v evs)
  then show ?case
    using from_wire_Inr_iff [of v] by (auto split: sum.splits)
qed simp

end
