(* ===== verification/Store_Inv.thy ===== *)
theory Store_Inv
  imports Store_Log
begin

text \<open>
  The well-formedness invariant of the store and its preservation.  \<open>store_step\<close> has one rule per
  mutating method of \<open>Store\<close>; \<open>reachable\<close> are the stores a client can produce from the empty one.
  The invariant says: keys are unique, current state refers to logged events, every payload parses
  back to an event that agrees with its row's columns, only the three send states and decryption
  states occur, and the echoes marked \<open>Sending\<close> are exactly the queued sends.
\<close>

section \<open>The invariant\<close>

text \<open>A row whose stored text is the event its columns say.\<close>

definition coherent :: "'t codec \<Rightarrow> 't event_row \<Rightarrow> bool" where
  "coherent cx r \<longleftrightarrow>
     (\<exists>v ev. canon cx (r_payload r) v \<and> from_wire v = Inr ev \<and>
        ev_event_id ev = r_event_id r \<and> ev_room_id ev = r_room_id r \<and> ev_sender ev = r_sender r \<and>
        ev_event_type ev = r_type r \<and> ev_state_key ev = r_state_key r \<and>
        ev_origin_server_ts ev = r_ts r \<and> ev_depth ev = r_depth r)"

definition row_states_ok :: "'t event_row \<Rightarrow> bool" where
  "row_states_ok r \<longleftrightarrow> r_local r \<in> {0, 1, 2} \<and> r_decrypt_state r \<in> {0, 1, 2} \<and>
     (r_decrypted r \<noteq> None \<longrightarrow> r_decrypt_state r \<noteq> 0)"

text \<open>The echo of a queued send.\<close>

definition echoes :: "pending_row \<Rightarrow> 't event_row \<Rightarrow> bool" where
  "echoes p r \<longleftrightarrow> r_event_id r = p_event_id p \<and> r_local r = 1 \<and> r_room_id r = p_room_id p \<and>
     r_type r = ''p.room.message'' \<and> r_ts r = p_created_ts p"

definition keys_inv :: "'t db \<Rightarrow> bool" where
  "keys_inv db \<longleftrightarrow> distinct (map r_event_id (events db)) \<and>
     distinct (map state_key_of (room_state db)) \<and>
     distinct (map p_txn_id (pending_sends_tab db)) \<and>
     distinct (map p_event_id (pending_sends_tab db))"

definition fk_inv :: "'t db \<Rightarrow> bool" where
  "fk_inv db \<longleftrightarrow> (\<forall>s\<in>set (room_state db). has_event db (s_event_id s))"

definition rows_inv :: "'t codec \<Rightarrow> 't db \<Rightarrow> bool" where
  "rows_inv cx db \<longleftrightarrow> (\<forall>r\<in>set (events db). coherent cx r \<and> row_states_ok r)"

definition queue_inv :: "'t db \<Rightarrow> bool" where
  "queue_inv db \<longleftrightarrow>
     (\<forall>p\<in>set (pending_sends_tab db). \<exists>r\<in>set (events db). echoes p r) \<and>
     (\<forall>r\<in>set (events db). r_local r = 1 \<longrightarrow> (\<exists>p\<in>set (pending_sends_tab db). echoes p r))"

definition db_inv :: "'t codec \<Rightarrow> 't db \<Rightarrow> bool" where
  "db_inv cx db \<longleftrightarrow> keys_inv db \<and> fk_inv db \<and> rows_inv cx db \<and> queue_inv db"

lemmas inv_defs = db_inv_def keys_inv_def fk_inv_def rows_inv_def queue_inv_def

text \<open>
  The invariant with any condition \<open>good\<close> on rows in place of coherence.  \<open>shape_inv\<close> has none: it is
  what holds even if the text of a payload does not read back as the event (a number with a fraction,
  say).
\<close>

definition rows_with :: "('t event_row \<Rightarrow> bool) \<Rightarrow> 't db \<Rightarrow> bool" where
  "rows_with good db \<longleftrightarrow> (\<forall>r\<in>set (events db). good r \<and> row_states_ok r)"

definition inv_with :: "('t event_row \<Rightarrow> bool) \<Rightarrow> 't db \<Rightarrow> bool" where
  "inv_with good db \<longleftrightarrow> keys_inv db \<and> fk_inv db \<and> rows_with good db \<and> queue_inv db"

definition shape_inv :: "'t db \<Rightarrow> bool" where
  "shape_inv = inv_with (\<lambda>_. True)"

lemma db_inv_with: "db_inv cx = inv_with (coherent cx)"
  by (simp add: fun_eq_iff db_inv_def inv_with_def rows_inv_def rows_with_def)

lemma db_inv_shape: "db_inv cx db \<Longrightarrow> shape_inv db"
  by (simp add: db_inv_with shape_inv_def inv_with_def rows_with_def)

lemma db_inv_empty: "db_inv cx empty_db"
  by (simp add: inv_defs empty_db_def)

section \<open>Appending synced events\<close>

lemma fresh_row_ok [simp]: "row_states_ok (row_of_event cx ev)"
  by (simp add: row_states_ok_def row_of_event_def)

lemma row_of_event_local [simp]: "r_local (row_of_event cx ev) = 0"
  by (simp add: row_of_event_def)

lemma from_wire_payload:
  assumes "from_wire v = Inr ev"
  shows "ev_payload ev = v" "ev_send_state ev = Confirmed" "ev_decrypted ev = None"
    "ev_decrypt_failed ev = False"
  using assms by (auto simp: from_wire_def then_ok_Inr_iff)

lemma coherent_row_of_event:
  assumes "from_wire v = Inr ev" "storable v"
  shows "coherent cx (row_of_event cx ev)"
  unfolding coherent_def
  using assms canon_enc [OF assms(2), of cx] from_wire_payload(1) [OF assms(1)]
  by (intro exI [of _ v] exI [of _ ev]) (simp add: row_of_event_def)

lemma state_rows_fold:
  assumes "fold_state db ev = Inr db'"
  shows "\<forall>s\<in>set (room_state db'). s \<in> set (room_state db) \<or> s_event_id s = ev_event_id ev"
  using assms
  by (auto simp: fold_state_def Let_def split: option.splits if_splits)

lemma state_rows_apply_one:
  "\<forall>s\<in>set (room_state (apply_one cx db ev)).
     s \<in> set (room_state db) \<or> s_event_id s = ev_event_id ev"
proof (cases "fold_state (fst (insert_event cx db ev)) ev")
  case (Inl e)
  then show ?thesis by (simp add: apply_one_def)
next
  case (Inr db2)
  then show ?thesis using state_rows_fold [OF Inr] by (simp add: apply_one_def)
qed

lemma has_event_apply_one:
  "has_event (apply_one cx db ev) eid \<longleftrightarrow> has_event db eid \<or> eid = ev_event_id ev"
  by (auto simp: has_event_def has_key_iff insert_event_def)

section \<open>Updates of single rows\<close>

lemma upd_event_simps [simp]:
  "room_state (upd_event db eid f) = room_state db"
  "pending_sends_tab (upd_event db eid f) = pending_sends_tab db"
  "sync_token (upd_event db eid f) = sync_token db"
  "events (upd_event db eid f) = upd_rows (\<lambda>r. r_event_id r = eid) f (events db)"
  by (simp_all add: upd_event_def)

text \<open>An update of decryption columns keeps the invariant.\<close>

definition decrypt_update :: "('t event_row \<Rightarrow> 't event_row) \<Rightarrow> bool" where
  "decrypt_update f \<longleftrightarrow> (\<exists>dec st. st \<in> {1, 2} \<and>
     (f = (\<lambda>r. r\<lparr>r_decrypted := Some dec, r_decrypt_state := st\<rparr>) \<or>
      f = (\<lambda>r. r\<lparr>r_decrypt_state := st\<rparr>)))"

lemma decrypt_update_frame:
  assumes "decrypt_update f"
  shows "r_event_id (f r) = r_event_id r" "coherent cx (f r) = coherent cx r"
    "row_states_ok r \<Longrightarrow> row_states_ok (f r)" "r_local (f r) = r_local r"
    "echoes p (f r) = echoes p r"
  using assms by (auto simp: decrypt_update_def coherent_def row_states_ok_def echoes_def)

section \<open>Queueing a send\<close>

lemma wire_range: "from_wire v = Inr ev \<Longrightarrow> i64_min \<le> ev_depth ev \<and> ev_depth ev \<le> i64_max"
  by (auto simp: from_wire_def then_ok_Inr_iff dest!: as_i64_range)

lemma foldr_max_mem: "foldr max ds d \<in> insert (d::int) (set ds)"
  by (induction ds) (auto simp: max_def)

lemma foldr_max_ge: "(d::int) \<le> foldr max ds d" "x \<in> set ds \<Longrightarrow> x \<le> foldr max ds d"
  by (induction ds) (auto simp: max_def)

lemma max_depth_ge:
  assumes "r \<in> set (events db)" "r_room_id r = room"
  shows "r_depth r \<le> max_depth db room"
proof (cases "map r_depth (filter (\<lambda>r. r_room_id r = room) (events db))")
  case Nil
  then show ?thesis using assms by (auto simp: filter_empty_conv)
next
  case (Cons d ds)
  have "r_depth r \<in> set (map r_depth (filter (\<lambda>r. r_room_id r = room) (events db)))"
    using assms by auto
  with Cons have "r_depth r = d \<or> r_depth r \<in> set ds" by simp
  then show ?thesis
    using foldr_max_ge [of d ds] foldr_max_ge(2) [of "r_depth r" ds d] Cons
    by (auto simp: max_depth_def)
qed

lemma max_depth_range:
  assumes "\<forall>r\<in>set (events db). coherent cx r"
  shows "i64_min \<le> max_depth db room" "max_depth db room \<le> i64_max"
proof -
  have r: "i64_min \<le> r_depth r \<and> r_depth r \<le> i64_max" if "r \<in> set (events db)" for r
    using assms that wire_range by (fastforce simp: coherent_def)
  have "max_depth db room = 0 \<or> (\<exists>r\<in>set (events db). max_depth db room = r_depth r)"
  proof (cases "map r_depth (filter (\<lambda>r. r_room_id r = room) (events db))")
    case Nil
    then show ?thesis by (simp add: max_depth_def)
  next
    case (Cons d ds)
    have "max_depth db room \<in> set (d # ds)"
      using foldr_max_mem [of ds d] Cons by (simp add: max_depth_def)
    then have "max_depth db room \<in> set (map r_depth (filter (\<lambda>r. r_room_id r = room) (events db)))"
      using Cons by simp
    then show ?thesis by auto
  qed
  then show "i64_min \<le> max_depth db room" "max_depth db room \<le> i64_max"
    using r by (auto simp: i64_min_def i64_max_def)
qed

lemma storable_echo: "storable (echo_payload eid room sender ts depth body)"
  by (simp add: storable_def echo_payload_def json_i64_def)

definition echo_event :: "string \<Rightarrow> string \<Rightarrow> string \<Rightarrow> int \<Rightarrow> int \<Rightarrow> string \<Rightarrow> stored_event" where
  "echo_event eid room sender ts depth body =
     \<lparr> ev_event_id = eid, ev_room_id = room, ev_sender = sender,
       ev_event_type = ''p.room.message'', ev_state_key = None, ev_origin_server_ts = ts,
       ev_depth = depth, ev_content = JObj [(''body'', JStr body), (''msgtype'', JStr ''p.text'')],
       ev_payload = echo_payload eid room sender ts depth body,
       ev_send_state = Confirmed, ev_decrypted = None, ev_decrypt_failed = False \<rparr>"

lemma from_wire_echo:
  assumes "i64_min \<le> ts" "ts \<le> i64_max" "i64_min \<le> d" "d \<le> i64_max"
  shows "from_wire (echo_payload eid room sender ts d body) =
    Inr (echo_event eid room sender ts d body)"
  using assms
  by (simp add: from_wire_def echo_payload_def str_field_def int_field_def jindex_def echo_event_def)

text \<open>The state a successful \<open>queue_send\<close> leaves.\<close>

definition echo_row ::
  "'t codec \<Rightarrow> string \<Rightarrow> string \<Rightarrow> string \<Rightarrow> int \<Rightarrow> int \<Rightarrow> string \<Rightarrow> 't event_row" where
  "echo_row cx eid room sender ts depth body =
     \<lparr> r_event_id = eid, r_room_id = room, r_sender = sender, r_type = ''p.room.message'',
       r_state_key = None, r_ts = ts, r_depth = depth,
       r_payload = enc cx (echo_payload eid room sender ts depth body),
       r_local = 1, r_decrypted = None, r_decrypt_state = 0 \<rparr>"

lemma queue_send_Inr:
  "queue_send cx db n id_ts ts room sender body = Inr (db', txn) \<longleftrightarrow>
     (let eid = snd (next_send_ids n id_ts); d = max_depth db room + 1
      in txn = fst (next_send_ids n id_ts) \<and> d \<le> i64_max \<and> \<not> has_event db eid \<and>
         \<not> has_key p_txn_id txn (pending_sends_tab db) \<and>
         db' = db\<lparr>events := events db @ [echo_row cx eid room sender ts d body],
                  pending_sends_tab := pending_sends_tab db @
                    [\<lparr> p_txn_id = txn, p_room_id = room, p_body = body, p_event_id = eid,
                       p_created_ts = ts \<rparr>]\<rparr>)"
  by (auto simp: queue_send_def echo_depth_def echo_row_def Let_def split: prod.splits)

section \<open>Resolving and failing a send\<close>

lemma dequeue_simps [simp]:
  "events (dequeue db txn) = events db"
  "room_state (dequeue db txn) = room_state db"
  "sync_token (dequeue db txn) = sync_token db"
  "pending_sends_tab (dequeue db txn) = filter (\<lambda>p. p_txn_id p \<noteq> txn) (pending_sends_tab db)"
  by (simp_all add: dequeue_def)

lemma has_event_dequeue [simp]: "has_event (dequeue db txn) = has_event db"
  by (rule ext) (simp add: has_event_def)

text \<open>Removing a queued send keeps the queue invariant if only its own echo was touched.\<close>

lemma queue_drop:
  assumes "queue_inv db" "keys_inv db" "p \<in> set (pending_sends_tab db)"
    and kept: "\<forall>r\<in>set (events db). r_event_id r \<noteq> p_event_id p \<longrightarrow> r \<in> set evs"
    and local: "\<forall>r\<in>set evs. r_local r = 1 \<longrightarrow> r \<in> set (events db) \<and> r_event_id r \<noteq> p_event_id p"
  shows "queue_inv (dequeue (db\<lparr>events := evs\<rparr>) (p_txn_id p))"
proof -
  have same: "q = p" if "q \<in> set (pending_sends_tab db)" "p_txn_id q = p_txn_id p \<or> p_event_id q = p_event_id p" for q
    using assms(2,3) that distinct_key_eq [of p_txn_id "pending_sends_tab db" q p]
      distinct_key_eq [of p_event_id "pending_sends_tab db" q p]
    by (auto simp: keys_inv_def)
  have "\<exists>r\<in>set evs. echoes q r" if q: "q \<in> set (pending_sends_tab db)" "p_txn_id q \<noteq> p_txn_id p" for q
  proof -
    obtain r where r: "r \<in> set (events db)" "echoes q r"
      using assms(1) q(1) by (auto simp: queue_inv_def)
    moreover have "p_event_id q \<noteq> p_event_id p" using same q by blast
    ultimately show ?thesis using kept by (auto simp: echoes_def)
  qed
  moreover have "\<exists>q\<in>set (pending_sends_tab db). p_txn_id q \<noteq> p_txn_id p \<and> echoes q r"
    if r: "r \<in> set evs" "r_local r = 1" for r
  proof -
    have "r \<in> set (events db)" "r_event_id r \<noteq> p_event_id p" using local r by auto
    then obtain q where "q \<in> set (pending_sends_tab db)" "echoes q r"
      using assms(1) r(2) by (auto simp: queue_inv_def)
    moreover from this have "p_event_id q \<noteq> p_event_id p"
      using \<open>r_event_id r \<noteq> p_event_id p\<close> by (simp add: echoes_def)
    then have "p_txn_id q \<noteq> p_txn_id p" using same \<open>q \<in> set (pending_sends_tab db)\<close> by blast
    ultimately show ?thesis by blast
  qed
  ultimately show ?thesis by (auto simp: queue_inv_def)
qed

lemma dequeue_absent:
  "find_row p_txn_id txn (pending_sends_tab db) = None \<Longrightarrow> dequeue db txn = db"
  by (auto simp: dequeue_def find_row_None intro!: db.equality filter_True)

lemma keys_dequeue:
  "keys_inv db \<Longrightarrow> keys_inv (dequeue db txn)"
  by (auto simp: keys_inv_def distinct_map_filter_key)

lemma from_wire_rename:
  assumes "from_wire (JObj kvs) = Inr ev"
  shows "from_wire (JObj (obj_insert ''event_id'' (JStr real) kvs)) =
    Inr (ev\<lparr>ev_event_id := real, ev_payload := JObj (obj_insert ''event_id'' (JStr real) kvs)\<rparr>)"
proof -
  let ?v = "JObj (obj_insert ''event_id'' (JStr real) kvs)"
  have other: "jindex ?v k = jindex (JObj kvs) k" if "k \<noteq> ''event_id''" for k
    using that by simp
  then have f: "str_field ?v k = str_field (JObj kvs) k" "int_field ?v k = int_field (JObj kvs) k"
    if "k \<noteq> ''event_id''" for k
    using that by (simp_all add: str_field_def int_field_def)
  have "str_field ?v ''event_id'' = Inr real" by simp
  then show ?thesis
    using assms unfolding from_wire_def
    by (simp add: f then_ok_Inr_iff del: str_field_Inr int_field_Inr)
       (auto simp del: str_field_Inr int_field_Inr)
qed

lemma from_wire_object: "from_wire v = Inr ev \<Longrightarrow> \<exists>kvs. v = JObj kvs"
  by (cases v) (auto simp: from_wire_def then_ok_Inr_iff)

lemma coherent_rename:
  assumes "coherent cx r" "jset cx (r_payload r) ''event_id'' real = Inr pl"
  shows "coherent cx (r\<lparr>r_event_id := real, r_local := 0, r_payload := pl\<rparr>)"
proof -
  obtain v ev where v: "canon cx (r_payload r) v" "from_wire v = Inr ev"
      "ev_room_id ev = r_room_id r" "ev_sender ev = r_sender r" "ev_event_type ev = r_type r"
      "ev_state_key ev = r_state_key r" "ev_origin_server_ts ev = r_ts r" "ev_depth ev = r_depth r"
    using assms(1) by (auto simp: coherent_def)
  obtain kvs where kvs: "v = JObj kvs" using from_wire_object [OF v(2)] by blast
  show ?thesis
    unfolding coherent_def
    using canon_set [OF v(1) [unfolded kvs] assms(2)] from_wire_rename [OF v(2) [unfolded kvs], of real] v
    by (intro exI [of _ "JObj (obj_insert ''event_id'' (JStr real) kvs)"] exI) auto
qed

lemma keep_plaintext_pending [simp]:
  "pending_sends_tab (keep_plaintext db real body) = pending_sends_tab db"
  by (simp add: keep_plaintext_def)

lemma coherent_local: "coherent cx (r\<lparr>r_local := l\<rparr>) = coherent cx r"
  by (simp add: coherent_def)

section \<open>What the operations ask of a condition on rows\<close>

text \<open>
  A condition on rows that every row the store writes meets: rows of synced events (those that
  \<open>accepts\<close> admits), echoes, and what decrypting, failing and resolving make of a row.
\<close>

locale row_laws =
  fixes cx :: "'t codec" and good :: "'t event_row \<Rightarrow> bool" and accepts :: "json \<Rightarrow> bool"
  assumes good_synced: "from_wire v = Inr ev \<Longrightarrow> accepts v \<Longrightarrow> good (row_of_event cx ev)"
    and good_decrypt: "decrypt_update f \<Longrightarrow> good r \<Longrightarrow> good (f r)"
    and good_echo: "\<forall>r\<in>set (events db). good r \<Longrightarrow> max_depth db room + 1 \<le> i64_max \<Longrightarrow> i64_min \<le> ts \<Longrightarrow> ts \<le> i64_max \<Longrightarrow>
      good (echo_row cx eid room sender ts (max_depth db room + 1) body)"
    and good_local: "good r \<Longrightarrow> good (r\<lparr>r_local := l\<rparr>)"
    and good_rename: "good r \<Longrightarrow> jset cx (r_payload r) ''event_id'' real = Inr pl \<Longrightarrow>
      good (r\<lparr>r_event_id := real, r_local := 0, r_payload := pl\<rparr>)"
begin

lemma apply_one_kept:
  assumes "inv_with good db" "from_wire v = Inr ev" "accepts v"
  shows "inv_with good (apply_one cx db ev)"
proof -
  let ?db = "apply_one cx db ev"
  have ev: "events ?db = (if has_event db (ev_event_id ev) then events db
      else events db @ [row_of_event cx ev])"
    by (simp add: insert_event_def)
  have "keys_inv ?db"
    using assms(1) by (auto simp: inv_with_def keys_inv_def apply_one_keys_distinct insert_event_def
        has_event_def has_key_iff)
  moreover have "fk_inv ?db"
    using assms(1) state_rows_apply_one [of cx db ev]
    by (auto simp: inv_with_def fk_inv_def has_event_apply_one)
  moreover have "rows_with good ?db"
    unfolding rows_with_def ev
    using assms(1) good_synced [OF assms(2,3)] by (auto simp: inv_with_def rows_with_def)
  moreover have "queue_inv ?db"
  proof (cases "has_event db (ev_event_id ev)")
    case True
    then show ?thesis using assms(1) unfolding inv_with_def queue_inv_def apply_one_frame ev by simp
  next
    case False
    have q: "queue_inv db" using assms(1) by (simp add: inv_with_def)
    show ?thesis
      using q False unfolding queue_inv_def apply_one_frame ev by simp
  qed
  ultimately show ?thesis by (simp add: inv_with_def)
qed

lemma foldl_apply_kept:
  assumes "inv_with good db" "\<forall>ev\<in>set evs. \<exists>v. from_wire v = Inr ev \<and> accepts v"
  shows "inv_with good (foldl (apply_one cx) db evs)"
  using assms by (induction evs arbitrary: db) (auto intro: apply_one_kept)

lemma apply_events_kept:
  assumes "inv_with good db" "apply_events cx db evs = Inr (db', n)" "\<forall>v\<in>set evs. accepts v"
  shows "inv_with good db'"
proof -
  obtain parsed where p: "collect_res from_wire evs = Inr parsed" "db' = foldl (apply_one cx) db parsed"
    using assms(2) by (auto simp: apply_events_Inr)
  have "list_all2 (\<lambda>v ev. from_wire v = Inr ev) evs parsed"
    using p(1) by (simp add: collect_res_Inr_iff)
  then have "\<forall>ev\<in>set parsed. \<exists>v\<in>set evs. from_wire v = Inr ev"
    by (auto simp: list_all2_conv_all_nth in_set_conv_nth [of _ parsed]) (metis nth_mem)
  with assms(3) have "\<forall>ev\<in>set parsed. \<exists>v. from_wire v = Inr ev \<and> accepts v" by blast
  with assms(1) p(2) show ?thesis by (simp add: foldl_apply_kept)
qed

lemma decrypt_rows_kept:
  assumes "inv_with good db" "decrypt_update f"
  shows "inv_with good (db\<lparr>events := upd_rows q f (events db)\<rparr>)"
proof -
  note fr = decrypt_update_frame [OF assms(2)]
  have keys: "map r_event_id (upd_rows q f (events db)) = map r_event_id (events db)"
    by (rule upd_rows_keys) (simp add: fr)
  have "keys_inv (db\<lparr>events := upd_rows q f (events db)\<rparr>)"
    using assms(1) keys by (simp add: inv_with_def keys_inv_def)
  moreover have "fk_inv (db\<lparr>events := upd_rows q f (events db)\<rparr>)"
    using assms(1) keys by (simp add: inv_with_def fk_inv_def has_event_def has_key_def del: set_map)
  moreover have "rows_with good (db\<lparr>events := upd_rows q f (events db)\<rparr>)"
    using assms(1) good_decrypt [OF assms(2)] by (auto simp: inv_with_def rows_with_def fr)
  moreover have "queue_inv (db\<lparr>events := upd_rows q f (events db)\<rparr>)"
  proof -
    have q: "queue_inv db" using assms(1) by (simp add: inv_with_def)
    have "\<exists>r'\<in>set (upd_rows q f (events db)). echoes p r'" if "r \<in> set (events db)" "echoes p r" for p r
      using that fr(5) [of p r] by (intro bexI [of _ "if q r then f r else r"]) auto
    moreover have "\<exists>r\<in>set (events db). r' = r \<or> r' = f r" if "r' \<in> set (upd_rows q f (events db))" for r'
      using that by (auto split: if_splits)
    ultimately show ?thesis
      using q unfolding queue_inv_def by (simp del: set_upd_rows) (metis fr(4) fr(5))
  qed
  ultimately show ?thesis by (simp add: inv_with_def)
qed

lemma set_decrypted_kept: "inv_with good db \<Longrightarrow> inv_with good (set_decrypted db eid pt)"
  unfolding set_decrypted_def upd_event_def
  by (rule decrypt_rows_kept) (auto simp: decrypt_update_def DECRYPT_OK_def)

lemma set_decrypt_failed_kept: "inv_with good db \<Longrightarrow> inv_with good (set_decrypt_failed db eid)"
  unfolding set_decrypt_failed_def upd_event_def
  by (rule decrypt_rows_kept) (auto simp: decrypt_update_def DECRYPT_FAILED_def)

lemma set_commit_processed_kept: "inv_with good db \<Longrightarrow> inv_with good (set_commit_processed db eid)"
  unfolding set_commit_processed_def upd_event_def
  by (rule decrypt_rows_kept) (auto simp: decrypt_update_def DECRYPT_OK_def)

lemma keep_plaintext_kept: "inv_with good db \<Longrightarrow> inv_with good (keep_plaintext db eid body)"
  unfolding keep_plaintext_def
  by (rule decrypt_rows_kept) (auto simp: decrypt_update_def DECRYPT_OK_def)

lemma save_sync_token_kept: "inv_with good db \<Longrightarrow> inv_with good (save_sync_token db token)"
  by (simp add: save_sync_token_def inv_with_def keys_inv_def fk_inv_def rows_with_def queue_inv_def has_event_def)

lemma queue_send_kept:
  assumes inv: "inv_with good db" and q: "queue_send cx db n id_ts ts room sender body = Inr (db', txn)"
    and ts: "i64_min \<le> ts" "ts \<le> i64_max"
  shows "inv_with good db'"
proof -
  let ?eid = "snd (next_send_ids n id_ts)" and ?d = "max_depth db room + 1"
  let ?r = "echo_row cx ?eid room sender ts ?d body"
  let ?p = "\<lparr> p_txn_id = txn, p_room_id = room, p_body = body, p_event_id = ?eid, p_created_ts = ts \<rparr>"
  from q have d: "?d \<le> i64_max" and fresh: "\<not> has_event db ?eid"
      and txn: "\<not> has_key p_txn_id txn (pending_sends_tab db)"
      and db': "db' = db\<lparr>events := events db @ [?r], pending_sends_tab := pending_sends_tab db @ [?p]\<rparr>"
    by (auto simp: queue_send_Inr Let_def)
  have rows: "rows_with good db" and queue: "queue_inv db" and keys: "keys_inv db" and fk: "fk_inv db"
    using inv by (simp_all add: inv_with_def)
  have "good ?r" using good_echo [OF _ d ts] rows by (simp add: rows_with_def)
  then have "rows_with good db'"
    using rows by (auto simp: db' rows_with_def row_states_ok_def echo_row_def)
  moreover have "queue_inv db'"
    using queue unfolding queue_inv_def db' by (auto simp: echoes_def echo_row_def)
  moreover have "p_event_id p \<noteq> ?eid" if "p \<in> set (pending_sends_tab db)" for p
    using queue that fresh unfolding queue_inv_def echoes_def has_event_def has_key_iff
    by (metis imageI)
  then have "?eid \<notin> p_event_id ` set (pending_sends_tab db)" by (metis imageE)
  then have "keys_inv db'"
    using keys fresh txn by (auto simp: db' keys_inv_def has_event_def has_key_iff echo_row_def)
  moreover have "fk_inv db'"
    using fk by (auto simp: fk_inv_def db' has_event_def has_key_iff)
  ultimately show ?thesis by (simp add: inv_with_def)
qed

lemma delete_event_kept:
  assumes inv: "inv_with good db" and p: "p \<in> set (pending_sends_tab db)"
    and d: "delete_event db (p_event_id p) = Inr db'"
  shows "inv_with good (dequeue db' (p_txn_id p))"
proof -
  let ?evs = "filter (\<lambda>r. r_event_id r \<noteq> p_event_id p) (events db)"
  have db': "db' = db\<lparr>events := ?evs\<rparr>" and fkok: "has_event db (p_event_id p) \<longrightarrow> \<not> state_refers db (p_event_id p)"
    using d by (auto simp: delete_event_def split: if_splits)
  have "queue_inv (dequeue db' (p_txn_id p))"
    unfolding db' using inv p by (intro queue_drop) (auto simp: inv_with_def)
  moreover have "keys_inv (dequeue db' (p_txn_id p))"
    using inv by (auto simp: db' inv_with_def keys_inv_def distinct_map_filter_key)
  moreover have "fk_inv (dequeue db' (p_txn_id p))"
    unfolding fk_inv_def
  proof
    fix s assume "s \<in> set (room_state (dequeue db' (p_txn_id p)))"
    then have s: "s \<in> set (room_state db)" by (simp add: db')
    then have h: "has_event db (s_event_id s)" using inv by (simp add: inv_with_def fk_inv_def)
    then have "s_event_id s \<noteq> p_event_id p" using fkok s by (auto simp: state_refers_def)
    with h show "has_event (dequeue db' (p_txn_id p)) (s_event_id s)"
      by (auto simp: db' has_event_def has_key_iff image_iff)
  qed
  moreover have "rows_with good (dequeue db' (p_txn_id p))"
    using inv by (simp add: db' inv_with_def rows_with_def)
  ultimately show ?thesis by (simp add: inv_with_def)
qed

lemma promote_echo_kept:
  assumes inv: "inv_with good db" and p: "p \<in> set (pending_sends_tab db)"
    and new: "\<not> has_event db real" and d: "promote_echo cx db (p_event_id p) real = Inr db'"
  shows "inv_with good (dequeue db' (p_txn_id p))"
proof -
  let ?pe = "p_event_id p"
  have keys: "keys_inv db" and queue: "queue_inv db" and rows: "rows_with good db" and fk: "fk_inv db"
    using inv by (simp_all add: inv_with_def)
  obtain r where r: "r \<in> set (events db)" "echoes p r" using queue p by (auto simp: queue_inv_def)
  then have "find_row r_event_id ?pe (events db) = Some r"
    using keys find_row_distinct [of r_event_id "events db" r] by (simp add: keys_inv_def echoes_def)
  with d obtain pl where pl: "jset cx (r_payload r) ''event_id'' real = Inr pl"
      and fkok: "\<not> state_refers db ?pe"
      and db': "db' = db\<lparr>events := upd_rows (\<lambda>r. r_event_id r = ?pe)
                   (\<lambda>r. r\<lparr>r_event_id := real, r_local := 0, r_payload := pl\<rparr>) (events db)\<rparr>"
    by (auto simp: promote_echo_def then_ok_Inr_iff split: if_splits)
  let ?f = "\<lambda>r. r\<lparr>r_event_id := real, r_local := 0, r_payload := pl\<rparr>"
  have only: "r' = r" if "r' \<in> set (events db)" "r_event_id r' = ?pe" for r'
    using that r keys distinct_key_eq [of r_event_id "events db" r' r]
    by (simp add: keys_inv_def echoes_def)
  have "queue_inv (dequeue db' (p_txn_id p))"
    unfolding db' using queue keys p by (intro queue_drop) auto
  moreover have "rows_with good (dequeue db' (p_txn_id p))"
    using rows r good_rename [of r real pl] pl only
    by (auto simp: db' rows_with_def row_states_ok_def)
  moreover have "distinct (map r_event_id (events db'))"
  proof -
    have "map r_event_id (events db') =
        map (\<lambda>i. if i = ?pe then real else i) (map r_event_id (events db))"
      by (simp add: db' upd_rows_def)
    moreover have "inj_on (\<lambda>i. if i = ?pe then real else i) (set (map r_event_id (events db)))"
      using new by (auto simp: inj_on_def has_event_def has_key_iff)
    ultimately show ?thesis
      using keys by (simp add: keys_inv_def distinct_map del: map_map)
  qed
  then have "keys_inv (dequeue db' (p_txn_id p))"
    using keys by (simp add: keys_inv_def db' distinct_map_filter_key)
  moreover have "has_event db' i" if "has_event db i" "i \<noteq> ?pe" for i
    using that by (auto simp: db' has_event_def has_key_iff image_iff)
  then have "fk_inv (dequeue db' (p_txn_id p))"
    using fk fkok unfolding fk_inv_def by (simp add: db' state_refers_def)
  ultimately show ?thesis by (simp add: inv_with_def)
qed

lemma resolve_send_kept:
  assumes inv: "inv_with good db" and r: "resolve_send cx db txn real = Inr db'"
  shows "inv_with good db'"
proof (cases "find_row p_txn_id txn (pending_sends_tab db)")
  case None
  then show ?thesis using r inv by (simp add: resolve_send_def dequeue_absent)
next
  case (Some p)
  then have p: "p \<in> set (pending_sends_tab db)" "p_txn_id p = txn"
    using find_row_Some_D [OF Some] by simp_all
  show ?thesis
  proof (cases "has_event db real")
    case True
    with r Some obtain db1 where "delete_event (keep_plaintext db real (p_body p)) (p_event_id p) = Inr db1"
        "db' = dequeue db1 txn"
      by (auto simp: resolve_send_def then_ok_Inr_iff)
    with delete_event_kept [OF keep_plaintext_kept [OF inv]] p show ?thesis by auto
  next
    case False
    with r Some obtain db1 where "promote_echo cx db (p_event_id p) real = Inr db1"
        "db' = dequeue db1 txn"
      by (auto simp: resolve_send_def then_ok_Inr_iff)
    with promote_echo_kept [OF inv p(1) False] p(2) show ?thesis by auto
  qed
qed

lemma fail_send_kept:
  assumes inv: "inv_with good db"
  shows "inv_with good (fail_send db txn)"
proof (cases "find_row p_txn_id txn (pending_sends_tab db)")
  case None
  then show ?thesis using inv by (simp add: fail_send_def dequeue_absent)
next
  case (Some p)
  then have p: "p \<in> set (pending_sends_tab db)" "p_txn_id p = txn"
    using find_row_Some_D [OF Some] by simp_all
  let ?evs = "upd_rows (\<lambda>r. r_event_id r = p_event_id p) (\<lambda>r. r\<lparr>r_local := 2\<rparr>) (events db)"
  have keys: "map r_event_id ?evs = map r_event_id (events db)"
    by (rule upd_rows_keys) simp
  have f: "fail_send db txn = dequeue (db\<lparr>events := ?evs\<rparr>) (p_txn_id p)"
    using Some p by (simp add: fail_send_def)
  have "queue_inv (fail_send db txn)"
    unfolding f using inv p by (intro queue_drop) (auto simp: inv_with_def)
  moreover have "keys_inv (fail_send db txn)"
    using inv keys by (simp add: f inv_with_def keys_inv_def distinct_map_filter_key)
  moreover have "fk_inv (fail_send db txn)"
    using inv keys by (simp add: f inv_with_def fk_inv_def has_event_def has_key_def del: set_map)
  moreover have "rows_with good (fail_send db txn)"
    using inv by (auto simp: f inv_with_def rows_with_def row_states_ok_def good_local)
  ultimately show ?thesis by (simp add: inv_with_def)
qed

end

text \<open>The two conditions: coherence, for events whose payload can be stored exactly, and none at all.\<close>

interpretation event_rows: row_laws cx "coherent cx" storable for cx :: "'t codec"
proof
  show "coherent cx (echo_row cx eid room sender ts (max_depth db room + 1) body)"
    if "\<forall>r\<in>set (events db). coherent cx r" "max_depth db room + 1 \<le> i64_max" "i64_min \<le> ts" "ts \<le> i64_max"
    for db :: "'t db" and room ts eid sender body
  proof -
    let ?d = "max_depth db room + 1"
    have e: "from_wire (echo_payload eid room sender ts ?d body) = Inr (echo_event eid room sender ts ?d body)"
      using max_depth_range(1) [OF that(1), of room] that(2-4) by (intro from_wire_echo) auto
    then show ?thesis
      unfolding coherent_def using canon_enc [OF storable_echo, of cx]
      by (intro exI [of _ "echo_payload eid room sender ts ?d body"]
          exI [of _ "echo_event eid room sender ts ?d body"]) (simp add: echo_row_def echo_event_def)
  qed
qed (simp_all add: coherent_row_of_event decrypt_update_frame coherent_local coherent_rename)

interpretation any_rows: row_laws cx "\<lambda>_. True" "\<lambda>_. True" for cx :: "'t codec"
  by unfold_locales simp_all

lemma set_decrypted_inv: "db_inv cx db \<Longrightarrow> db_inv cx (set_decrypted db eid pt)"
  unfolding db_inv_with by (rule event_rows.set_decrypted_kept)

lemma set_decrypt_failed_inv: "db_inv cx db \<Longrightarrow> db_inv cx (set_decrypt_failed db eid)"
  unfolding db_inv_with by (rule event_rows.set_decrypt_failed_kept)

lemma set_commit_processed_inv: "db_inv cx db \<Longrightarrow> db_inv cx (set_commit_processed db eid)"
  unfolding db_inv_with by (rule event_rows.set_commit_processed_kept)

lemma keep_plaintext_inv: "db_inv cx db \<Longrightarrow> db_inv cx (keep_plaintext db eid body)"
  unfolding db_inv_with by (rule event_rows.keep_plaintext_kept)

lemma save_sync_token_inv: "db_inv cx db \<Longrightarrow> db_inv cx (save_sync_token db token)"
  unfolding db_inv_with by (rule event_rows.save_sync_token_kept)

lemma apply_events_inv:
  "db_inv cx db \<Longrightarrow> apply_events cx db evs = Inr (db', n) \<Longrightarrow> \<forall>v\<in>set evs. storable v \<Longrightarrow> db_inv cx db'"
  unfolding db_inv_with by (rule event_rows.apply_events_kept)

lemma queue_send_inv:
  "db_inv cx db \<Longrightarrow> queue_send cx db n id_ts ts room sender body = Inr (db', txn) \<Longrightarrow> i64_min \<le> ts \<Longrightarrow> ts \<le> i64_max \<Longrightarrow>
     db_inv cx db'"
  unfolding db_inv_with by (rule event_rows.queue_send_kept)

lemma resolve_send_inv: "db_inv cx db \<Longrightarrow> resolve_send cx db txn real = Inr db' \<Longrightarrow> db_inv cx db'"
  unfolding db_inv_with by (rule event_rows.resolve_send_kept)

lemma fail_send_inv: "db_inv cx db \<Longrightarrow> db_inv cx (fail_send db txn)"
  unfolding db_inv_with by (rule event_rows.fail_send_kept)

section \<open>Reachable stores\<close>

inductive store_step :: "'t codec \<Rightarrow> 't db \<Rightarrow> 't db \<Rightarrow> bool" for cx :: "'t codec" where
  step_sync: "\<forall>v\<in>set evs. storable v \<Longrightarrow> apply_events cx db evs = Inr (db', n) \<Longrightarrow> store_step cx db db'"
| step_token: "store_step cx db (save_sync_token db token)"
| step_queue: "i64_min \<le> ts \<Longrightarrow> ts \<le> i64_max \<Longrightarrow>
    queue_send cx db c id_ts ts room sender body = Inr (db', txn) \<Longrightarrow> store_step cx db db'"
| step_resolve: "resolve_send cx db txn real = Inr db' \<Longrightarrow> store_step cx db db'"
| step_fail: "store_step cx db (fail_send db txn)"
| step_decrypted: "store_step cx db (set_decrypted db eid plaintext)"
| step_undecryptable: "store_step cx db (set_decrypt_failed db eid)"
| step_commit: "store_step cx db (set_commit_processed db eid)"

inductive reachable :: "'t codec \<Rightarrow> 't db \<Rightarrow> bool" for cx :: "'t codec" where
  reach_empty: "reachable cx empty_db"
| reach_step: "reachable cx db \<Longrightarrow> store_step cx db db' \<Longrightarrow> reachable cx db'"

inductive_cases store_stepE: "store_step cx db db'"

lemmas step_invs = apply_events_inv save_sync_token_inv queue_send_inv resolve_send_inv
  fail_send_inv set_decrypted_inv set_decrypt_failed_inv set_commit_processed_inv

lemma store_step_inv: "store_step cx db db' \<Longrightarrow> db_inv cx db \<Longrightarrow> db_inv cx db'"
  by (erule store_stepE) (auto intro: step_invs)

text \<open>The shape is kept whatever the events hold.\<close>

lemmas shape_kept =
  any_rows.apply_events_kept [folded shape_inv_def] any_rows.save_sync_token_kept [folded shape_inv_def]
  any_rows.queue_send_kept [folded shape_inv_def] any_rows.resolve_send_kept [folded shape_inv_def]
  any_rows.fail_send_kept [folded shape_inv_def] any_rows.set_decrypted_kept [folded shape_inv_def]
  any_rows.set_decrypt_failed_kept [folded shape_inv_def] any_rows.set_commit_processed_kept [folded shape_inv_def]

lemma store_step_shape: "store_step cx db db' \<Longrightarrow> shape_inv db \<Longrightarrow> shape_inv db'"
  by (erule store_stepE) (auto intro: shape_kept)

lemma reachable_inv: "reachable cx db \<Longrightarrow> db_inv cx db"
  by (induction rule: reachable.induct) (auto intro: db_inv_empty store_step_inv)

end
