(* ===== verification/Store_Reads.thy ===== *)
theory Store_Reads
  imports Store_Inv
begin

text \<open>
  What the reads of the store return in a well-formed store: a timeline page in full, the pages that
  follow it, the pending MLS events and the room list; and that no read depends on anything but the
  content of the tables, so stores with the same content answer alike (the order of rows, which
  depends on the order of arrival, is invisible).
\<close>

section \<open>Reading rows back\<close>

definition ev_pos :: "stored_event \<Rightarrow> dag_pos" where
  "ev_pos ev = DagPos (ev_depth ev) (ev_event_id ev)"

text \<open>\<open>ev\<close> is what the row \<open>r\<close> reads back as.\<close>

definition reads_as :: "'t event_row \<Rightarrow> stored_event \<Rightarrow> bool" where
  "reads_as r ev \<longleftrightarrow> ev_event_id ev = r_event_id r \<and> ev_room_id ev = r_room_id r \<and>
     ev_sender ev = r_sender r \<and> ev_event_type ev = r_type r \<and> ev_state_key ev = r_state_key r \<and>
     ev_origin_server_ts ev = r_ts r \<and> ev_depth ev = r_depth r \<and>
     ev_send_state ev = send_state_from_local (r_local r) \<and> ev_decrypted ev = r_decrypted r \<and>
     (ev_decrypt_failed ev \<longleftrightarrow> r_decrypt_state r = DECRYPT_FAILED)"

lemma parse_row_coherent:
  assumes "codec_laws cx" "coherent cx r"
  shows "\<exists>ev. parse_row cx r = Inr ev \<and> reads_as r ev"
proof -
  obtain v ev where v: "canon cx (r_payload r) v" "from_wire v = Inr ev"
      "ev_event_id ev = r_event_id r" "ev_room_id ev = r_room_id r" "ev_sender ev = r_sender r"
      "ev_event_type ev = r_type r" "ev_state_key ev = r_state_key r"
      "ev_origin_server_ts ev = r_ts r" "ev_depth ev = r_depth r"
    using assms(2) by (auto simp: coherent_def)
  then show ?thesis
    using canon_dec [OF assms(1) v(1)]
    by (simp add: parse_row_def parse_stored_payload_def reads_as_def)
qed

lemma parse_rows_coherent:
  assumes "codec_laws cx" "\<forall>r\<in>set rows. coherent cx r"
  shows "\<exists>evs. collect_res (parse_row cx) rows = Inr evs \<and> list_all2 reads_as rows evs"
  using assms(2)
proof (induction rows)
  case Nil
  then show ?case by simp
next
  case (Cons r rows)
  then obtain evs where "collect_res (parse_row cx) rows = Inr evs" "list_all2 reads_as rows evs"
    by auto
  moreover obtain ev where "parse_row cx r = Inr ev" "reads_as r ev"
    using parse_row_coherent [OF assms(1), of r] Cons.prems by auto
  ultimately show ?case by simp
qed

lemma reads_as_pos: "reads_as r ev \<Longrightarrow> ev_pos ev = row_pos r"
  by (simp add: reads_as_def ev_pos_def row_pos_def)

lemma list_all2_pos: "list_all2 reads_as rows evs \<Longrightarrow> map ev_pos evs = map row_pos rows"
  by (induction rule: list_all2_induct) (simp_all add: reads_as_pos)

section \<open>Timeline pages\<close>

lemma row_pos_inj: "distinct (map r_event_id rows) \<Longrightarrow> inj_on row_pos (set rows)"
  by (auto simp: inj_on_def row_pos_def dest: distinct_key_eq)

definition matching :: "'t db \<Rightarrow> string \<Rightarrow> int option \<Rightarrow> 't event_row list" where
  "matching db room before = sort_key row_pos (filter (in_timeline room before) (events db))"

lemma set_matching [simp]: "set (matching db room before) = {r \<in> set (events db). in_timeline room before r}"
  by (auto simp: matching_def)

lemma matching_sorted:
  assumes "keys_inv db"
  shows "sorted_wrt (\<lambda>a b. row_pos a < row_pos b) (matching db room before)"
proof -
  have d: "distinct (map r_event_id (events db))" using assms by (simp add: keys_inv_def)
  have "inj_on row_pos (set (filter (in_timeline room before) (events db)))"
    by (rule row_pos_inj [OF distinct_map_filter_key [OF d]])
  moreover have "distinct (filter (in_timeline room before) (events db))"
    using d by (simp add: distinct_map)
  ultimately show ?thesis unfolding matching_def by (rule sorted_wrt_sort_key_less)
qed

text \<open>A page is the upper end of the matching rows, in ascending order.\<close>

lemma rev_timeline_rows:
  "rev (timeline_rows db room limit before) =
     drop (length (matching db room before) - limit) (matching db room before)"
  by (simp add: timeline_rows_def matching_def take_rev)

text \<open>
  \<open>page_of db room limit before evs\<close>: the list \<open>evs\<close> is the right answer to a timeline query: the
  newest \<open>limit\<close> events of the room (older than \<open>before\<close>, commits left out), oldest first.
\<close>

definition page_of ::
  "'t db \<Rightarrow> string \<Rightarrow> nat \<Rightarrow> int option \<Rightarrow> stored_event list \<Rightarrow> bool" where
  "page_of db room limit before evs \<longleftrightarrow>
     sorted_wrt (\<lambda>a b. ev_pos a < ev_pos b) evs \<and>
     (\<forall>ev\<in>set evs. \<exists>r\<in>set (events db). in_timeline room before r \<and> reads_as r ev) \<and>
     length evs = min limit (length (filter (in_timeline room before) (events db))) \<and>
     (\<forall>r\<in>set (events db). in_timeline room before r \<longrightarrow>
        r_event_id r \<in> ev_event_id ` set evs \<or> (\<forall>ev\<in>set evs. row_pos r < ev_pos ev))"

lemma list_all2_reads_mem1:
  "list_all2 reads_as rows evs \<Longrightarrow> ev \<in> set evs \<Longrightarrow> \<exists>r\<in>set rows. reads_as r ev"
  by (induction rule: list_all2_induct) auto

lemma list_all2_reads_mem2:
  "list_all2 reads_as rows evs \<Longrightarrow> r \<in> set rows \<Longrightarrow> \<exists>ev\<in>set evs. reads_as r ev"
  by (induction rule: list_all2_induct) auto

lemma timeline_page:
  assumes "codec_laws cx" "db_inv cx db"
  shows "\<exists>evs. timeline cx db room limit before = Inr evs \<and> page_of db room limit before evs"
proof -
  let ?m = "matching db room before"
  let ?d = "drop (length ?m - limit) ?m"
  have keys: "keys_inv db" and rows: "rows_inv cx db" using assms(2) by (simp_all add: db_inv_def)
  have sub: "set ?d \<subseteq> {r \<in> set (events db). in_timeline room before r}"
    using set_drop_subset [of _ ?m] by simp
  have "set (timeline_rows db room limit before) = set ?d"
    using rev_timeline_rows [of db room limit before] by (metis set_rev)
  then have "\<forall>r\<in>set (timeline_rows db room limit before). coherent cx r"
    using sub rows by (auto simp: rows_inv_def)
  then obtain evs where evs: "collect_res (parse_row cx) (timeline_rows db room limit before) = Inr evs"
      "list_all2 reads_as (timeline_rows db room limit before) evs"
    using parse_rows_coherent [OF assms(1)] by blast
  have l2: "list_all2 reads_as ?d (rev evs)"
    using evs(2) by (metis list_all2_rev rev_timeline_rows)
  have sorted_m: "sorted_wrt (\<lambda>a b. row_pos a < row_pos b) ?m" using keys by (rule matching_sorted)
  then have "sorted_wrt (<) (map row_pos ?d)"
    by (simp add: sorted_wrt_map sorted_wrt_drop)
  then have "sorted_wrt (<) (map ev_pos (rev evs))" using list_all2_pos [OF l2] by simp
  then have s: "sorted_wrt (\<lambda>a b. ev_pos a < ev_pos b) (rev evs)" by (simp add: sorted_wrt_map)
  have mem: "\<forall>ev\<in>set (rev evs). \<exists>r\<in>set (events db). in_timeline room before r \<and> reads_as r ev"
    using list_all2_reads_mem1 [OF l2] sub by blast
  have len: "length (rev evs) = min limit (length (filter (in_timeline room before) (events db)))"
    using list_all2_lengthD [OF l2] by (simp add: matching_def)
  have newest: "r_event_id r \<in> ev_event_id ` set (rev evs) \<or> (\<forall>ev\<in>set (rev evs). row_pos r < ev_pos ev)"
    if r: "r \<in> set (events db)" "in_timeline room before r" for r
  proof (cases "r \<in> set ?d")
    case True
    then obtain ev where "ev \<in> set (rev evs)" "reads_as r ev"
      using list_all2_reads_mem2 [OF l2] by blast
    then have "r_event_id r \<in> ev_event_id ` set (rev evs)"
      by (intro image_eqI [of _ _ ev]) (simp_all add: reads_as_def)
    then show ?thesis by blast
  next
    case False
    have "r \<in> set (take (length ?m - limit) ?m) \<union> set ?d"
      using r by (metis (mono_tags, lifting) append_take_drop_id mem_Collect_eq set_append set_matching)
    with False have t: "r \<in> set (take (length ?m - limit) ?m)" by blast
    have "sorted_wrt (\<lambda>a b. row_pos a < row_pos b) (take (length ?m - limit) ?m @ ?d)"
      using sorted_m by simp
    with t have "\<forall>x\<in>set ?d. row_pos r < row_pos x" unfolding sorted_wrt_append by blast
    then have "\<forall>ev\<in>set (rev evs). row_pos r < ev_pos ev"
      using list_all2_reads_mem1 [OF l2] reads_as_pos by metis
    then show ?thesis by blast
  qed
  have "timeline cx db room limit before = Inr (rev evs)"
    by (simp add: timeline_def evs(1))
  with s mem len newest show ?thesis by (auto simp: page_of_def)
qed

section \<open>Load older\<close>

text \<open>
  The cursor of \<open>load older\<close> is the depth of the oldest loaded event.  If no two events share a
  depth, the rows that the cursor admits are exactly the rows not yet loaded; a row that shares the
  cursor's depth but fell off the page is admitted by no later page.
\<close>

lemma page_oldest:
  assumes "page_of db room limit before (ev # evs)" "e \<in> set (ev # evs)"
  shows "ev_depth ev \<le> ev_depth e"
  using assms by (auto simp: page_of_def ev_pos_def dag_pos_less)

lemma page_step:
  assumes inv: "keys_inv db" and page: "page_of db room limit before (ev # evs)"
    and before: "\<forall>d. before = Some d \<longrightarrow> ev_depth ev < d"
    and distinct_depths: "inj_on r_depth {r \<in> set (events db). in_timeline room before r}"
  shows "{r \<in> set (events db). in_timeline room before r \<and> r_event_id r \<notin> ev_event_id ` set (ev # evs)}
       = {r \<in> set (events db). in_timeline room (Some (ev_depth ev)) r}"
proof (intro subset_antisym subsetI)
  obtain re where re: "re \<in> set (events db)" "in_timeline room before re" "reads_as re ev"
    using page by (auto simp: page_of_def)
  fix r
  {
    assume r: "r \<in> {r \<in> set (events db). in_timeline room before r \<and> r_event_id r \<notin> ev_event_id ` set (ev # evs)}"
    then have "row_pos r < ev_pos ev" using page by (auto simp: page_of_def)
    then have "r_depth r \<le> ev_depth ev" by (auto simp: row_pos_def ev_pos_def dag_pos_less)
    moreover have "r_depth r \<noteq> ev_depth ev"
    proof
      assume "r_depth r = ev_depth ev"
      then have "r_depth r = r_depth re" using re(3) by (simp add: reads_as_def)
      then have "r = re" using distinct_depths r re by (auto dest: inj_onD)
      with r re(3) show False by (simp add: reads_as_def)
    qed
    ultimately show "r \<in> {r \<in> set (events db). in_timeline room (Some (ev_depth ev)) r}"
      using r by (auto simp: in_timeline_def)
  next
    assume r: "r \<in> {r \<in> set (events db). in_timeline room (Some (ev_depth ev)) r}"
    have "in_timeline room before r"
      using r before by (cases before) (auto simp: in_timeline_def)
    moreover have "r_event_id r \<notin> ev_event_id ` set (ev # evs)"
    proof
      assume "r_event_id r \<in> ev_event_id ` set (ev # evs)"
      then obtain e where e: "e \<in> set (ev # evs)" "r_event_id r = ev_event_id e" by blast
      then obtain r' where "r' \<in> set (events db)" "reads_as r' e"
        using page unfolding page_of_def by blast
      with e r inv have "r_depth r = ev_depth e"
        using distinct_key_eq [of r_event_id "events db" r r'] by (simp add: reads_as_def keys_inv_def)
      with page_oldest [OF page e(1)] r show False by (auto simp: in_timeline_def)
    qed
    ultimately show "r \<in> {r \<in> set (events db). in_timeline room before r \<and> r_event_id r \<notin> ev_event_id ` set (ev # evs)}"
      using r by simp
  }
qed

lemma page_gap:
  assumes "page_of db room limit before (ev # evs)" "keys_inv db"
    and "r \<in> set (events db)" "in_timeline room before r"
    and "r_event_id r \<notin> ev_event_id ` set (ev # evs)" "r_depth r = ev_depth ev"
    and "page_of db room limit' (Some (ev_depth ev)) evs'"
  shows "r_event_id r \<notin> ev_event_id ` set evs'"
proof
  assume "r_event_id r \<in> ev_event_id ` set evs'"
  then obtain e where "e \<in> set evs'" "ev_event_id e = r_event_id r" by auto
  then obtain r' where r': "r' \<in> set (events db)" "in_timeline room (Some (ev_depth ev)) r'"
      "r_event_id r' = r_event_id r"
    using assms(7) by (auto simp: page_of_def reads_as_def)
  then have "r' = r"
    using assms(2,3) distinct_key_eq [of r_event_id "events db" r' r] by (simp add: keys_inv_def)
  with r' assms(6) show False by (simp add: in_timeline_def)
qed

section \<open>Pending MLS events\<close>

text \<open>A value that reading as \<open>Option<String>\<close> refuses.\<close>

fun text_column :: "json option \<Rightarrow> bool" where
  "text_column None = True"
| "text_column (Some (JBool b)) = False"
| "text_column (Some (JNum n)) = False"
| "text_column (Some v) = True"

text \<open>What the column reads as; the text SQLite gives an array or object is left open.\<close>

definition column_reads :: "json option \<Rightarrow> string option \<Rightarrow> bool" where
  "column_reads v s \<longleftrightarrow>
     (case v of None \<Rightarrow> s = None | Some JNull \<Rightarrow> s = None
      | Some (JStr t) \<Rightarrow> s = Some t | Some _ \<Rightarrow> s \<noteq> None)"

lemma get_opt_text_match:
  assumes "case v of None \<Rightarrow> s = SNull | Some w \<Rightarrow> sql_matches w s"
  shows "(text_column v \<longrightarrow> (\<exists>t. get_opt_text s = Inr t \<and> column_reads v t)) \<and>
    (\<not> text_column v \<longrightarrow> (\<exists>e. get_opt_text s = Inl e))"
proof (cases v)
  case None
  then show ?thesis using assms by (simp add: column_reads_def)
next
  case (Some w)
  then show ?thesis
  proof (cases w)
    case (JNum n)
    then show ?thesis using Some assms by (cases n) (auto split: if_splits)
  qed (use Some assms in \<open>auto simp: column_reads_def\<close>)
qed

lemma column_read:
  assumes "codec_laws cx" "canon cx t v"
  shows "\<exists>s. jextract cx t path = Inr s \<and>
    (text_column (jpointer v path) \<longrightarrow> (\<exists>x. get_opt_text s = Inr x \<and> column_reads (jpointer v path) x)) \<and>
    (\<not> text_column (jpointer v path) \<longrightarrow> (\<exists>e. get_opt_text s = Inl e))"
  using canon_extract [OF assms, of path] get_opt_text_match by metis

definition payload_of :: "'t codec \<Rightarrow> 't event_row \<Rightarrow> json" where
  "payload_of cx r = (case dec cx (r_payload r) of Inr v \<Rightarrow> v | Inl _ \<Rightarrow> JNull)"

lemma payload_of_canon:
  assumes "codec_laws cx" "coherent cx r"
  shows "canon cx (r_payload r) (payload_of cx r)"
  using assms canon_dec [OF assms(1)] by (auto simp: coherent_def payload_of_def)

definition content_field :: "'t codec \<Rightarrow> 't event_row \<Rightarrow> string \<Rightarrow> json option" where
  "content_field cx r field = jpointer (payload_of cx r) [''content'', field]"

text \<open>A row the decrypt pass can read: ciphertext and commit are no numbers or Booleans.\<close>

definition mls_readable :: "'t codec \<Rightarrow> 't event_row \<Rightarrow> bool" where
  "mls_readable cx r \<longleftrightarrow> text_column (content_field cx r ''ciphertext'') \<and>
     text_column (content_field cx r ''commit'')"

lemma read_mls_row_iff:
  assumes "codec_laws cx" "coherent cx r"
  shows "(\<exists>item. read_mls_row cx r = Inr item) \<longleftrightarrow> mls_readable cx r"
proof -
  let ?ct = "[''content'', ''ciphertext'']" and ?cm = "[''content'', ''commit'']"
  note canon = payload_of_canon [OF assms]
  obtain s1 where s1: "jextract cx (r_payload r) ?ct = Inr s1"
      "text_column (content_field cx r ''ciphertext'') \<longleftrightarrow> (\<exists>x. get_opt_text s1 = Inr x)"
    using column_read [OF assms(1) canon, of ?ct] unfolding content_field_def by fastforce
  obtain s2 where s2: "jextract cx (r_payload r) ?cm = Inr s2"
      "text_column (content_field cx r ''commit'') \<longleftrightarrow> (\<exists>x. get_opt_text s2 = Inr x)"
    using column_read [OF assms(1) canon, of ?cm] unfolding content_field_def by fastforce
  show ?thesis
    by (auto simp: read_mls_row_def s1 s2 mls_readable_def then_ok_Inr_iff)
qed

lemma pending_mls_total:
  assumes "codec_laws cx" "db_inv cx db"
  shows "(\<exists>items. pending_mls cx db = Inr items) \<longleftrightarrow>
    (\<forall>r\<in>set (events db). awaits_mls r \<longrightarrow> mls_readable cx r)"
proof -
  let ?rows = "sort_key row_pos (filter awaits_mls (events db))"
  have "(\<exists>items. pending_mls cx db = Inr items) \<longleftrightarrow> (\<exists>xs. collect_res (read_mls_row cx) ?rows = Inr xs)"
    by (auto simp: pending_mls_def then_ok_Inr_iff)
  also have "... \<longleftrightarrow> \<not> (\<exists>e. collect_res (read_mls_row cx) ?rows = Inl e)"
    by (cases "collect_res (read_mls_row cx) ?rows") auto
  also have "... \<longleftrightarrow> (\<forall>r\<in>set ?rows. \<exists>x. read_mls_row cx r = Inr x)"
    unfolding collect_res_Inl_iff by (metis sum.exhaust sum.distinct(1))
  also have "... \<longleftrightarrow> (\<forall>r\<in>set ?rows. mls_readable cx r)"
    using assms(2) read_mls_row_iff [OF assms(1)] by (auto simp: db_inv_def rows_inv_def)
  finally show ?thesis by auto
qed

section \<open>The room list\<close>

definition known_rooms :: "'t db \<Rightarrow> string set" where
  "known_rooms db = s_room_id ` set (room_state db)"

definition state_text :: "'t codec \<Rightarrow> 't db \<Rightarrow> string \<Rightarrow> string \<Rightarrow> string \<Rightarrow> json option" where
  "state_text cx db room ty field =
     (case find_state db room ty [] of None \<Rightarrow> None | Some r \<Rightarrow> content_field cx r field)"

definition summary_readable :: "'t codec \<Rightarrow> 't db \<Rightarrow> string \<Rightarrow> bool" where
  "summary_readable cx db room \<longleftrightarrow>
     text_column (state_text cx db room ''p.room.name'' ''name'') \<and>
     text_column (state_text cx db room ''p.room.topic'' ''topic'')"

lemma find_state_mem: "find_state db room ty key = Some r \<Longrightarrow> r \<in> set (events db)"
  by (auto simp: find_state_def split: option.splits dest: find_row_Some_D)

lemma state_content_field_reads:
  assumes "codec_laws cx" "rows_inv cx db"
  shows "\<exists>s. state_content_field cx db room ty f = Inr s \<and>
    (text_column (state_text cx db room ty f) \<longrightarrow>
       (\<exists>x. get_opt_text s = Inr x \<and> column_reads (state_text cx db room ty f) x)) \<and>
    (\<not> text_column (state_text cx db room ty f) \<longrightarrow> (\<exists>e. get_opt_text s = Inl e))"
proof (cases "find_state db room ty []")
  case None
  then show ?thesis by (simp add: state_content_field_def state_text_def column_reads_def)
next
  case (Some r)
  then have "coherent cx r" using assms(2) find_state_mem [OF Some] by (simp add: rows_inv_def)
  from column_read [OF assms(1) payload_of_canon [OF assms(1) this], of "[''content'', f]"]
  show ?thesis
    using Some by (auto simp: state_content_field_def state_text_def content_field_def)
qed

definition summary_of :: "'t codec \<Rightarrow> 't db \<Rightarrow> string \<Rightarrow> room_summary \<Rightarrow> bool" where
  "summary_of cx db room s \<longleftrightarrow> rs_room_id s = room \<and>
     column_reads (state_text cx db room ''p.room.name'' ''name'') (rs_name s) \<and>
     column_reads (state_text cx db room ''p.room.topic'' ''topic'') (rs_topic s) \<and>
     rs_encrypted s = is_room_encrypted db room \<and> rs_last_activity_ts s = last_activity db room"

lemma summarise_room_reads:
  assumes "codec_laws cx" "rows_inv cx db"
  shows "if summary_readable cx db room
    then \<exists>s. summarise_room cx db room = Inr s \<and> summary_of cx db room s
    else \<exists>e. summarise_room cx db room = Inl e"
  using state_content_field_reads [OF assms, of room "''p.room.name''" "''name''"]
    state_content_field_reads [OF assms, of room "''p.room.topic''" "''topic''"]
  by (auto simp: summary_readable_def summarise_room_def summary_of_def)

lemma list_rooms_reads:
  assumes "codec_laws cx" "rows_inv cx db" "list_rooms cx db = Inr rooms"
  shows "(\<forall>room\<in>known_rooms db. summary_readable cx db room) \<and> rs_room_id ` set rooms = known_rooms db \<and>
    sorted_wrt (\<lambda>a b. (- last_activity db (rs_room_id a), rs_room_id a)
       < (- last_activity db (rs_room_id b), rs_room_id b)) rooms \<and>
    (\<forall>s\<in>set rooms. summary_of cx db (rs_room_id s) s)"
proof -
  let ?key = "\<lambda>room. (- last_activity db room, room)"
  define ids where "ids = sort_key ?key (remdups (map s_room_id (room_state db)))"
  have ids: "set ids = known_rooms db" by (simp add: known_rooms_def ids_def)
  have c: "list_all2 (\<lambda>room s. summarise_room cx db room = Inr s) ids rooms"
    using assms(3) by (simp add: list_rooms_def collect_res_Inr_iff ids_def)
  have ok: "summary_readable cx db room \<and> summary_of cx db room s"
    if "summarise_room cx db room = Inr s" for room s
    using summarise_room_reads [OF assms(1,2), of room] that by (cases "summary_readable cx db room") auto
  have c': "list_all2 (\<lambda>room s. summary_readable cx db room \<and> summary_of cx db room s) ids rooms"
    using c ok by (rule list_all2_mono)
  have m: "map rs_room_id rooms = ids"
    using c' by (induction rule: list_all2_induct) (simp_all add: summary_of_def)
  have "\<forall>room\<in>set ids. summary_readable cx db room"
    using c' by (induction rule: list_all2_induct) auto
  moreover have "\<forall>s\<in>set rooms. summary_of cx db (rs_room_id s) s"
    using c' by (induction rule: list_all2_induct) (auto simp: summary_of_def)
  moreover have "sorted_wrt (\<lambda>a b. ?key a < ?key b) ids"
    unfolding ids_def by (rule sorted_wrt_sort_key_less) (simp_all add: inj_on_def)
  then have "sorted_wrt (\<lambda>a b. ?key (rs_room_id a) < ?key (rs_room_id b)) rooms"
    unfolding m [symmetric] by (simp add: sorted_wrt_map)
  moreover have "rs_room_id ` set rooms = known_rooms db" using m ids by (metis set_map)
  ultimately show ?thesis unfolding ids by blast
qed

lemma list_rooms_fails:
  assumes "codec_laws cx" "rows_inv cx db" "list_rooms cx db = Inl e"
  shows "\<exists>room\<in>known_rooms db. \<not> summary_readable cx db room"
proof -
  have "\<exists>e. collect_res (summarise_room cx db)
      (sort_key (\<lambda>room. (- last_activity db room, room)) (remdups (map s_room_id (room_state db)))) = Inl e"
    using assms(3) by (auto simp: list_rooms_def)
  then obtain room e' where "room \<in> known_rooms db" "summarise_room cx db room = Inl e'"
    unfolding collect_res_Inl_iff by (auto simp: known_rooms_def)
  then show ?thesis
    using summarise_room_reads [OF assms(1,2), of room] by (intro bexI [of _ room]) auto
qed

end
