(* ===== verification/Store_Conv.thy ===== *)
theory Store_Conv
  imports Store_Reads
begin

text \<open>
  Convergence of stores.  \<open>apply_batches\<close> is a client's history of sync batches.  Two histories that
  deliver the same set of events, in any order, batching and repetition, leave stores with the same
  content, and every read depends on the content only.
\<close>

section \<open>Reads depend on content only\<close>

definition same_content :: "'t db \<Rightarrow> 't db \<Rightarrow> bool" where
  "same_content a b \<longleftrightarrow> mset (events a) = mset (events b) \<and> state_map a = state_map b"

lemma same_content_set: "same_content a b \<Longrightarrow> set (events a) = set (events b)"
  by (auto simp: same_content_def dest: mset_eq_setD)

lemma same_timeline:
  assumes "same_content a b" "keys_inv a"
  shows "timeline cx a room limit before = timeline cx b room limit before"
proof -
  have "distinct (map r_event_id (filter (in_timeline room before) (events a)))"
    using assms(2) by (simp add: keys_inv_def distinct_map_filter_key)
  then have "inj_on row_pos (set (filter (in_timeline room before) (events a)))"
    by (rule row_pos_inj)
  moreover have "mset (filter (in_timeline room before) (events a)) =
      mset (filter (in_timeline room before) (events b))"
    using assms(1) by (simp add: same_content_def)
  ultimately have "sort_key row_pos (filter (in_timeline room before) (events a)) =
      sort_key row_pos (filter (in_timeline room before) (events b))"
    by (intro sort_key_mset_eq)
  then show ?thesis by (simp add: timeline_def timeline_rows_def)
qed

lemma same_pending_mls:
  assumes "same_content a b" "keys_inv a"
  shows "pending_mls cx a = pending_mls cx b"
proof -
  have "distinct (map r_event_id (filter awaits_mls (events a)))"
    using assms(2) by (simp add: keys_inv_def distinct_map_filter_key)
  then have "inj_on row_pos (set (filter awaits_mls (events a)))" by (rule row_pos_inj)
  moreover have "mset (filter awaits_mls (events a)) = mset (filter awaits_mls (events b))"
    using assms(1) by (simp add: same_content_def)
  ultimately have "sort_key row_pos (filter awaits_mls (events a)) =
      sort_key row_pos (filter awaits_mls (events b))"
    by (intro sort_key_mset_eq)
  then show ?thesis by (simp add: pending_mls_def)
qed

lemma find_state_map:
  "find_state db room ty key =
     (case state_map db (room, ty, key) of None \<Rightarrow> None
      | Some (eid, _) \<Rightarrow> find_row r_event_id eid (events db))"
  by (simp add: find_state_def state_map_def split: option.splits)

lemma same_find_state:
  assumes "same_content a b" "keys_inv a"
  shows "find_state a room ty key = find_state b room ty key"
proof -
  have "find_row r_event_id eid (events a) = find_row r_event_id eid (events b)" for eid
    using assms by (intro find_row_mset) (simp_all add: same_content_def keys_inv_def)
  then show ?thesis
    using assms(1) by (simp add: find_state_map same_content_def split: option.splits)
qed

lemma same_current_state:
  "same_content a b \<Longrightarrow> keys_inv a \<Longrightarrow>
     current_state cx a room ty key = current_state cx b room ty key"
  by (simp add: current_state_def same_find_state)

lemma same_membership:
  "same_content a b \<Longrightarrow> keys_inv a \<Longrightarrow> membership cx a room user = membership cx b room user"
  by (simp add: membership_def same_current_state)

lemma state_rows_map:
  "(\<exists>s\<in>set (room_state db). P (state_key_of s)) \<longleftrightarrow> (\<exists>k. P k \<and> state_map db k \<noteq> None)"
proof -
  have "state_map db k \<noteq> None \<longleftrightarrow> k \<in> state_key_of ` set (room_state db)" for k
    using has_key_state_map [of k db] by (simp add: has_key_iff)
  then show ?thesis by (metis (no_types, lifting) imageE imageI)
qed

lemma is_room_encrypted_map:
  "is_room_encrypted db room \<longleftrightarrow> (\<exists>k. state_map db (room, ''p.room.encryption'', k) \<noteq> None)"
  using state_rows_map [of db "\<lambda>(r, t, k). r = room \<and> t = ''p.room.encryption''"]
  by (simp add: is_room_encrypted_def state_key_of_def)

lemma same_is_room_encrypted:
  "same_content a b \<Longrightarrow> is_room_encrypted a room = is_room_encrypted b room"
  by (simp add: is_room_encrypted_map same_content_def)

lemma known_rooms_map:
  "s_room_id ` set (room_state db) = {room. \<exists>t k. state_map db (room, t, k) \<noteq> None}"
proof (intro set_eqI)
  fix room
  have "room \<in> s_room_id ` set (room_state db) \<longleftrightarrow>
      (\<exists>s\<in>set (room_state db). case state_key_of s of (r, t, k) \<Rightarrow> r = room)"
    by (auto simp: state_key_of_def)
  also have "... \<longleftrightarrow> (\<exists>k. (case k of (r, t, k) \<Rightarrow> r = room) \<and> state_map db k \<noteq> None)"
    by (rule state_rows_map)
  finally show "room \<in> s_room_id ` set (room_state db) \<longleftrightarrow>
      room \<in> {room. \<exists>t k. state_map db (room, t, k) \<noteq> None}" by auto
qed

lemma foldr_max_set:
  fixes d :: int
  assumes "set (d # ds) = set (d' # ds')"
  shows "foldr max ds d = foldr max ds' d'"
proof (rule order_antisym)
  have ge: "\<forall>x\<in>set (d # ds). x \<le> foldr max ds d" "\<forall>x\<in>set (d' # ds'). x \<le> foldr max ds' d'"
    using foldr_max_ge by auto
  have m: "foldr max ds d \<in> set (d # ds)" "foldr max ds' d' \<in> set (d' # ds')"
    using foldr_max_mem [of ds d] foldr_max_mem [of ds' d'] by auto
  show "foldr max ds d \<le> foldr max ds' d'" using m(1) ge(2) unfolding assms by blast
  show "foldr max ds' d' \<le> foldr max ds d" using m(2) ge(1) unfolding assms by blast
qed

lemma same_last_activity:
  assumes "same_content a b"
  shows "last_activity a room = last_activity b room"
proof -
  have eq: "set (map r_ts (filter (\<lambda>r. r_room_id r = room) (events a))) =
      set (map r_ts (filter (\<lambda>r. r_room_id r = room) (events b)))"
    using same_content_set [OF assms] by simp
  show ?thesis
  proof (cases "map r_ts (filter (\<lambda>r. r_room_id r = room) (events a))")
    case Nil
    then have "map r_ts (filter (\<lambda>r. r_room_id r = room) (events b)) = []"
      using eq by (metis set_empty)
    with Nil show ?thesis by (simp add: last_activity_def)
  next
    case (Cons d ds)
    then obtain d' ds' where b: "map r_ts (filter (\<lambda>r. r_room_id r = room) (events b)) = d' # ds'"
      using eq by (cases "map r_ts (filter (\<lambda>r. r_room_id r = room) (events b))") auto
    have "foldr max ds d = foldr max ds' d'"
      using eq unfolding Cons b by (rule foldr_max_set)
    with Cons b show ?thesis by (simp add: last_activity_def)
  qed
qed

lemma same_list_rooms:
  assumes "same_content a b" "keys_inv a"
  shows "list_rooms cx a = list_rooms cx b"
proof -
  let ?ra = "remdups (map s_room_id (room_state a))" and ?rb = "remdups (map s_room_id (room_state b))"
  have act: "last_activity a = last_activity b" using same_last_activity [OF assms(1)] by blast
  have "set ?ra = set ?rb"
    using known_rooms_map [of a] known_rooms_map [of b] assms(1) by (simp add: same_content_def)
  then have "mset ?ra = mset ?rb"
    by (rule iffD1 [OF set_eq_iff_mset_eq_distinct [OF distinct_remdups distinct_remdups]])
  then have "sort_key (\<lambda>room. (- last_activity a room, room)) ?ra =
      sort_key (\<lambda>room. (- last_activity a room, room)) ?rb"
    by (rule sort_key_mset_eq) (simp add: inj_on_def)
  moreover have "summarise_room cx a room = summarise_room cx b room" for room
    using assms by (simp add: summarise_room_def state_content_field_def same_find_state
        same_is_room_encrypted act)
  then have "summarise_room cx a = summarise_room cx b" by blast
  ultimately show ?thesis by (simp add: list_rooms_def act)
qed

lemmas same_reads = same_timeline same_list_rooms same_current_state same_membership same_pending_mls

section \<open>Histories of batches\<close>

fun apply_batches :: "'t codec \<Rightarrow> 't db \<Rightarrow> json list list \<Rightarrow> store_error + 't db" where
  "apply_batches cx db [] = Inr db"
| "apply_batches cx db (b # bs) =
     then_ok (apply_events cx db b) (\<lambda>(db', n). apply_batches cx db' bs)"

lemma apply_batches_Inr:
  "apply_batches cx db bs = Inr db' \<Longrightarrow>
     \<exists>parsed. collect_res from_wire (concat bs) = Inr parsed \<and> db' = foldl (apply_one cx) db parsed"
proof (induction bs arbitrary: db)
  case Nil
  then show ?case by simp
next
  case (Cons b bs)
  then obtain db1 n where b: "apply_events cx db b = Inr (db1, n)" "apply_batches cx db1 bs = Inr db'"
    by (auto simp: then_ok_Inr_iff)
  from b(1) obtain p where p: "collect_res from_wire b = Inr p" "db1 = foldl (apply_one cx) db p"
    by (auto simp: apply_events_Inr)
  from Cons.IH [OF b(2)] obtain q where q: "collect_res from_wire (concat bs) = Inr q"
      "db' = foldl (apply_one cx) db1 q" by blast
  show ?case
    using p q by (intro exI [of _ "p @ q"]) (simp add: collect_res_append)
qed

lemma collect_set:
  "collect_res f xs = Inr ys \<Longrightarrow> set ys = {y. \<exists>x\<in>set xs. f x = Inr y}"
  by (induction xs arbitrary: ys) (auto split: sum.splits)

text \<open>
  The events of a federation as the protocol provides them: an id names one event (it is the
  event's content hash), and two different state events for the same key differ in depth.
\<close>

definition ids_unique :: "json set \<Rightarrow> bool" where
  "ids_unique vs \<longleftrightarrow>
     (\<forall>v\<in>vs. \<forall>v'\<in>vs. jget v ''event_id'' = jget v' ''event_id'' \<longrightarrow> v = v')"

definition versions_unique :: "json set \<Rightarrow> bool" where
  "versions_unique vs \<longleftrightarrow>
     (\<forall>v\<in>vs. \<forall>v'\<in>vs. \<forall>e e'. from_wire v = Inr e \<longrightarrow> from_wire v' = Inr e' \<longrightarrow>
        state_key e \<noteq> None \<longrightarrow> state_key e = state_key e' \<longrightarrow> ev_depth e = ev_depth e' \<longrightarrow> v = v')"

lemma from_wire_id: "from_wire v = Inr e \<Longrightarrow> jget v ''event_id'' = Some (JStr (ev_event_id e))"
  by (auto simp: from_wire_def then_ok_Inr_iff)

lemma log_add_set:
  assumes "inj_on ev_event_id (set evs)" "set evs = set evs'"
  shows "mset (log_add cx [] evs) = mset (log_add cx [] evs')"
proof -
  have rows: "set (log_add cx [] es) = row_of_event cx ` set es" if "inj_on ev_event_id (set es)"
    for es :: "stored_event list"
  proof
    show "set (log_add cx [] es) \<subseteq> row_of_event cx ` set es"
      using log_add_rows [of cx "[]" es] by simp
    show "row_of_event cx ` set es \<subseteq> set (log_add cx [] es)"
    proof
      fix r assume "r \<in> row_of_event cx ` set es"
      then obtain e where e: "e \<in> set es" "r = row_of_event cx e" by blast
      then have "ev_event_id e \<in> r_event_id ` set (log_add cx [] es)"
        using log_add_ids [of cx "[]" es] by auto
      then obtain r' where r': "r' \<in> set (log_add cx [] es)" "r_event_id r' = ev_event_id e" by auto
      then obtain e' where "e' \<in> set es" "r' = row_of_event cx e'"
        using log_add_rows [of cx "[]" es] by auto
      with r' that e show "r \<in> set (log_add cx [] es)" by (auto dest: inj_onD)
    qed
  qed
  have d: "distinct (log_add cx [] es)" for es :: "stored_event list"
    using log_add_distinct [of "[]" cx es] by (simp add: distinct_map)
  have "set (log_add cx [] evs) = set (log_add cx [] evs')"
    using rows [of evs] rows [of evs'] assms by simp
  then show ?thesis by (rule iffD1 [OF set_eq_iff_mset_eq_distinct [OF d d]])
qed

lemma batches_converge:
  assumes a: "apply_batches cx empty_db bs = Inr a" and b: "apply_batches cx empty_db bs' = Inr b"
    and same: "set (concat bs) = set (concat bs')"
    and ids: "ids_unique (set (concat bs))" and versions: "versions_unique (set (concat bs))"
  shows "same_content a b"
proof -
  obtain p where p: "collect_res from_wire (concat bs) = Inr p" "a = foldl (apply_one cx) empty_db p"
    using apply_batches_Inr [OF a] by blast
  obtain q where q: "collect_res from_wire (concat bs') = Inr q" "b = foldl (apply_one cx) empty_db q"
    using apply_batches_Inr [OF b] by blast
  have sp: "set p = {e. \<exists>v\<in>set (concat bs). from_wire v = Inr e}" using p(1) by (rule collect_set)
  have pq: "set p = set q" unfolding sp collect_set [OF q(1)] same ..
  have "inj_on ev_event_id (set p)"
  proof (rule inj_onI)
    fix e e' assume "e \<in> set p" "e' \<in> set p" and eq: "ev_event_id e = ev_event_id e'"
    then obtain v v' where v: "v \<in> set (concat bs)" "from_wire v = Inr e"
        "v' \<in> set (concat bs)" "from_wire v' = Inr e'" using sp by blast
    then have "v = v'"
      using ids eq from_wire_id [OF v(2)] from_wire_id [OF v(4)] unfolding ids_unique_def by metis
    with v show "e = e'" by simp
  qed
  then have "mset (events a) = mset (events b)"
    using log_add_set [OF _ pq] by (simp add: p(2) q(2) events_foldl empty_db_def)
  moreover have "state_map a = state_map b"
    unfolding p(2) q(2)
  proof (rule room_log.order_irrelevant [OF pq])
    show "state_map (empty_db :: 'a db) = (\<lambda>k. None)"
      by (rule ext) (simp add: state_map_def empty_db_def)
    show "inj_on (\<lambda>e. snd (state_entry e)) {e \<in> set p. state_key e = Some k}" for k
    proof (rule inj_onI)
      fix e e' assume e: "e \<in> {e \<in> set p. state_key e = Some k}" "e' \<in> {e \<in> set p. state_key e = Some k}"
        and eq: "snd (state_entry e) = snd (state_entry e')"
      then obtain v v' where v: "v \<in> set (concat bs)" "from_wire v = Inr e"
          "v' \<in> set (concat bs)" "from_wire v' = Inr e'" using sp by blast
      have "v = v'"
      proof -
        have "state_key e \<noteq> None" "state_key e = state_key e'" "ev_depth e = ev_depth e'"
          using e eq by (simp_all add: state_entry_def)
        with versions v show ?thesis unfolding versions_unique_def by blast
      qed
      with v show "e = e'" by simp
    qed
  qed
  ultimately show ?thesis by (simp add: same_content_def)
qed

lemma batches_keys:
  "apply_batches cx empty_db bs = Inr a \<Longrightarrow> keys_inv a"
proof -
  assume "apply_batches cx empty_db bs = Inr a"
  then obtain p where p: "a = foldl (apply_one cx) empty_db p" using apply_batches_Inr by blast
  have "distinct (map r_event_id (events a))"
    by (simp add: p events_foldl empty_db_def log_add_distinct)
  moreover have "distinct (map state_key_of (room_state a))"
    unfolding p by (rule foldl_keys_distinct) (simp add: empty_db_def)
  moreover have "pending_sends_tab a = []" by (simp add: p foldl_apply_frame empty_db_def)
  ultimately show "keys_inv a" by (simp add: keys_inv_def)
qed

end
