(* ===== verification/Store_Send.thy ===== *)
theory Store_Send
  imports Store_Conv
begin

text \<open>
  The send queue over time: what queueing, acknowledging and failing a send do to the timeline and
  the queue, that an acknowledgement and the event's arrival by sync can come in either order, and
  that the identifiers of one process never repeat.
\<close>

section \<open>Identifiers\<close>

lemma next_send_ids_inj:
  assumes "0 \<le> ts" "0 \<le> ts'"
  shows "next_send_ids n ts = next_send_ids n' ts' \<longleftrightarrow> n = n' \<and> ts = ts'"
proof -
  have dash: "CHR ''-'' \<notin> set (int_dec ts)" "CHR ''-'' \<notin> set (int_dec ts')"
    using assms by (simp_all add: int_dec_nonneg_no_minus)
  have "int_dec ts @ ''-'' @ nat_dec (unat n) = int_dec ts' @ ''-'' @ nat_dec (unat n') \<longleftrightarrow>
      n = n' \<and> ts = ts'"
    using sep_inj [OF dash] by (auto simp: int_dec_inj word_unat_eq_iff)
  then show ?thesis by (auto simp: next_send_ids_def)
qed

lemma send_ids_parts_inj:
  assumes "0 \<le> ts" "0 \<le> ts'"
  shows "(fst (next_send_ids n ts) = fst (next_send_ids n' ts') \<longleftrightarrow> n = n' \<and> ts = ts') \<and>
    (snd (next_send_ids n ts) = snd (next_send_ids n' ts') \<longleftrightarrow> n = n' \<and> ts = ts')"
  using next_send_ids_inj [OF assms, of n n'] by (auto simp: next_send_ids_def)

section \<open>The effect of each operation\<close>

lemma pending_found:
  assumes "db_inv cx db" "find_row p_txn_id txn (pending_sends_tab db) = Some p"
  obtains r where "p \<in> set (pending_sends_tab db)" "p_txn_id p = txn" "r \<in> set (events db)"
    "echoes p r" "find_row r_event_id (p_event_id p) (events db) = Some r"
proof -
  have p: "p \<in> set (pending_sends_tab db)" "p_txn_id p = txn"
    using find_row_Some_D [OF assms(2)] by simp_all
  then obtain r where r: "r \<in> set (events db)" "echoes p r"
    using assms(1) by (auto simp: db_inv_def queue_inv_def)
  then have "find_row r_event_id (p_event_id p) (events db) = Some r"
    using assms(1) find_row_distinct [of r_event_id "events db" r]
    by (simp add: db_inv_def keys_inv_def echoes_def)
  with p r show thesis by (rule that)
qed

text \<open>No event that current state refers to is an echo, so resolving a send never fails.\<close>

definition echoes_unreferred :: "'t db \<Rightarrow> bool" where
  "echoes_unreferred db \<longleftrightarrow>
     (\<forall>p\<in>set (pending_sends_tab db). \<not> state_refers db (p_event_id p))"

lemma jset_total:
  assumes "codec_laws cx" "coherent cx r"
  obtains pl where "jset cx (r_payload r) k s = Inr pl"
proof -
  obtain v ev where v: "canon cx (r_payload r) v" "from_wire v = Inr ev"
    using assms(2) by (auto simp: coherent_def)
  then obtain kvs where "v = JObj kvs" using from_wire_object by blast
  with v canon_jset [OF assms(1)] that show thesis by metis
qed

lemma resolve_send_total:
  assumes "codec_laws cx" "db_inv cx db" "echoes_unreferred db"
  shows "\<exists>db'. resolve_send cx db txn real = Inr db'"
proof (cases "find_row p_txn_id txn (pending_sends_tab db)")
  case None
  then show ?thesis by (simp add: resolve_send_def)
next
  case (Some p)
  then obtain r where r: "p \<in> set (pending_sends_tab db)" "r \<in> set (events db)"
      "find_row r_event_id (p_event_id p) (events db) = Some r"
    using pending_found [OF assms(2)] by metis
  have refers: "\<not> state_refers db (p_event_id p)"
    using assms(3) r(1) by (simp add: echoes_unreferred_def)
  then have "\<not> state_refers (keep_plaintext db real (p_body p)) (p_event_id p)"
    by (simp add: state_refers_def keep_plaintext_def)
  moreover obtain pl where "jset cx (r_payload r) ''event_id'' real = Inr pl"
    using jset_total [OF assms(1), of r] assms(2) r(2) by (auto simp: db_inv_def rows_inv_def)
  ultimately show ?thesis
    using Some r refers by (simp add: resolve_send_def delete_event_def promote_echo_def)
qed

text \<open>The three outcomes of a resolve, as updates of the log.\<close>

lemma resolve_send_cases:
  assumes "db_inv cx db" "resolve_send cx db txn real = Inr db'"
    and "find_row p_txn_id txn (pending_sends_tab db) = Some p"
  obtains (raced) "has_event db real"
      "db' = dequeue (db\<lparr>events := filter (\<lambda>r. r_event_id r \<noteq> p_event_id p)
         (events (keep_plaintext db real (p_body p)))\<rparr>) txn"
  | (promoted) r pl where "\<not> has_event db real" "r \<in> set (events db)" "echoes p r"
      "jset cx (r_payload r) ''event_id'' real = Inr pl"
      "db' = dequeue (db\<lparr>events := upd_rows (\<lambda>r. r_event_id r = p_event_id p)
         (\<lambda>r. r\<lparr>r_event_id := real, r_local := 0, r_payload := pl\<rparr>) (events db)\<rparr>) txn"
proof (cases "has_event db real")
  case True
  with assms(2,3) have "db' = dequeue (db\<lparr>events := filter (\<lambda>r. r_event_id r \<noteq> p_event_id p)
         (events (keep_plaintext db real (p_body p)))\<rparr>) txn"
    by (auto simp: resolve_send_def then_ok_Inr_iff delete_event_def keep_plaintext_def split: if_splits)
  with True show thesis by (rule raced)
next
  case False
  obtain r where r: "r \<in> set (events db)" "echoes p r"
      "find_row r_event_id (p_event_id p) (events db) = Some r"
    using pending_found [OF assms(1,3)] by metis
  with assms(2,3) False obtain pl where "jset cx (r_payload r) ''event_id'' real = Inr pl"
      "db' = dequeue (db\<lparr>events := upd_rows (\<lambda>r. r_event_id r = p_event_id p)
         (\<lambda>r. r\<lparr>r_event_id := real, r_local := 0, r_payload := pl\<rparr>) (events db)\<rparr>) txn"
    by (auto simp: resolve_send_def then_ok_Inr_iff promote_echo_def split: if_splits)
  with False r(1,2) show thesis by (rule promoted)
qed

lemma keep_plaintext_ids [simp]: "map r_event_id (events (keep_plaintext db real body)) = map r_event_id (events db)"
  by (simp add: keep_plaintext_def upd_rows_def)

lemma event_ids_list: "event_ids db = set (map r_event_id (events db))"
  by (simp add: event_ids_def)

text \<open>A resolved send leaves exactly one event, the real one, in the place of the echo.\<close>

lemma resolve_send_ids:
  assumes "db_inv cx db" "resolve_send cx db txn real = Inr db'"
    and "find_row p_txn_id txn (pending_sends_tab db) = Some p" "real \<noteq> p_event_id p"
  shows "event_ids db' = insert real (event_ids db - {p_event_id p})"
  using assms(1-3)
proof (cases rule: resolve_send_cases)
  case raced
  let ?k = "keep_plaintext db real (p_body p)"
  have "event_ids ?k = event_ids db" by (simp only: event_ids_list keep_plaintext_ids)
  moreover have "event_ids db' = {i \<in> event_ids ?k. i \<noteq> p_event_id p}"
    by (auto simp: raced(2) event_ids_def)
  ultimately show ?thesis using raced(1) assms(4) by (auto simp: has_event_iff)
next
  case (promoted r pl)
  have "p_event_id p \<in> event_ids db"
    using promoted(2,3) by (force simp: event_ids_def echoes_def)
  moreover have "map r_event_id (events db') =
      map (\<lambda>i. if i = p_event_id p then real else i) (map r_event_id (events db))"
    by (simp add: promoted(5) upd_rows_def)
  then have "event_ids db' = (\<lambda>i. if i = p_event_id p then real else i) ` event_ids db"
    unfolding event_ids_list by (metis set_map)
  ultimately show ?thesis by auto
qed

lemma resolve_send_queue:
  assumes "resolve_send cx db txn real = Inr db'"
  shows "pending_sends_tab db' = filter (\<lambda>p. p_txn_id p \<noteq> txn) (pending_sends_tab db) \<and>
    room_state db' = room_state db \<and> sync_token db' = sync_token db"
  using assms
  by (auto simp: resolve_send_def then_ok_Inr_iff delete_event_def promote_echo_def keep_plaintext_def
      dequeue_def split: option.splits if_splits)

text \<open>The plaintext of our own ciphertext, kept when sync delivered it first.\<close>

lemma resolve_send_plaintext:
  assumes "db_inv cx db" "resolve_send cx db txn real = Inr db'"
    and "find_row p_txn_id txn (pending_sends_tab db) = Some p" "real \<noteq> p_event_id p"
    and "r \<in> set (events db)" "r_event_id r = real"
  shows "\<exists>r'\<in>set (events db'). r_event_id r' = real \<and> r_type r' = r_type r \<and>
    (if r_type r = ''p.room.encrypted''
     then r_decrypted r' = Some (p_body p) \<and> r_decrypt_state r' = DECRYPT_OK else r' = r)"
  using assms(1-3)
proof (cases rule: resolve_send_cases)
  case raced
  let ?f = "\<lambda>r. if r_event_id r = real \<and> r_type r = ''p.room.encrypted''
      then r\<lparr>r_decrypted := Some (p_body p), r_decrypt_state := DECRYPT_OK\<rparr> else r"
  have "?f r \<in> set (events db')"
    using assms(4-6) unfolding raced(2) by (auto simp: keep_plaintext_def image_iff)
  then show ?thesis using assms(6) by (intro bexI [of _ "?f r"]) auto
next
  case (promoted r0 pl)
  then show ?thesis using assms(5,6) by (auto simp: has_event_iff event_ids_def)
qed

text \<open>Promotion rewrites the echo's row: the id, the state and the payload's own id.\<close>

lemma resolve_send_promoted:
  assumes "codec_laws cx" "db_inv cx db" "resolve_send cx db txn real = Inr db'"
    and "find_row p_txn_id txn (pending_sends_tab db) = Some p" "\<not> has_event db real"
    and "r \<in> set (events db)" "r_event_id r = p_event_id p"
  shows "\<exists>r'\<in>set (events db'). \<exists>ev. parse_row cx r' = Inr ev \<and> ev_event_id ev = real \<and>
    ev_send_state ev = Confirmed \<and> ev_depth ev = r_depth r \<and> ev_sender ev = r_sender r \<and>
    ev_room_id ev = r_room_id r \<and> ev_event_type ev = ''p.room.message'' \<and> ev_origin_server_ts ev = r_ts r"
  using assms(2-4)
proof (cases rule: resolve_send_cases)
  case raced
  with assms(5) show ?thesis by simp
next
  case (promoted r0 pl)
  have "r0 = r"
    using promoted(2,3) assms(2,6,7) distinct_key_eq [of r_event_id "events db" r0 r]
    by (simp add: db_inv_def keys_inv_def echoes_def)
  let ?r = "r\<lparr>r_event_id := real, r_local := 0, r_payload := pl\<rparr>"
  have mem: "?r \<in> set (events db')"
    using promoted(5) assms(6,7) by (auto simp: image_iff)
  have "coherent cx r" using assms(2,6) by (simp add: db_inv_def rows_inv_def)
  then have "coherent cx ?r" using promoted(4) \<open>r0 = r\<close> by (intro coherent_rename) auto
  then obtain ev where "parse_row cx ?r = Inr ev" "reads_as ?r ev"
    using parse_row_coherent [OF assms(1)] by blast
  with mem promoted(3) \<open>r0 = r\<close> show ?thesis
    by (intro bexI [of _ ?r] exI [of _ ev]) (auto simp: reads_as_def echoes_def send_state_from_local_def)
qed

section \<open>The echo in the timeline\<close>

lemma last_greatest:
  assumes "sorted_wrt (\<lambda>a b. f a < (f b :: 'p::linorder)) xs" "x \<in> set xs" "\<forall>y\<in>set xs. f y \<le> f x"
  shows "last xs = x"
proof (rule ccontr)
  assume ne: "last xs \<noteq> x"
  obtain ys zs where xs: "xs = ys @ x # zs" using assms(2) by (meson split_list)
  with ne have "zs \<noteq> []" by auto
  then have "last zs \<in> set zs" by simp
  moreover from this have "f x < f (last zs)" using assms(1) xs by (auto simp: sorted_wrt_append)
  moreover have "f (last zs) \<le> f x" using assms(3) xs \<open>last zs \<in> set zs\<close> by auto
  ultimately show False by simp
qed

text \<open>The newest row of a room ends every page that has room for it.\<close>

lemma timeline_ends_with_newest:
  assumes laws: "codec_laws cx" and inv: "db_inv cx db" and "0 < limit"
    and row: "r \<in> set (events db)" "in_timeline room None r"
    and greatest: "\<And>x. x \<in> set (events db) \<Longrightarrow> in_timeline room None x \<Longrightarrow> row_pos x \<le> row_pos r"
  shows "\<exists>evs. timeline cx db room limit None = Inr evs \<and> evs \<noteq> [] \<and> parse_row cx r = Inr (last evs)"
proof -
  obtain evs where evs: "timeline cx db room limit None = Inr evs" "page_of db room limit None evs"
    using timeline_page [OF laws inv] by blast
  have ids: "x = r" if "x \<in> set (events db)" "r_event_id x = r_event_id r" for x
    using that inv distinct_key_eq [of r_event_id "events db" x r] row(1)
    by (simp add: db_inv_def keys_inv_def)
  have "length evs \<noteq> 0" using evs(2) assms(3) row by (auto simp: page_of_def filter_empty_conv)
  then have ne: "evs \<noteq> []" by simp
  have "r_event_id r \<in> ev_event_id ` set evs"
  proof (rule ccontr)
    assume "r_event_id r \<notin> ev_event_id ` set evs"
    then have lt: "\<forall>ev\<in>set evs. row_pos r < ev_pos ev" using evs(2) row by (auto simp: page_of_def)
    obtain ev where "ev \<in> set evs" using ne by (meson last_in_set)
    then obtain x where "x \<in> set (events db)" "in_timeline room None x" "reads_as x ev"
      using evs(2) by (auto simp: page_of_def)
    then have "ev_pos ev \<le> row_pos r" using greatest [of x] by (simp add: reads_as_pos)
    with lt \<open>ev \<in> set evs\<close> show False by fastforce
  qed
  then obtain e where e: "e \<in> set evs" "ev_event_id e = r_event_id r" by (metis imageE)
  obtain x where "x \<in> set (events db)" "reads_as x e" using evs(2) e(1) by (auto simp: page_of_def)
  moreover from this(2) have "ev_event_id e = r_event_id x" unfolding reads_as_def by blast
  ultimately have r: "reads_as r e" using ids [of x] e(2) by metis
  have "ev_pos y \<le> ev_pos e" if y: "y \<in> set evs" for y
  proof -
    obtain x where "x \<in> set (events db)" "in_timeline room None x" "reads_as x y"
      using y evs(2) by (auto simp: page_of_def)
    with r greatest show ?thesis by (simp add: reads_as_pos)
  qed
  then have last: "last evs = e"
    using evs(2) e(1) by (intro last_greatest [of ev_pos]) (auto simp: page_of_def)
  have "e \<in> set (rev evs)" using e(1) by simp
  then obtain x where x: "x \<in> set (timeline_rows db room limit None)" "parse_row cx x = Inr e"
    using evs(1) by (auto simp: timeline_def then_ok_Inr_iff dest!: collect_set)
  then have rm: "x \<in> set (events db)" by (auto simp: timeline_rows_def dest!: in_set_takeD)
  moreover have "coherent cx x" using rm inv by (simp add: db_inv_def rows_inv_def)
  then have "reads_as x e" using parse_row_coherent [OF laws] x(2) by fastforce
  then have "ev_event_id e = r_event_id x" unfolding reads_as_def by blast
  ultimately have "parse_row cx r = Inr e" using ids [of x] e(2) x(2) by metis
  with evs(1) ne last show ?thesis by blast
qed

lemma parse_echo_row:
  assumes "codec_laws cx" "i64_min \<le> d" "d \<le> i64_max" "i64_min \<le> ts" "ts \<le> i64_max"
  shows "parse_row cx (echo_row cx eid room sender ts d body) =
    Inr ((echo_event eid room sender ts d body)\<lparr>ev_send_state := Sending, ev_decrypted := None, ev_decrypt_failed := False\<rparr>)"
proof -
  have "from_wire (echo_payload eid room sender ts d body) = Inr (echo_event eid room sender ts d body)"
    using assms by (intro from_wire_echo) auto
  moreover have "dec cx (enc cx (echo_payload eid room sender ts d body)) = Inr (echo_payload eid room sender ts d body)"
    by (rule canon_dec [OF assms(1) canon_enc [OF storable_echo]])
  ultimately show ?thesis
    by (simp add: parse_row_def parse_stored_payload_def echo_row_def send_state_from_local_def DECRYPT_FAILED_def)
qed

lemma queue_send_shows:
  assumes laws: "codec_laws cx" and inv: "db_inv cx db"
    and q: "queue_send cx db n id_ts ts room sender body = Inr (db', txn)"
    and ts: "i64_min \<le> ts" "ts \<le> i64_max" and limit: "0 < limit"
  shows "\<exists>evs. timeline cx db' room limit None = Inr evs \<and> evs \<noteq> [] \<and>
    ev_event_id (last evs) = snd (next_send_ids n id_ts) \<and> ev_send_state (last evs) = Sending \<and>
    ev_sender (last evs) = sender \<and> ev_origin_server_ts (last evs) = ts \<and>
    ev_content (last evs) = JObj [(''body'', JStr body), (''msgtype'', JStr ''p.text'')]"
proof -
  let ?eid = "snd (next_send_ids n id_ts)" and ?d = "max_depth db room + 1"
  let ?r = "echo_row cx ?eid room sender ts ?d body"
  have d: "?d \<le> i64_max" and ev': "events db' = events db @ [?r]"
    using q by (auto simp: queue_send_Inr Let_def)
  have greatest: "row_pos r \<le> row_pos ?r" if "r \<in> set (events db')" "in_timeline room None r" for r
  proof (cases "r = ?r")
    case False
    with that ev' have "r \<in> set (events db)" "r_room_id r = room" by (auto simp: in_timeline_def)
    then have "r_depth r \<le> max_depth db room" by (rule max_depth_ge)
    then show ?thesis by (simp add: row_pos_def dag_pos_le echo_row_def)
  qed simp
  obtain evs where evs: "timeline cx db' room limit None = Inr evs" "evs \<noteq> []" "parse_row cx ?r = Inr (last evs)"
    using timeline_ends_with_newest [OF laws queue_send_inv [OF inv q ts] limit _ _ greatest] ev'
    by (auto simp: in_timeline_def echo_row_def)
  have "i64_min \<le> ?d"
    using max_depth_range(1) [of db cx room] inv by (simp add: db_inv_def rows_inv_def i64_min_def)
  then have "last evs = (echo_event ?eid room sender ts ?d body)\<lparr>ev_send_state := Sending, ev_decrypted := None,
      ev_decrypt_failed := False\<rparr>"
    using parse_echo_row [OF laws _ d ts] evs(3) by simp
  with evs(1,2) show ?thesis by (simp add: echo_event_def)
qed

section \<open>Acknowledgement and sync in either order\<close>

lemma apply_single:
  assumes "from_wire v = Inr ev"
  shows "\<exists>db' k. apply_events cx db [v] = Inr (db', k) \<and> event_ids db' = insert (ev_event_id ev) (event_ids db)
    \<and> (k = (if has_event db (ev_event_id ev) then 0 else 1))
    \<and> pending_sends_tab db' = pending_sends_tab db"
proof -
  let ?db' = "foldl (apply_one cx) db [ev]"
  have "apply_events cx db [v] = Inr (?db', length (events ?db') - length (events db))"
    unfolding apply_events_Inr using assms by simp
  moreover have "events ?db' = log_add cx (events db) [ev]" by (rule events_foldl)
  moreover have "pending_sends_tab ?db' = pending_sends_tab db" by (rule foldl_apply_frame)
  ultimately show ?thesis
    by (intro exI [of _ ?db'] exI [of _ "length (events ?db') - length (events db)"])
       (auto simp: event_ids_def has_event_def has_key_iff)
qed

lemma fail_send_effect:
  assumes "db_inv cx db" "find_row p_txn_id txn (pending_sends_tab db) = Some p"
  shows "event_ids (fail_send db txn) = event_ids db \<and>
    (\<forall>r\<in>set (events (fail_send db txn)). r_event_id r = p_event_id p \<longrightarrow> r_local r = 2) \<and>
    pending_sends_tab (fail_send db txn) = filter (\<lambda>q. p_txn_id q \<noteq> txn) (pending_sends_tab db)"
proof -
  let ?evs = "upd_rows (\<lambda>r. r_event_id r = p_event_id p) (\<lambda>r. r\<lparr>r_local := 2\<rparr>) (events db)"
  have f: "fail_send db txn = dequeue (db\<lparr>events := ?evs\<rparr>) txn"
    using assms(2) by (simp add: fail_send_def)
  have "map r_event_id ?evs = map r_event_id (events db)" by (rule upd_rows_keys) simp
  then have "event_ids (fail_send db txn) = event_ids db"
    by (simp add: f event_ids_list del: set_map)
  then show ?thesis by (auto simp: f dequeue_def)
qed

end
