(* ===== verification/Store_Spec.thy ===== *)
theory Store_Spec
  imports Store_Send
begin

text \<open>
  The contract of the store: what a client of \<open>Store\<close> may rely on, stated over the stores that its
  operations can produce (\<open>reachable\<close>).
\<close>

section \<open>Sample events for the closed instances\<close>

definition sample_event :: "string \<Rightarrow> string \<Rightarrow> string option \<Rightarrow> nat \<Rightarrow> jobject \<Rightarrow> json" where
  "sample_event eid ty key d content =
     JObj ([(''event_id'', JStr eid), (''room_id'', JStr ''!r''), (''sender'', JStr ''@a''),
            (''type'', JStr ty), (''origin_server_ts'', json_i64 (int d)), (''depth'', json_i64 (int d)),
            (''content'', JObj content)] @
           (case key of None \<Rightarrow> [] | Some k \<Rightarrow> [(''state_key'', JStr k)]))"

definition sample_parsed :: "string \<Rightarrow> string \<Rightarrow> string option \<Rightarrow> nat \<Rightarrow> jobject \<Rightarrow> stored_event" where
  "sample_parsed eid ty key d content =
     \<lparr> ev_event_id = eid, ev_room_id = ''!r'', ev_sender = ''@a'', ev_event_type = ty,
       ev_state_key = key, ev_origin_server_ts = int d, ev_depth = int d,
       ev_content = JObj content, ev_payload = sample_event eid ty key d content,
       ev_send_state = Confirmed, ev_decrypted = None, ev_decrypt_failed = False \<rparr>"

lemma from_wire_sample:
  assumes "int d \<le> i64_max"
  shows "from_wire (sample_event eid ty key d content) = Inr (sample_parsed eid ty key d content)"
proof -
  have "i64_min \<le> int d" by (simp add: i64_min_def)
  with assms have "as_i64 (json_i64 (int d)) = Some (int d)" by simp
  then show ?thesis
    by (cases key) (simp_all add: from_wire_def sample_event_def sample_parsed_def str_field_def
        int_field_def jindex_def)
qed

lemma json_i64_storable [simp]:
  "float_free (json_i64 i)" "keys_distinct (json_i64 i)" "json_depth (json_i64 i) = 0"
  by (simp_all add: json_i64_def)

lemma storable_sample:
  assumes "storable (JObj content)" "json_depth (JObj content) \<le> 100"
  shows "storable (sample_event eid ty key d content)"
proof -
  let ?v = "sample_event eid ty key d content"
  have c: "float_free (JObj content)" "keys_distinct (JObj content)" using assms(1) by (simp_all add: storable_def)
  have "float_free ?v"
    using c(1) by (cases key) (simp_all add: sample_event_def del: float_free.simps(3), simp_all)
  moreover have "keys_distinct ?v"
    using c(2) by (cases key) (simp_all add: sample_event_def)
  moreover have "json_depth ?v \<le> 127"
    using assms(2) by (cases key) (simp_all add: sample_event_def)
  ultimately show ?thesis by (simp add: storable_def)
qed

lemma storable_text [simp]: "storable (JObj [])" "storable (JObj [(k, JStr t)])"
  by (simp_all add: storable_def)

definition db_name :: "json db" where
  "db_name = foldl (apply_one id_codec) empty_db
     [sample_parsed ''$n1'' ''p.room.name'' (Some []) 1 [(''name'', JStr ''Nest'')]]"

definition db_two :: "json db" where
  "db_two = foldl (apply_one id_codec) db_name
     [sample_parsed ''$n2'' ''p.room.name'' (Some []) 1 [(''name'', JStr ''Coop'')]]"

lemma reach_apply:
  assumes "reachable cx db" "\<forall>v\<in>set evs. storable v" "collect_res from_wire evs = Inr parsed"
  shows "reachable cx (foldl (apply_one cx) db parsed)"
proof (rule reach_step [OF assms(1) step_sync [OF assms(2)]])
  let ?db = "foldl (apply_one cx) db parsed"
  show "apply_events cx db evs = Inr (?db, length (events ?db) - length (events db))"
    using assms(3) by (simp add: apply_events_Inr)
qed

lemma reach_db_name: "reachable id_codec db_name"
  unfolding db_name_def
  by (rule reach_apply [OF reach_empty,
        of "[sample_event ''$n1'' ''p.room.name'' (Some []) 1 [(''name'', JStr ''Nest'')]]"])
     (simp_all add: from_wire_sample i64_max_def storable_sample)

section \<open>Appending events\<close>

lemma apply_ids:
  assumes "collect_res from_wire evs = Inr parsed" "apply_events cx db evs = Inr (db', n)"
  shows "event_ids db' = event_ids db \<union> ev_event_id ` set parsed"
  using assms by (auto simp: apply_events_Inr events_foldl event_ids_def log_add_ids)

lemma apply_count:
  assumes "keys_inv db" "collect_res from_wire evs = Inr parsed" "apply_events cx db evs = Inr (db', n)"
  shows "n = card (ev_event_id ` set parsed - event_ids db)"
proof -
  have e: "events db' = log_add cx (events db) parsed" "n = length (events db') - length (events db)"
    using assms(2,3) by (auto simp: apply_events_Inr events_foldl)
  have d: "distinct (map r_event_id (events db))" using assms(1) by (simp add: keys_inv_def)
  have c: "card (event_ids db) = length (events db)" "card (event_ids db') = length (events db')"
    using distinct_card [OF d] distinct_card [OF log_add_distinct [OF d, of cx parsed]]
    by (simp_all add: event_ids_def e)
  have u: "event_ids db' = event_ids db \<union> (ev_event_id ` set parsed - event_ids db)"
    using apply_ids [OF assms(2,3)] by auto
  have "card (event_ids db') = card (event_ids db) + card (ev_event_id ` set parsed - event_ids db)"
    unfolding u by (subst card_Un_disjoint) (auto simp: event_ids_def)
  with c e(2) show ?thesis by simp
qed

text \<open>
  C25: Applying a batch succeeds exactly when every event has its required fields with their types,
  and otherwise fails as malformed (the caller keeps the old store). On success the log holds
  exactly the old ids and the batch's ids, and the count returned is the number of new ids.
\<close>

theorem apply_events_contract:
  assumes "reachable cx db"
  shows "(case apply_events cx db evs of
      Inl e \<Rightarrow> (\<exists>v\<in>set evs. \<not> wire_ok v) \<and> (\<exists>reason. e = MalformedEvent reason)
    | Inr (db', n) \<Rightarrow> (\<forall>v\<in>set evs. wire_ok v) \<and>
        (\<exists>parsed. collect_res from_wire evs = Inr parsed \<and>
           event_ids db' = event_ids db \<union> ev_event_id ` set parsed \<and>
           n = card (ev_event_id ` set parsed - event_ids db)))"
proof (cases "apply_events cx db evs")
  case (Inl e)
  then have "collect_res from_wire evs = Inl e" by (simp add: apply_events_Inl)
  with Inl show ?thesis
    using collect_from_wire_Inl collect_from_wire_ok [of evs] by fastforce
next
  case (Inr res)
  obtain db' n where res: "res = (db', n)" by (cases res)
  with Inr obtain parsed where p: "collect_res from_wire evs = Inr parsed"
    by (auto simp: apply_events_Inr)
  have "keys_inv db" using reachable_inv [OF assms] by (simp add: db_inv_def)
  with p Inr show ?thesis
    using apply_ids [of evs parsed cx db db' n] apply_count [of db evs parsed cx db' n]
      collect_from_wire_ok [of evs] by (auto simp: res)
qed

theorem apply_events_contract_witness:
  "case apply_events id_codec (empty_db :: json db) [sample_event ''$m'' ''p.room.message'' None 3 []] of
      Inl e \<Rightarrow> False | Inr (db', n) \<Rightarrow> ''$m'' \<in> event_ids db' \<and> n = 1"
  using apply_events_contract [OF reach_empty [of id_codec],
      of "[sample_event ''$m'' ''p.room.message'' None 3 []]"]
  by (auto simp: from_wire_sample i64_max_def sample_parsed_def event_ids_def empty_db_def
      from_wire_Inr_iff [symmetric] split: sum.splits)

text \<open>
  Delivering a whole batch a second time changes nothing: the store is the same, row by row,
  and no event is reported as new.
\<close>

theorem apply_events_replay:
  assumes "reachable cx db" "apply_events cx db evs = Inr (db', n)"
  shows "apply_events cx db' evs = Inr (db', 0)"
  using apply_events_replay_eq [OF _ assms(2)] reachable_inv [OF assms(1)]
  by (simp add: db_inv_def keys_inv_def)

theorem apply_events_replay_witness:
  "\<exists>db' n. apply_events id_codec empty_db [sample_event ''$m'' ''p.room.name'' (Some []) 3 []] = Inr (db', n) \<and>
     apply_events id_codec db' [sample_event ''$m'' ''p.room.name'' (Some []) 3 []] = Inr (db', 0)"
proof -
  have "\<exists>db' n. apply_events id_codec (empty_db :: json db)
      [sample_event ''$m'' ''p.room.name'' (Some []) 3 []] = Inr (db', n)"
    by (simp add: apply_events_Inr from_wire_sample i64_max_def)
  then show ?thesis using apply_events_replay [OF reach_empty] by blast
qed

text \<open>
  C26: Current state is last-writer-wins by depth. After a batch the entry of each state key is
  either the entry it had or one of the batch's events for the key, none of the batch's events for
  the key has a greater depth than the entry, and the entry it had is not replaced by a shallower one.
\<close>

theorem current_state_winner:
  assumes "reachable cx db" "apply_events cx db evs = Inr (db', n)"
    and "collect_res from_wire evs = Inr parsed"
  shows "(state_map db k \<noteq> None \<or> (\<exists>ev\<in>set parsed. state_key ev = Some k)) =
      (state_map db' k \<noteq> None) \<and>
    (\<forall>eid d. state_map db' k = Some (eid, d) \<longrightarrow>
      (state_map db k = Some (eid, d) \<or>
         (\<exists>ev\<in>set parsed. state_key ev = Some k \<and> ev_event_id ev = eid \<and> ev_depth ev = d)) \<and>
      (\<forall>ev\<in>set parsed. state_key ev = Some k \<longrightarrow> ev_depth ev \<le> d) \<and>
      (\<forall>eid0 d0. state_map db k = Some (eid0, d0) \<longrightarrow> d0 \<le> d))"
proof -
  have db': "db' = foldl (apply_one cx) db parsed" using assms(2,3) by (auto simp: apply_events_Inr)
  have orig: "state_map db k = Some w \<or> (\<exists>ev\<in>set parsed. state_key ev = Some k \<and> state_entry ev = w)"
    if "state_map db' k = Some w" for w
    using that room_log.winner_origin unfolding db' by blast
  have pres: "\<exists>w. state_map db' k = Some w" if "ev \<in> set parsed" "state_key ev = Some k" for ev
    using that room_log.present unfolding db' by blast
  have great: "ev_depth ev \<le> snd w" if "state_map db' k = Some w" "ev \<in> set parsed" "state_key ev = Some k" for ev w
    using that room_log.winner_greatest [of cx db parsed k w ev] by (simp add: db' state_entry_def)
  have old: "\<exists>w. state_map db' k = Some w \<and> snd w0 \<le> snd w" if "state_map db k = Some w0" for w0
    using that foldl_lww_Some [of w0] foldl_lww_upper [of "Some w0"]
    unfolding db' room_log.look_foldl by fastforce
  show ?thesis
    using orig pres great old by (fastforce simp: state_entry_def)
qed

theorem current_state_winner_witness:
  "\<exists>db' n. apply_events id_codec db_name [sample_event ''$n2'' ''p.room.name'' (Some []) 1 []] = Inr (db', n) \<and>
     (\<exists>eid d. state_map db' (''!r'', ''p.room.name'', []) = Some (eid, d) \<and> 1 \<le> d)"
proof -
  let ?e = "sample_event ''$n2'' ''p.room.name'' (Some []) 1 []"
  have c: "collect_res from_wire [?e] = Inr [sample_parsed ''$n2'' ''p.room.name'' (Some []) 1 []]"
    by (simp add: from_wire_sample i64_max_def)
  then obtain db' n where a: "apply_events id_codec db_name [?e] = Inr (db', n)"
    by (auto simp: apply_events_Inr)
  show ?thesis
    using a current_state_winner [OF reach_db_name a c, of "(''!r'', ''p.room.name'', [])"]
    by (auto simp: sample_parsed_def state_key_def)
qed

section \<open>Convergence\<close>

text \<open>
  C1: Two devices that receive the same events, in any order, split into any batches and with any
  repetitions, show the same: every timeline page, the room list, every state event and membership
  and the list of messages waiting to be decrypted are equal. The events' ids must identify them,
  and two state events for one key must differ in depth.
\<close>

theorem stores_converge:
  assumes "apply_batches cx empty_db bs = Inr a" "apply_batches cx empty_db bs' = Inr b"
    and "set (concat bs) = set (concat bs')"
    and "ids_unique (set (concat bs))" "versions_unique (set (concat bs))"
  shows "timeline cx a room limit before = timeline cx b room limit before \<and>
    list_rooms cx a = list_rooms cx b \<and> current_state cx a room ty key = current_state cx b room ty key \<and>
    membership cx a room user = membership cx b room user \<and>
    is_room_encrypted a room = is_room_encrypted b room \<and> pending_mls cx a = pending_mls cx b"
proof -
  have "same_content a b" using assms by (rule batches_converge)
  moreover have "keys_inv a" using assms(1) by (rule batches_keys)
  ultimately show ?thesis by (simp add: same_reads same_is_room_encrypted)
qed

definition ev_a :: json where "ev_a = sample_event ''$a'' ''p.room.name'' (Some []) 1 [(''name'', JStr ''A'')]"
definition ev_b :: json where "ev_b = sample_event ''$b'' ''p.room.name'' (Some []) 2 [(''name'', JStr ''B'')]"

lemma from_wire_ab [simp]:
  "from_wire ev_a = Inr (sample_parsed ''$a'' ''p.room.name'' (Some []) 1 [(''name'', JStr ''A'')])"
  "from_wire ev_b = Inr (sample_parsed ''$b'' ''p.room.name'' (Some []) 2 [(''name'', JStr ''B'')])"
  by (simp_all add: ev_a_def ev_b_def from_wire_sample i64_max_def)

lemma apply_batches_ok:
  "collect_res from_wire (concat bs) = Inr parsed \<Longrightarrow> \<exists>db'. apply_batches cx db bs = Inr db'"
proof (induction bs arbitrary: db parsed)
  case Nil
  then show ?case by simp
next
  case (Cons b bs)
  then obtain p q where pq: "collect_res from_wire b = Inr p" "collect_res from_wire (concat bs) = Inr q"
    by (auto simp: collect_res_append then_ok_Inr_iff split: sum.splits)
  then have "\<exists>db1 n. apply_events cx db b = Inr (db1, n)" by (simp add: apply_events_Inr)
  with Cons.IH [OF pq(2)] show ?case by (auto simp: then_ok_Inr_iff)
qed

lemma get_ab [simp]:
  "jget ev_a ''event_id'' = Some (JStr ''$a'')" "jget ev_b ''event_id'' = Some (JStr ''$b'')"
  by (simp_all add: ev_a_def ev_b_def sample_event_def)

theorem stores_converge_witness:
  "\<exists>a b. apply_batches id_codec empty_db [[ev_a], [ev_b]] = Inr a \<and>
     apply_batches id_codec empty_db [[ev_b, ev_a, ev_b]] = Inr b \<and>
     list_rooms id_codec a = list_rooms id_codec b"
proof -
  obtain a where a: "apply_batches id_codec empty_db [[ev_a], [ev_b]] = Inr a"
    using apply_batches_ok [of "[[ev_a], [ev_b]]" _ id_codec empty_db] by auto
  obtain b where b: "apply_batches id_codec empty_db [[ev_b, ev_a, ev_b]] = Inr b"
    using apply_batches_ok [of "[[ev_b, ev_a, ev_b]]" _ id_codec empty_db] by auto
  have "set (concat [[ev_a], [ev_b]]) = set (concat [[ev_b, ev_a, ev_b]])" by auto
  moreover have "ids_unique (set (concat [[ev_a], [ev_b]]))" by (auto simp: ids_unique_def)
  moreover have "versions_unique (set (concat [[ev_a], [ev_b]]))"
    by (auto simp: versions_unique_def sample_parsed_def)
  ultimately show ?thesis using a b stores_converge [OF a b] by blast
qed

section \<open>Well-formed stores\<close>

text \<open>
  C11: In every store that the operations can produce, event ids, state keys, transaction ids and
  echo ids are unique, current state refers only to logged events, every stored payload parses to
  the event its columns describe, and the events shown as sending are exactly the echoes of the
  queued sends.
\<close>

theorem store_invariant:
  assumes "reachable cx db"
  shows "keys_inv db \<and> fk_inv db \<and> rows_inv cx db \<and> queue_inv db"
  using reachable_inv [OF assms] by (simp add: db_inv_def)

theorem store_invariant_witness:
  "keys_inv db_name \<and> fk_inv db_name \<and> rows_inv id_codec db_name \<and> queue_inv db_name"
  by (rule store_invariant [OF reach_db_name])

text \<open>
  C24: A timeline read always succeeds on a store the operations produced and returns the newest
  \<open>limit\<close> events of the room that are older than the cursor and no commits, in ascending order of
  (depth, id), each with its row's columns, send state and decryption result.
\<close>

theorem timeline_reads_page:
  assumes "codec_laws cx" "reachable cx db"
  shows "\<exists>evs. timeline cx db room limit before = Inr evs \<and> page_of db room limit before evs"
  using timeline_page [OF assms(1) reachable_inv [OF assms(2)]] .

theorem timeline_reads_page_witness:
  "\<exists>evs. timeline id_codec db_name ''!r'' 50 None = Inr evs \<and> page_of db_name ''!r'' 50 None evs"
  by (rule timeline_reads_page [OF id_codec_laws reach_db_name])

section \<open>Loading older events\<close>

text \<open>
  Loading older loses nothing and repeats nothing when no two timeline events of the room share
  a depth: with the depth of the oldest loaded event as the next cursor, the rows the cursor admits
  are exactly the rows the current page left out.
\<close>

theorem load_older_complete:
  assumes "codec_laws cx" "reachable cx db"
    and "timeline cx db room limit before = Inr (ev # evs)"
    and "inj_on r_depth {r \<in> set (events db). in_timeline room before r}"
  shows "{r \<in> set (events db). in_timeline room before r \<and> r_event_id r \<notin> ev_event_id ` set (ev # evs)}
       = {r \<in> set (events db). in_timeline room (Some (ev_depth ev)) r}"
proof -
  have page: "page_of db room limit before (ev # evs)"
    using timeline_page [OF assms(1) reachable_inv [OF assms(2)], of room limit before] assms(3) by auto
  have "\<forall>d. before = Some d \<longrightarrow> ev_depth ev < d"
    using page by (auto simp: page_of_def in_timeline_def reads_as_def)
  then show ?thesis
    using page reachable_inv [OF assms(2)] assms(4) by (intro page_step) (auto simp: db_inv_def)
qed

definition row_n1 :: "json event_row" where
  "row_n1 = row_of_event id_codec (sample_parsed ''$n1'' ''p.room.name'' (Some []) 1 [(''name'', JStr ''Nest'')])"

definition row_n2 :: "json event_row" where
  "row_n2 = row_of_event id_codec (sample_parsed ''$n2'' ''p.room.name'' (Some []) 1 [(''name'', JStr ''Coop'')])"

lemma events_db_name: "events db_name = [row_n1]"
  by (simp add: db_name_def insert_event_def has_event_def empty_db_def has_key_iff row_n1_def)

lemma events_db_two: "events db_two = [row_n1, row_n2]"
  by (simp add: db_two_def insert_event_def has_event_def events_db_name has_key_iff row_n2_def)
     (simp add: row_n1_def sample_parsed_def)

lemma reach_db_two: "reachable id_codec db_two"
  unfolding db_two_def
  by (rule reach_apply [OF reach_db_name,
        of "[sample_event ''$n2'' ''p.room.name'' (Some []) 1 [(''name'', JStr ''Coop'')]]"])
     (simp_all add: from_wire_sample i64_max_def storable_sample)

lemma rows_n12:
  "r_event_id row_n1 = ''$n1''" "r_event_id row_n2 = ''$n2''" "r_depth row_n1 = 1" "r_depth row_n2 = 1"
  "in_timeline ''!r'' None row_n1" "in_timeline ''!r'' None row_n2" "r_room_id row_n1 = ''!r''"
  by (simp_all add: row_n1_def row_n2_def sample_parsed_def row_of_event_def in_timeline_def)

lemma page_nonempty:
  assumes "codec_laws cx" "reachable cx db" "0 < limit" "r \<in> set (events db)" "in_timeline room before r"
  obtains ev evs where "timeline cx db room limit before = Inr (ev # evs)"
    "page_of db room limit before (ev # evs)"
proof -
  obtain es where es: "timeline cx db room limit before = Inr es" "page_of db room limit before es"
    using timeline_page [OF assms(1) reachable_inv [OF assms(2)]] by blast
  have "filter (in_timeline room before) (events db) \<noteq> []" using assms(4,5) by (auto simp: filter_empty_conv)
  then have "es \<noteq> []" using es(2) assms(3) by (cases es) (simp_all add: page_of_def min_def split: if_splits)
  with es that show thesis by (cases es) auto
qed

theorem load_older_complete_witness:
  "\<exists>ev evs. timeline id_codec db_name ''!r'' 1 None = Inr (ev # evs) \<and>
     {r \<in> set (events db_name). in_timeline ''!r'' None r \<and> r_event_id r \<notin> ev_event_id ` set (ev # evs)}
     = {r \<in> set (events db_name). in_timeline ''!r'' (Some (ev_depth ev)) r}"
proof -
  obtain ev evs where "timeline id_codec db_name ''!r'' 1 None = Inr (ev # evs)"
    by (rule page_nonempty [OF id_codec_laws reach_db_name, of 1 row_n1 "''!r''" None])
       (simp_all add: events_db_name rows_n12)
  moreover have "inj_on r_depth {r \<in> set (events db_name). in_timeline ''!r'' None r}"
    by (auto simp: events_db_name inj_on_def)
  ultimately show ?thesis using load_older_complete [OF id_codec_laws reach_db_name] by blast
qed

text \<open>
  An event that shares the depth of the oldest loaded event and fell off the page is returned
  by no page loaded with that depth as the cursor, whatever the limit: the cursor skips it.
\<close>

theorem load_older_gap:
  assumes "codec_laws cx" "reachable cx db"
    and "timeline cx db room limit before = Inr (ev # evs)"
    and "r \<in> set (events db)" "in_timeline room before r" "r_depth r = ev_depth ev"
    and "r_event_id r \<notin> ev_event_id ` set (ev # evs)"
    and "timeline cx db room limit' (Some (ev_depth ev)) = Inr evs'"
  shows "r_event_id r \<notin> ev_event_id ` set evs'"
proof -
  have page: "page_of db room l b es" if "timeline cx db room l b = Inr es" for l b es
    using timeline_page [OF assms(1) reachable_inv [OF assms(2)], of room l b] that by simp
  have "keys_inv db" using reachable_inv [OF assms(2)] by (simp add: db_inv_def)
  then show ?thesis
    by (rule page_gap [OF page [OF assms(3)] _ assms(4,5,7,6) page [OF assms(8)]])
qed

theorem load_older_gap_witness:
  "\<exists>ev evs. timeline id_codec db_two ''!r'' 1 None = Inr (ev # evs) \<and> ''$n1'' \<notin> ev_event_id ` set (ev # evs) \<and>
     (\<forall>evs'. timeline id_codec db_two ''!r'' 50 (Some (ev_depth ev)) = Inr evs' \<longrightarrow> ''$n1'' \<notin> ev_event_id ` set evs')"
proof -
  obtain ev evs where t: "timeline id_codec db_two ''!r'' 1 None = Inr (ev # evs)"
      and p: "page_of db_two ''!r'' 1 None (ev # evs)"
    by (rule page_nonempty [OF id_codec_laws reach_db_two, of 1 row_n1 "''!r''" None])
       (simp_all add: events_db_two rows_n12)
  have lt: "row_pos row_n1 < row_pos row_n2"
    by (simp add: row_pos_def rows_n12 dag_pos_less)
  have l: "evs = []" using p by (simp add: page_of_def events_db_two rows_n12)
  obtain r0 where r0: "r0 \<in> set (events db_two)" "reads_as r0 ev" using p by (auto simp: page_of_def)
  have "ev_event_id ev \<noteq> ''$n1''"
  proof
    assume "ev_event_id ev = ''$n1''"
    then have "r0 = row_n1" using r0 by (auto simp: events_db_two reads_as_def rows_n12)
    then have "\<not> row_pos row_n2 < ev_pos ev" "row_pos row_n2 \<noteq> ev_pos ev"
      using lt reads_as_pos [OF r0(2)] by auto
    moreover have "row_n2 \<in> set (events db_two)" by (simp add: events_db_two)
    ultimately show False
      using p l \<open>ev_event_id ev = ''$n1''\<close> rows_n12 unfolding page_of_def by auto
  qed
  moreover have "ev_depth ev = 1" using r0 by (auto simp: events_db_two reads_as_def rows_n12)
  ultimately show ?thesis
    using t l rows_n12 load_older_gap [OF id_codec_laws reach_db_two t, of row_n1 50]
    by (auto simp: events_db_two)
qed

section \<open>The room list and the decrypt pass\<close>

text \<open>
  The room list fails as a whole exactly when some known room's name or topic is a number or a
  Boolean. Otherwise it lists each known room once, most recent activity first and ties by id, with
  its name, topic, encryption flag and last activity.
\<close>

theorem list_rooms_contract:
  assumes "codec_laws cx" "reachable cx db"
  shows "case list_rooms cx db of
      Inl e \<Rightarrow> (\<exists>room\<in>known_rooms db. \<not> summary_readable cx db room)
    | Inr rooms \<Rightarrow> (\<forall>room\<in>known_rooms db. summary_readable cx db room) \<and>
        rs_room_id ` set rooms = known_rooms db \<and>
        sorted_wrt (\<lambda>a b. (- last_activity db (rs_room_id a), rs_room_id a)
          < (- last_activity db (rs_room_id b), rs_room_id b)) rooms \<and>
        (\<forall>s\<in>set rooms. summary_of cx db (rs_room_id s) s)"
proof -
  have rows: "rows_inv cx db" using reachable_inv [OF assms(2)] by (simp add: db_inv_def)
  show ?thesis
  proof (cases "list_rooms cx db")
    case (Inl e)
    show ?thesis unfolding Inl sum.case by (rule list_rooms_fails [OF assms(1) rows Inl])
  next
    case (Inr rooms)
    show ?thesis unfolding Inr sum.case by (rule list_rooms_reads [OF assms(1) rows Inr])
  qed
qed

theorem list_rooms_contract_witness:
  "case list_rooms id_codec db_name of
      Inl e \<Rightarrow> (\<exists>room\<in>known_rooms db_name. \<not> summary_readable id_codec db_name room)
    | Inr rooms \<Rightarrow> rs_room_id ` set rooms = known_rooms db_name"
  using list_rooms_contract [OF id_codec_laws reach_db_name] by (auto split: sum.splits)

text \<open>
  The list of events waiting for MLS fails as a whole exactly when one of them carries a number
  or a Boolean as its ciphertext or commit, so one such event stops every later decrypt pass.
\<close>

theorem pending_mls_contract:
  assumes "codec_laws cx" "reachable cx db"
  shows "(\<exists>items. pending_mls cx db = Inr items) \<longleftrightarrow>
    (\<forall>r\<in>set (events db). awaits_mls r \<longrightarrow> mls_readable cx r)"
  by (rule pending_mls_total [OF assms(1) reachable_inv [OF assms(2)]])

definition db_poison :: "json db" where
  "db_poison = foldl (apply_one id_codec) db_name
     [sample_parsed ''$p'' ''p.room.encrypted'' None 5 [(''ciphertext'', JBool True)]]"

lemma reach_db_poison: "reachable id_codec db_poison"
proof -
  have "storable (JObj [(''ciphertext'', JBool True)])" by (simp add: storable_def)
  then show ?thesis
    unfolding db_poison_def
    by (intro reach_apply [OF reach_db_name,
        of "[sample_event ''$p'' ''p.room.encrypted'' None 5 [(''ciphertext'', JBool True)]]"])
     (simp_all add: from_wire_sample i64_max_def storable_sample)
qed

lemma poison_row: "\<exists>r\<in>set (events db_poison). awaits_mls r \<and> \<not> mls_readable id_codec r"
proof (intro bexI conjI)
  let ?r = "row_of_event id_codec (sample_parsed ''$p'' ''p.room.encrypted'' None 5 [(''ciphertext'', JBool True)])"
  show "?r \<in> set (events db_poison)"
    by (simp add: db_poison_def insert_event_def has_event_def events_db_name has_key_iff rows_n12
        sample_parsed_def)
  show "awaits_mls ?r" by (simp add: awaits_mls_def row_of_event_def sample_parsed_def)
  show "\<not> mls_readable id_codec ?r"
    by (simp add: mls_readable_def content_field_def payload_of_def row_of_event_def sample_parsed_def
        id_codec_def sample_event_def)
qed

theorem pending_mls_contract_witness: "\<nexists>items. pending_mls id_codec db_poison = Inr items"
  using pending_mls_contract [OF id_codec_laws reach_db_poison] poison_row by blast

section \<open>Sending\<close>

text \<open>
  A queued message is on screen at once: the newest timeline entry of the room is its local
  echo, with the message's body, sender and time, in the state Sending.
\<close>

theorem queue_send_visible:
  assumes "codec_laws cx" "reachable cx db"
    and "queue_send cx db n id_ts ts room sender body = Inr (db', txn)"
    and "i64_min \<le> ts" "ts \<le> i64_max" "0 < limit"
  shows "\<exists>evs. timeline cx db' room limit None = Inr evs \<and> evs \<noteq> [] \<and>
    ev_event_id (last evs) = snd (next_send_ids n id_ts) \<and> ev_send_state (last evs) = Sending \<and>
    ev_sender (last evs) = sender \<and> ev_origin_server_ts (last evs) = ts \<and>
    ev_content (last evs) = JObj [(''body'', JStr body), (''msgtype'', JStr ''p.text'')]"
  by (rule queue_send_shows [OF assms(1) reachable_inv [OF assms(2)] assms(3-6)])

definition db_sent :: "json db" where
  "db_sent = db_name\<lparr>events := events db_name @ [echo_row id_codec ''$local-7-1'' ''!r'' ''@a'' 7 2 ''hi''],
     pending_sends_tab := [\<lparr> p_txn_id = ''m7-1'', p_room_id = ''!r'', p_body = ''hi'',
        p_event_id = ''$local-7-1'', p_created_ts = 7 \<rparr>]\<rparr>"

lemma sent_ids: "next_send_ids 1 7 = (''m7-1'', ''$local-7-1'')"
  by code_simp

lemma db_name_frame: "pending_sends_tab db_name = []" "max_depth db_name ''!r'' = 1"
proof -
  show "pending_sends_tab db_name = []"
    by (simp add: db_name_def foldl_apply_frame empty_db_def del: foldl.simps)
  show "max_depth db_name ''!r'' = 1" by (simp add: max_depth_def events_db_name rows_n12)
qed

lemma queue_sample: "queue_send id_codec db_name 1 7 7 ''!r'' ''@a'' ''hi'' = Inr (db_sent, ''m7-1'')"
  unfolding queue_send_Inr sent_ids
  by (simp add: db_name_frame i64_max_def has_event_def has_key_iff events_db_name rows_n12 db_sent_def)

lemma reach_db_sent: "reachable id_codec db_sent"
  by (rule reach_step [OF reach_db_name step_queue [OF _ _ queue_sample]]) (simp_all add: i64_min_def i64_max_def)

theorem queue_send_visible_witness:
  "\<exists>evs. timeline id_codec db_sent ''!r'' 1 None = Inr evs \<and> ev_event_id (last evs) = ''$local-7-1''"
  using queue_send_visible [OF id_codec_laws reach_db_name queue_sample, of 1]
  by (auto simp: sent_ids i64_min_def i64_max_def)

lemma find_sent:
  "find_row p_txn_id ''m7-1'' (pending_sends_tab db_sent) = Some \<lparr> p_txn_id = ''m7-1'', p_room_id = ''!r'',
     p_body = ''hi'', p_event_id = ''$local-7-1'', p_created_ts = 7 \<rparr>"
  by (simp add: db_sent_def)

lemma unreferred_sent: "echoes_unreferred db_sent"
proof -
  have "state_refers db_name eid \<Longrightarrow> has_event db_name eid" for eid
    using reachable_inv [OF reach_db_name] by (auto simp: db_inv_def fk_inv_def state_refers_def)
  then have "\<not> state_refers db_name ''$local-7-1''"
    by (auto simp: has_event_def has_key_iff events_db_name rows_n12)
  then show ?thesis by (simp add: echoes_unreferred_def db_sent_def state_refers_def)
qed

text \<open>
  C21: Acknowledging a queued send always succeeds as long as no echo is current state. The send
  leaves the queue, the others stay, and the log changes by exactly one exchange: the echo's id goes
  and the real id is there.
\<close>

theorem resolve_send_exchanges:
  assumes "codec_laws cx" "reachable cx db" "echoes_unreferred db"
    and "find_row p_txn_id txn (pending_sends_tab db) = Some p" "real \<noteq> p_event_id p"
  shows "\<exists>db'. resolve_send cx db txn real = Inr db' \<and>
    event_ids db' = insert real (event_ids db - {p_event_id p}) \<and>
    pending_sends_tab db' = filter (\<lambda>q. p_txn_id q \<noteq> txn) (pending_sends_tab db) \<and>
    room_state db' = room_state db \<and> sync_token db' = sync_token db"
proof -
  note inv = reachable_inv [OF assms(2)]
  obtain db' where db': "resolve_send cx db txn real = Inr db'"
    using resolve_send_total [OF assms(1) inv assms(3)] by blast
  then show ?thesis
    using resolve_send_ids [OF inv db' assms(4,5)] resolve_send_queue [OF db'] by blast
qed

theorem resolve_send_exchanges_witness:
  "\<exists>db'. resolve_send id_codec db_sent ''m7-1'' ''$real'' = Inr db' \<and>
     event_ids db' = insert ''$real'' (event_ids db_sent - {''$local-7-1''}) \<and> pending_sends_tab db' = []"
  using resolve_send_exchanges [OF id_codec_laws reach_db_sent unreferred_sent find_sent, of "''$real''"]
  by (auto simp: db_sent_def)

text \<open>
  C22: An acknowledgement and the arrival of the same event by sync commute: in either order the
  log ends with the same ids (the real one, once, and no echo) and the same queue.
\<close>

theorem ack_and_sync_commute:
  assumes "codec_laws cx" "reachable cx db" "echoes_unreferred db" "storable v"
    and "find_row p_txn_id txn (pending_sends_tab db) = Some p" "ev_event_id ev \<noteq> p_event_id p"
    and "from_wire v = Inr ev" "ev_state_key ev = None"
  shows "\<exists>db1 db2 db3 db4 n m. resolve_send cx db txn (ev_event_id ev) = Inr db1 \<and>
    apply_events cx db1 [v] = Inr (db2, n) \<and> n = 0 \<and>
    apply_events cx db [v] = Inr (db3, m) \<and> resolve_send cx db3 txn (ev_event_id ev) = Inr db4 \<and>
    event_ids db2 = event_ids db4 \<and> event_ids db2 = insert (ev_event_id ev) (event_ids db - {p_event_id p}) \<and>
    pending_sends_tab db2 = pending_sends_tab db4"
proof -
  let ?real = "ev_event_id ev"
  note inv = reachable_inv [OF assms(2)]
  obtain db1 where db1: "resolve_send cx db txn ?real = Inr db1"
    using resolve_send_total [OF assms(1) inv assms(3)] by blast
  have ids1: "event_ids db1 = insert ?real (event_ids db - {p_event_id p})"
    by (rule resolve_send_ids [OF inv db1 assms(5,6)])
  obtain db2 n where db2: "apply_events cx db1 [v] = Inr (db2, n)"
      "event_ids db2 = insert ?real (event_ids db1)" "n = (if has_event db1 ?real then 0 else 1)"
      "pending_sends_tab db2 = pending_sends_tab db1"
    using apply_single [OF assms(7)] by blast
  obtain db3 m where db3: "apply_events cx db [v] = Inr (db3, m)"
      "event_ids db3 = insert ?real (event_ids db)" "pending_sends_tab db3 = pending_sends_tab db"
    using apply_single [OF assms(7)] by blast
  have step: "store_step cx db db3" using assms(4) db3(1) by (intro step_sync) auto
  then have inv3: "db_inv cx db3" by (rule store_step_inv [OF _ inv])
  have "room_state db3 = room_state db"
    using db3(1) assms(7,8) by (auto simp: apply_events_Inr apply_one_def fold_state_def)
  then have "echoes_unreferred db3"
    using assms(3) db3(3) by (simp add: echoes_unreferred_def state_refers_def)
  then obtain db4 where db4: "resolve_send cx db3 txn ?real = Inr db4"
    using resolve_send_total [OF assms(1) inv3] by blast
  have "event_ids db4 = insert ?real (event_ids db3 - {p_event_id p})"
    using resolve_send_ids [OF inv3 db4 _ assms(6)] assms(5) db3(3) by simp
  moreover have "pending_sends_tab db4 = pending_sends_tab db1"
    using resolve_send_queue [OF db4] resolve_send_queue [OF db1] db3(3) by simp
  moreover have "n = 0" using db2(3) ids1 by (simp add: has_event_iff)
  ultimately show ?thesis using db1 db2 db3 db4 ids1 assms(6) by auto
qed

theorem ack_and_sync_commute_witness:
  "\<exists>db1 db2 n. resolve_send id_codec db_sent ''m7-1'' ''$real'' = Inr db1 \<and>
     apply_events id_codec db1 [sample_event ''$real'' ''p.room.message'' None 9 []] = Inr (db2, n) \<and> n = 0"
proof -
  let ?v = "sample_event ''$real'' ''p.room.message'' None 9 []"
    and ?e = "sample_parsed ''$real'' ''p.room.message'' None 9 []"
  have "from_wire ?v = Inr ?e" by (simp add: from_wire_sample i64_max_def)
  moreover have "storable ?v" by (simp add: storable_sample)
  moreover have "ev_event_id ?e = ''$real''" "ev_state_key ?e = None" by (simp_all add: sample_parsed_def)
  ultimately show ?thesis
    using ack_and_sync_commute [OF id_codec_laws reach_db_sent unreferred_sent _ find_sent, of ?v ?e] by auto
qed

text \<open>The log after a raced acknowledgement, row by row.\<close>

lemma resolve_send_raced_log:
  assumes "db_inv cx db" "resolve_send cx db txn real = Inr db'"
    and "find_row p_txn_id txn (pending_sends_tab db) = Some p" "has_event db real"
  shows "events db' = map (\<lambda>e. if r_event_id e = real \<and> r_type e = ''p.room.encrypted''
      then e\<lparr>r_decrypted := Some (p_body p), r_decrypt_state := DECRYPT_OK\<rparr> else e)
    (filter (\<lambda>e. r_event_id e \<noteq> p_event_id p) (events db))"
  using assms(1-3)
proof (cases rule: resolve_send_cases)
  case raced
  let ?f = "\<lambda>e. if r_event_id e = real \<and> r_type e = ''p.room.encrypted''
      then e\<lparr>r_decrypted := Some (p_body p), r_decrypt_state := DECRYPT_OK\<rparr> else e"
  have "filter (\<lambda>e. r_event_id e \<noteq> i) (map ?f rows) = map ?f (filter (\<lambda>e. r_event_id e \<noteq> i) rows)" for i rows
    by (induction rows) simp_all
  then show ?thesis unfolding raced(2) by (simp add: keep_plaintext_def upd_rows_def dequeue_def)
qed (use assms(4) in simp)

text \<open>
  C23: The plaintext of our own encrypted message survives sync delivering its ciphertext before
  the acknowledgement.  Resolving the send then removes the echo and stores the queued body as the
  decrypted text of the encrypted event with the acknowledged id, also where a decrypt attempt had
  marked it failed; every other event, and an event of that id that is not encrypted, stays as it was.
\<close>

theorem resolve_send_keeps_plaintext:
  assumes "codec_laws cx" "reachable cx db"
    and "find_row p_txn_id txn (pending_sends_tab db) = Some p" "real \<noteq> p_event_id p"
    and "r \<in> set (events db)" "r_event_id r = real" "resolve_send cx db txn real = Inr db'"
  shows "(\<exists>r'\<in>set (events db'). r_event_id r' = real \<and> r_type r' = r_type r \<and>
    (if r_type r = ''p.room.encrypted''
     then r_decrypted r' = Some (p_body p) \<and> r_decrypt_state r' = DECRYPT_OK \<and> \<not> awaits_mls r' else r' = r)) \<and>
    events db' = map (\<lambda>e. if r_event_id e = real \<and> r_type e = ''p.room.encrypted''
        then e\<lparr>r_decrypted := Some (p_body p), r_decrypt_state := DECRYPT_OK\<rparr> else e)
      (filter (\<lambda>e. r_event_id e \<noteq> p_event_id p) (events db))"
proof (rule conjI)
  obtain r' where r': "r' \<in> set (events db')" "r_event_id r' = real" "r_type r' = r_type r"
      "if r_type r = ''p.room.encrypted''
       then r_decrypted r' = Some (p_body p) \<and> r_decrypt_state r' = DECRYPT_OK else r' = r"
    using resolve_send_plaintext [OF reachable_inv [OF assms(2)] assms(7,3,4,5,6)] by blast
  then show "\<exists>r'\<in>set (events db'). r_event_id r' = real \<and> r_type r' = r_type r \<and>
    (if r_type r = ''p.room.encrypted''
     then r_decrypted r' = Some (p_body p) \<and> r_decrypt_state r' = DECRYPT_OK \<and> \<not> awaits_mls r' else r' = r)"
    by (intro bexI [of _ r']) (auto simp: awaits_mls_def DECRYPT_OK_def split: if_splits)
  have "has_event db real" using assms(5,6) by (auto simp: has_event_iff event_ids_def)
  from resolve_send_raced_log [OF reachable_inv [OF assms(2)] assms(7,3) this]
  show "events db' = map (\<lambda>e. if r_event_id e = real \<and> r_type e = ''p.room.encrypted''
        then e\<lparr>r_decrypted := Some (p_body p), r_decrypt_state := DECRYPT_OK\<rparr> else e)
      (filter (\<lambda>e. r_event_id e \<noteq> p_event_id p) (events db))" .
qed

definition row_ct :: "json event_row" where
  "row_ct = row_of_event id_codec
     (sample_parsed ''$real'' ''p.room.encrypted'' None 2 [(''ciphertext'', JStr ''00'')])"

definition db_raced :: "json db" where
  "db_raced = foldl (apply_one id_codec) db_sent
     [sample_parsed ''$real'' ''p.room.encrypted'' None 2 [(''ciphertext'', JStr ''00'')]]"

lemma reach_db_raced: "reachable id_codec db_raced"
  unfolding db_raced_def
  by (rule reach_apply [OF reach_db_sent,
        of "[sample_event ''$real'' ''p.room.encrypted'' None 2 [(''ciphertext'', JStr ''00'')]]"])
     (simp_all add: from_wire_sample i64_max_def storable_sample)

lemma events_db_raced: "events db_raced = events db_sent @ [row_ct]"
  by (simp add: db_raced_def insert_event_def has_event_def has_key_iff row_ct_def)
     (simp add: db_sent_def events_db_name rows_n12 echo_row_def sample_parsed_def)

lemma raced_frame: "pending_sends_tab db_raced = pending_sends_tab db_sent" "room_state db_raced = room_state db_sent"
proof -
  show "pending_sends_tab db_raced = pending_sends_tab db_sent"
    by (simp add: db_raced_def foldl_apply_frame del: foldl.simps)
  show "room_state db_raced = room_state db_sent"
    by (simp add: db_raced_def apply_one_def fold_state_def sample_parsed_def)
qed

lemma row_ct_fields: "r_event_id row_ct = ''$real''" "r_type row_ct = ''p.room.encrypted''"
  by (simp_all add: row_ct_def sample_parsed_def row_of_event_def)

theorem resolve_send_keeps_plaintext_witness:
  "\<exists>db'. resolve_send id_codec db_raced ''m7-1'' ''$real'' = Inr db' \<and>
     (\<exists>r'\<in>set (events db'). r_event_id r' = ''$real'' \<and> r_decrypted r' = Some ''hi'')"
proof -
  have f: "find_row p_txn_id ''m7-1'' (pending_sends_tab db_raced) = Some \<lparr> p_txn_id = ''m7-1'',
      p_room_id = ''!r'', p_body = ''hi'', p_event_id = ''$local-7-1'', p_created_ts = 7 \<rparr>"
    by (simp add: raced_frame find_sent)
  have "echoes_unreferred db_raced"
    using unreferred_sent by (simp add: echoes_unreferred_def state_refers_def raced_frame)
  then obtain db' where db': "resolve_send id_codec db_raced ''m7-1'' ''$real'' = Inr db'"
    using resolve_send_total [OF id_codec_laws reachable_inv [OF reach_db_raced]] by blast
  have "row_ct \<in> set (events db_raced)" by (simp add: events_db_raced)
  from conjunct1 [OF resolve_send_keeps_plaintext [OF id_codec_laws reach_db_raced f _ this _ db']] db'
  show ?thesis by (auto simp: row_ct_fields)
qed

text \<open>
  A send that failed for good stays on screen, marked failed, and leaves the queue; the other
  queued sends and all other events stay.
\<close>

theorem fail_send_marks:
  assumes "reachable cx db" "find_row p_txn_id txn (pending_sends_tab db) = Some p"
  shows "event_ids (fail_send db txn) = event_ids db \<and>
    (\<exists>r\<in>set (events (fail_send db txn)). r_event_id r = p_event_id p \<and>
       send_state_from_local (r_local r) = Failed) \<and>
    (\<forall>r\<in>set (events db). r_event_id r \<noteq> p_event_id p \<longrightarrow> r \<in> set (events (fail_send db txn))) \<and>
    pending_sends_tab (fail_send db txn) = filter (\<lambda>q. p_txn_id q \<noteq> txn) (pending_sends_tab db)"
proof -
  note inv = reachable_inv [OF assms(1)]
  note eff = fail_send_effect [OF inv assms(2)]
  obtain r where r: "r \<in> set (events db)" "echoes p r" using pending_found [OF inv assms(2)] by metis
  let ?r = "r\<lparr>r_local := 2\<rparr>"
  have f: "events (fail_send db txn) =
      upd_rows (\<lambda>r. r_event_id r = p_event_id p) (\<lambda>r. r\<lparr>r_local := 2\<rparr>) (events db)"
    using assms(2) by (simp add: fail_send_def)
  have "?r \<in> set (events (fail_send db txn))"
    unfolding f set_upd_rows using r by (intro image_eqI [of _ _ r]) (simp_all add: echoes_def)
  then have "\<exists>r\<in>set (events (fail_send db txn)). r_event_id r = p_event_id p \<and>
      send_state_from_local (r_local r) = Failed"
    using r(2) by (intro bexI [of _ ?r]) (simp_all add: send_state_from_local_def echoes_def)
  moreover have "r \<in> set (events (fail_send db txn))"
    if "r \<in> set (events db)" "r_event_id r \<noteq> p_event_id p" for r
    unfolding f set_upd_rows using that by (intro image_eqI [of _ _ r]) simp_all
  ultimately show ?thesis using eff by (intro conjI) simp_all
qed

theorem fail_send_marks_witness:
  "(\<exists>r\<in>set (events (fail_send db_sent ''m7-1'')). r_event_id r = ''$local-7-1'' \<and>
     send_state_from_local (r_local r) = Failed) \<and> pending_sends_tab (fail_send db_sent ''m7-1'') = []"
  using fail_send_marks [OF reach_db_sent find_sent] by (auto simp: db_sent_def)

text \<open>
  Two sends of one process never get the same transaction id or the same echo id unless they
  read the same counter value and the same clock: the ids are injective in both.
\<close>

theorem send_ids_unique:
  assumes "0 \<le> ts" "0 \<le> ts'"
  shows "(fst (next_send_ids n ts) = fst (next_send_ids n' ts') \<longleftrightarrow> n = n' \<and> ts = ts') \<and>
    (snd (next_send_ids n ts) = snd (next_send_ids n' ts') \<longleftrightarrow> n = n' \<and> ts = ts')"
  by (rule send_ids_parts_inj [OF assms])

theorem send_ids_unique_witness:
  "fst (next_send_ids 1 23) \<noteq> fst (next_send_ids 12 3)"
  using send_ids_unique [of 23 3 1 12] by simp

section \<open>Redelivery of a tied state event\<close>

text \<open>
  Delivering a state event of the log again is not always a no-op: when current state has
  moved on to another event of the same depth, the redelivered event takes its place back, and the
  count of new events, which decides whether the user interface is told, is zero.
\<close>

theorem redelivery_flips_ties:
  assumes "from_wire v = Inr ev" "state_key ev = Some k" "has_event db (ev_event_id ev)"
    and "state_map db k = Some (eid, ev_depth ev)" "eid \<noteq> ev_event_id ev"
  shows "\<exists>db'. apply_events cx db [v] = Inr (db', 0) \<and> state_map db' k = Some (ev_event_id ev, ev_depth ev) \<and>
    state_map db' k \<noteq> state_map db k \<and> events db' = events db"
proof -
  let ?db' = "foldl (apply_one cx) db [ev]"
  have e: "events ?db' = events db"
    unfolding events_foldl using assms(3) by (simp add: has_event_def)
  then have "apply_events cx db [v] = Inr (?db', 0)"
    using assms(1) unfolding apply_events_Inr by (intro exI [of _ "[ev]"]) simp
  moreover have "state_map ?db' k = Some (ev_event_id ev, ev_depth ev)"
    using assms(2,4) by (simp add: state_map_apply_one state_entry_def)
  ultimately show ?thesis using e assms(4,5) by (intro exI [of _ ?db'] conjI) simp_all
qed

theorem redelivery_flips_ties_witness:
  "\<exists>db'. apply_events id_codec db_two [sample_event ''$n1'' ''p.room.name'' (Some []) 1 [(''name'', JStr ''Nest'')]]
     = Inr (db', 0) \<and> state_map db' (''!r'', ''p.room.name'', []) \<noteq> state_map db_two (''!r'', ''p.room.name'', [])"
proof -
  let ?k = "(''!r'', ''p.room.name'', [])"
  let ?c = "[(''name'', JStr ''Nest'')]"
  have fw: "from_wire (sample_event ''$n1'' ''p.room.name'' (Some []) 1 ?c) =
      Inr (sample_parsed ''$n1'' ''p.room.name'' (Some []) 1 ?c)"
    by (rule from_wire_sample) (simp add: i64_max_def)
  have p: "ev_event_id (sample_parsed ''$n1'' ''p.room.name'' (Some []) 1 ?c) = ''$n1''"
      "ev_depth (sample_parsed ''$n1'' ''p.room.name'' (Some []) 1 ?c) = 1"
      "state_key (sample_parsed ''$n1'' ''p.room.name'' (Some []) 1 ?c) = Some ?k"
    by (simp_all add: sample_parsed_def state_key_def)
  have "state_map (empty_db :: json db) ?k = None" by (simp add: state_map_def empty_db_def)
  then have "state_map db_two ?k = Some (''$n2'', 1)"
    by (simp add: db_two_def db_name_def state_map_apply_one state_key_def state_entry_def sample_parsed_def)
  moreover have "has_event db_two ''$n1''"
    by (simp add: has_event_def has_key_iff events_db_two rows_n12)
  moreover have "''$n2'' \<noteq> ''$n1''" by simp
  ultimately show ?thesis
    using redelivery_flips_ties [OF fw, of ?k db_two "''$n2''" id_codec]
    by (simp only: p) blast
qed

end
