(* ===== verification/Samples.thy ===== *)
theory Samples
  imports Sync Store_Spec
begin

text \<open>
  A concrete environment, for the closed instances of the theorems: an MLS engine whose device is the
  list of groups it holds and whose ciphertext is the plaintext, base64 as the identity, a JSON text
  form for objects of strings, a key store that is an association list, and a world around them.
\<close>

section \<open>A text form for objects of strings\<close>

fun flat :: "json \<Rightarrow> bool" where
  "flat (JObj kvs) = list_all (\<lambda>kv. case snd kv of JStr s \<Rightarrow> True | _ \<Rightarrow> False) kvs"
| "flat _ = False"

definition put_str :: "string \<Rightarrow> string" where
  "put_str s = concat (map (\<lambda>c. [CHR ''x'', c]) s) @ '','' "

fun take_str :: "string \<Rightarrow> string \<times> string" where
  "take_str [] = ([], [])"
| "take_str [c] = ([], [])"
| "take_str (m # c # cs) =
     (if m = CHR ''x'' then (let (s, r) = take_str cs in (c # s, r)) else ([], c # cs))"

fun print_kvs :: "(string \<times> json) list \<Rightarrow> string" where
  "print_kvs [] = ''.''"
| "print_kvs ((k, v) # kvs) =
     put_str k @ put_str (case v of JStr s \<Rightarrow> s | _ \<Rightarrow> []) @ print_kvs kvs"

fun parse_kvs :: "nat \<Rightarrow> string \<Rightarrow> (string \<times> json) list" where
  "parse_kvs 0 s = []"
| "parse_kvs (Suc n) s =
     (let (k, r) = take_str s; (v, r') = take_str r
      in if length s \<le> 1 then [] else (k, JStr v) # parse_kvs n r')"

lemma take_put: "r \<noteq> [] \<Longrightarrow> take_str (put_str s @ r) = (s, r)"
  by (induction s) (auto simp: put_str_def neq_Nil_conv)

lemma print_kvs_nonempty [simp]: "print_kvs kvs \<noteq> []"
  by (cases kvs) (auto simp: put_str_def)

lemma put_str_nonempty [simp]: "put_str s \<noteq> []"
  by (simp add: put_str_def)

lemma put_str_length: "1 \<le> length (put_str s)"
  by (simp add: put_str_def)

lemma parse_print_kvs:
  "list_all (\<lambda>kv. case snd kv of JStr s \<Rightarrow> True | _ \<Rightarrow> False) kvs \<Longrightarrow> length kvs \<le> n \<Longrightarrow>
     parse_kvs n (print_kvs kvs) = kvs"
proof (induction kvs arbitrary: n)
  case Nil
  then show ?case by (cases n) auto
next
  case (Cons kv kvs)
  obtain k s where kv: "kv = (k, JStr s)" using Cons.prems(1) by (cases kv) (auto split: json.splits)
  obtain m where n: "n = Suc m" "length kvs \<le> m" using Cons.prems(2) by (cases n) auto
  have "take_str (put_str k @ put_str s @ print_kvs kvs) = (k, put_str s @ print_kvs kvs)"
    by (rule take_put) simp
  moreover have "take_str (put_str s @ print_kvs kvs) = (s, print_kvs kvs)" by (rule take_put) simp
  moreover have "\<not> length (put_str k @ put_str s @ print_kvs kvs) \<le> 1"
    using put_str_length [of k] put_str_length [of s] by simp
  ultimately show ?case using Cons.IH [of m] Cons.prems(1) n kv by simp
qed

definition toy_json :: json_text where
  "toy_json = \<lparr> jprint = (\<lambda>v. case v of JObj kvs \<Rightarrow> print_kvs kvs | _ \<Rightarrow> []),
     jparse = (\<lambda>bs. Inr (JObj (parse_kvs (length bs) (bytes_str bs)))) \<rparr>"

lemma length_print_kvs: "length kvs \<le> length (print_kvs kvs)"
proof (induction kvs rule: print_kvs.induct)
  case (2 k v kvs)
  then show ?case
    using put_str_length [of k] unfolding print_kvs.simps length_append list.size by linarith
qed simp

lemma length_str_bytes [simp]: "length (str_bytes s) = length s"
  by (simp add: str_bytes_def)

lemma toy_json_roundtrip:
  assumes "flat v"
  shows "jparse toy_json (str_bytes (jprint toy_json v)) = Inr v"
proof -
  obtain kvs where v: "v = JObj kvs" using assms by (cases v) auto
  then show ?thesis
    using assms parse_print_kvs [OF _ length_print_kvs, of kvs] by (simp add: toy_json_def)
qed

section \<open>The engine and the key store\<close>

lemma str_bytes_str [simp]: "str_bytes (bytes_str bs) = bs"
proof (induction bs)
  case (Cons b bs)
  have "unat b < 256" by (rule order_less_le_trans [OF unsigned_less]; simp)
  with Cons show ?case by (simp add: str_bytes_def bytes_str_def)
qed (simp add: str_bytes_def bytes_str_def)

definition toy_b64 :: base64 where
  "toy_b64 = \<lparr> b64_encode = bytes_str, b64_decode = (\<lambda>s. Inr (str_bytes s)) \<rparr>"

definition put_groups :: "string list \<Rightarrow> string" where
  "put_groups gs = print_kvs (map (\<lambda>g. (g, JStr [])) gs)"

definition take_groups :: "string \<Rightarrow> string list" where
  "take_groups s = map fst (parse_kvs (length s) s)"

lemma take_put_groups [simp]: "take_groups (put_groups gs) = gs"
proof -
  have "list_all (\<lambda>kv. case snd kv of JStr s \<Rightarrow> True | _ \<Rightarrow> False) (map (\<lambda>g. (g, JStr [])) gs)"
    by (simp add: list_all_iff)
  then show ?thesis
    using parse_print_kvs [OF _ length_print_kvs] by (simp add: take_groups_def put_groups_def comp_def)
qed

definition toy_mls :: "(string list, unit) mls" where
  "toy_mls = \<lparr>
     m_new = (\<lambda>seed user. Inr []),
     m_restore = (\<lambda>user pubkey blob. Inr (take_groups (bytes_str blob))),
     m_pubkey = (\<lambda>d. []),
     m_export = (\<lambda>d. Inr (str_bytes (put_groups d))),
     m_key_packages = (\<lambda>n d. (Inr (replicate n []), d)),
     m_last_resort = (\<lambda>d. (Inr [], d)),
     m_load_group = (\<lambda>g d. Inr (if bytes_str g \<in> set d then Some () else None)),
     m_create_group = (\<lambda>g d. (Inr (), bytes_str g # d)),
     m_add_member = (\<lambda>g kp d. (Inr ([1], [2]), ''added'' # d)),
     m_process_commit = (\<lambda>g c d. (Inr (), ''commit'' # d)),
     m_join = (\<lambda>w d. (Inr (), bytes_str w # d)),
     m_encrypt = (\<lambda>g p d. (Inr p, d)),
     m_decrypt = (\<lambda>g c d. (Inr c, d)),
     m_encrypt_media = (\<lambda>seed p. Inr ([], p)),
     m_decrypt_media = (\<lambda>key c. Inr c),
     m_create_backup = (\<lambda>seed d. Inr ([], str_bytes (put_groups d))),
     m_restore_backup = (\<lambda>key blob. Inr (take_groups (bytes_str blob))) \<rparr>"

definition toy_ks :: "(string \<times> bytes) list key_store" where
  "toy_ks = \<lparr> kp_put = (\<lambda>key v m. (Inr (), (key, v) # m)), kp_get = (\<lambda>key m. (Inr (map_of m key), m)),
     kp_delete = (\<lambda>key m. (Inr (), filter (\<lambda>kv. fst kv \<noteq> key) m)) \<rparr>"

definition toy_crypto :: "(string list, unit, (string \<times> bytes) list) crypto_env" where
  "toy_crypto = \<lparr> env_mls = toy_mls, env_b64 = toy_b64, env_json = toy_json, env_ks = toy_ks \<rparr>"

section \<open>A client and its world\<close>

text \<open>\<open>toy_env srv\<close>: the environment with the server \<open>srv\<close> and a file store.\<close>

definition toy_env ::
  "unit server \<Rightarrow> (unit, string list, unit, (string \<times> bytes) list, json) client_env" where
  "toy_env srv = \<lparr> ce_server = srv, ce_http = Inr (), ce_hash = (\<lambda>v. Inr []), ce_codec = id_codec,
     ce_crypto = toy_crypto, ce_clock = int, ce_open = (\<lambda>path. Inr ()), ce_store_dir = Some ''d'' \<rparr>"

definition toy_client :: pigeon_client where
  "toy_client = \<lparr> cl_api = \<lparr> api_base = ''h'', api_token = Some ''t'' \<rparr>,
     cl_session = \<lparr> ss_user_id = ''@a'', ss_device_id = ''D'', ss_server = ''h'' \<rparr>,
     cl_store = StoreFile ''d/pigeon.sqlite3'' \<rparr>"

definition toy_world ::
  "string list option \<Rightarrow> json db \<Rightarrow> (unit, string list, (string \<times> bytes) list, json) world" where
  "toy_world device db = \<lparr> wd_net = \<lparr> net_remote = (), net_log = [] \<rparr>,
     wd_vault = \<lparr> vt_device = device, vt_keys = Some [], vt_seed = 0 \<rparr>, wd_stores = (\<lambda>_. db),
     wd_memory_stores = 0, wd_sink = None, wd_ticks = 0, wd_send_counter = 0, wd_txn_counter = 0,
     wd_observer = [], wd_sleeps = [] \<rparr>"

text \<open>Servers that always fail to be reached, always refuse, and always accept.\<close>

definition down_server :: "unit server" where "down_server = (\<lambda>rq w. (Inl ''down'', w))"

definition reply_server :: "16 word \<Rightarrow> json \<Rightarrow> unit server" where
  "reply_server status body =
     (\<lambda>rq w. (Inr \<lparr> rp_status = status, rp_json = Some body, rp_bytes = Inr [] \<rparr>, w))"

end
