(* ===== verification/E2ee_Spec.thy ===== *)
theory E2ee_Spec
  imports Samples
begin

text \<open>
  The engine's state survives a restart: after every operation that succeeded, what the key store
  holds restores to the device in memory.  And an operation that its input rules out (no group, bad
  base64) leaves both untouched.
\<close>

section \<open>What the code relies on\<close>

definition key_store_laws :: "'k key_store \<Rightarrow> bool" where
  "key_store_laws ks \<longleftrightarrow> (\<forall>key v k k'. kp_put ks key v k = (Inr (), k') \<longrightarrow> kp_get ks key k' = (Inr (Some v), k'))"

text \<open>
  Documented behaviour: a key store returns what was put, base64 and JSON decode what they encoded,
  and a device restored from its exported storage and public key is that device.
\<close>

definition crypto_laws :: "('d, 'g, 'k) crypto_env \<Rightarrow> string \<Rightarrow> bool" where
  "crypto_laws env user \<longleftrightarrow> key_store_laws (env_ks env) \<and>
     (\<forall>bs. b64_decode (env_b64 env) (b64_encode (env_b64 env) bs) = Inr bs) \<and>
     (\<forall>v. flat v \<longrightarrow> jparse (env_json env) (str_bytes (jprint (env_json env) v)) = Inr v) \<and>
     (\<forall>d blob. m_export (env_mls env) d = Inr blob \<longrightarrow>
        m_restore (env_mls env) user (m_pubkey (env_mls env) d) blob = Inr d)"

lemma toy_crypto_laws: "crypto_laws toy_crypto user"
  by (simp add: crypto_laws_def key_store_laws_def toy_crypto_def toy_ks_def toy_b64_def toy_mls_def
      toy_json_roundtrip)

section \<open>Persisting\<close>

text \<open>The vault holds a device, and the key store what restores to it.\<close>

definition saved :: "('d, 'g, 'k) crypto_env \<Rightarrow> string \<Rightarrow> ('d, 'k) vault \<Rightarrow> bool" where
  "saved env user v \<longleftrightarrow> (\<exists>d. vt_device v = Some d \<and> fst (e2ee_restore env user v) = Inr (Some d))"

lemma ks_put_Inr:
  assumes "key_store_laws (env_ks env)" "ks_put env key value v = (Inr b, v')" "vt_keys v \<noteq> None"
  shows "vt_device v' = vt_device v \<and> vt_keys v' \<noteq> None \<and> b \<and> fst (ks_get env key v') = Inr (Some value)"
  using assms
  by (auto simp: ks_put_def ks_get_def ks_call_def bnd_def key_store_laws_def
      split: prod.splits option.splits sum.splits)

lemma stored_state_fields:
  "jindex (stored_state env d blob) ''pubkey'' = JStr (b64_encode (env_b64 env) (m_pubkey (env_mls env) d))"
  "jindex (stored_state env d blob) ''blob'' = JStr (b64_encode (env_b64 env) blob)"
  "flat (stored_state env d blob)"
  by (simp_all add: stored_state_def jindex_def)

lemma restore_stored:
  assumes "crypto_laws env user" "m_export (env_mls env) d = Inr blob"
    and "fst (ks_get env MLS_STATE_KEY v) =
      Inr (Some (str_bytes (jprint (env_json env) (stored_state env d blob))))"
  shows "fst (e2ee_restore env user v) = Inr (Some d)"
proof -
  obtain v' where g: "ks_get env MLS_STATE_KEY v =
      (Inr (Some (str_bytes (jprint (env_json env) (stored_state env d blob)))), v')"
    using assms(3) by (cases "ks_get env MLS_STATE_KEY v") auto
  show ?thesis
    using assms(1,2)
    by (simp add: e2ee_restore_def bnd_eval(2) [of "ks_get env MLS_STATE_KEY" v, OF g] crypto_laws_def stored_state_fields decode_field_def)
qed

lemma persist_saves:
  assumes "crypto_laws env user" "persist env d v = (Inr (), v')" "vt_keys v \<noteq> None"
  shows "vt_device v' = vt_device v \<and> vt_keys v' \<noteq> None \<and> fst (e2ee_restore env user v') = Inr (Some d)"
proof -
  obtain blob b where e: "m_export (env_mls env) d = Inr blob"
    and p: "ks_put env MLS_STATE_KEY (str_bytes (jprint (env_json env) (stored_state env d blob))) v = (Inr b, v')"
    using assms(2) by (auto simp: persist_def bnd_Inr_iff)
  have "key_store_laws (env_ks env)" using assms(1) by (simp add: crypto_laws_def)
  from ks_put_Inr [OF this p assms(3)] restore_stored [OF assms(1) e] show ?thesis by simp
qed

definition ends_saved :: "('d, 'g, 'k) crypto_env \<Rightarrow> string \<Rightarrow> ('d, 'k, 'a) vault_act \<Rightarrow> bool" where
  "ends_saved env user m \<longleftrightarrow>
     (\<forall>v r v'. vt_keys v \<noteq> None \<longrightarrow> m v = (Inr r, v') \<longrightarrow> vt_keys v' \<noteq> None \<and> saved env user v')"

definition keeps_keys :: "('d, 'k, 'a) vault_act \<Rightarrow> bool" where
  "keeps_keys m \<longleftrightarrow> (\<forall>v. vt_keys (snd (m v)) = vt_keys v)"

lemma keeps_keys_basic [simp]:
  "keeps_keys the_device" "keeps_keys (lift_res r)" "keeps_keys (on_device f)" "keeps_keys (set_device d)"
  by (auto simp: keeps_keys_def the_device_def on_device_def bnd_def set_device_def
      split: option.splits prod.splits)

lemma ends_saved_bnd:
  "keeps_keys m \<Longrightarrow> (\<And>a. ends_saved env user (f a)) \<Longrightarrow> ends_saved env user (bnd m f)"
  unfolding ends_saved_def keeps_keys_def by (simp add: bnd_Inr_iff) (metis snd_conv)

lemma ends_saved_stays:
  "ends_saved env user m \<Longrightarrow> (\<And>a. stays (f a)) \<Longrightarrow> ends_saved env user (bnd m f)"
  unfolding ends_saved_def stays_def by (simp add: bnd_Inr_iff) (metis snd_conv)

lemma ends_saved_persist:
  assumes "crypto_laws env user"
  shows "ends_saved env user (persist_current env)"
  unfolding ends_saved_def
proof (intro allI impI)
  fix v r v' assume v: "vt_keys v \<noteq> None" "persist_current env v = (Inr r, v')"
  then obtain d where d: "vt_device v = Some d" "persist env d v = (Inr (), v')"
    by (auto simp: persist_current_def bnd_Inr_iff the_device_def split: option.splits)
  from persist_saves [OF assms d(2) v(1)] d(1) show "vt_keys v' \<noteq> None \<and> saved env user v'"
    by (auto simp: saved_def)
qed

text \<open>A successful call of an operation that changes the device.\<close>

inductive engine_op :: "('d, 'g, 'k) crypto_env \<Rightarrow> ('d, 'k) vault \<Rightarrow> ('d, 'k) vault \<Rightarrow> bool"
  for env :: "('d, 'g, 'k) crypto_env" where
  "key_packages env n v = (Inr r, v') \<Longrightarrow> engine_op env v v'"
| "last_resort_key_package env v = (Inr r, v') \<Longrightarrow> engine_op env v v'"
| "create_group env room v = (Inr r, v') \<Longrightarrow> engine_op env v v'"
| "add_member env room kp v = (Inr r, v') \<Longrightarrow> engine_op env v v'"
| "process_commit env room c v = (Inr r, v') \<Longrightarrow> engine_op env v v'"
| "join_from_welcome env w v = (Inr r, v') \<Longrightarrow> engine_op env v v'"
| "encrypt env room pt v = (Inr r, v') \<Longrightarrow> engine_op env v v'"
| "decrypt env room ct v = (Inr r, v') \<Longrightarrow> engine_op env v v'"
| "restore_from_backup env key blob v = (Inr r, v') \<Longrightarrow> engine_op env v v'"

lemma ends_savedD:
  "ends_saved env user m \<Longrightarrow> vt_keys v \<noteq> None \<Longrightarrow> m v = (Inr r, v') \<Longrightarrow> saved env user v'"
  by (simp add: ends_saved_def)

lemma ops_end_saved:
  assumes "crypto_laws env user"
  shows "ends_saved env user (key_packages env n)" "ends_saved env user (last_resort_key_package env)"
    "ends_saved env user (create_group env room)" "ends_saved env user (add_member env room kp)"
    "ends_saved env user (process_commit env room c)" "ends_saved env user (join_from_welcome env w)"
    "ends_saved env user (encrypt env room pt)" "ends_saved env user (decrypt env room ct)"
    "ends_saved env user (restore_from_backup env key blob)"
  unfolding key_packages_def last_resort_key_package_def create_group_def add_member_def
    process_commit_def join_from_welcome_def encrypt_def decrypt_def restore_from_backup_def
  by (rule ends_saved_stays [OF ends_saved_persist [OF assms]], simp |
      rule ends_saved_persist [OF assms] | rule ends_saved_bnd | simp add: case_prod_beta)+

text \<open>
  C18: After every engine operation that reports success, the key store holds a state from which a
  relaunch restores exactly the device in memory: no ratchet step or group is lost on a restart.
\<close>

theorem engine_survives_restart:
  assumes "crypto_laws env user" "vt_keys v \<noteq> None" "engine_op env v v'"
  shows "\<exists>d. vt_device v' = Some d \<and> fst (e2ee_restore env user v') = Inr (Some d)"
proof -
  have "saved env user v'"
    using assms(3)
    by cases (erule ops_end_saved [OF assms(1), THEN ends_savedD, OF assms(2)])+
  then show ?thesis by (simp add: saved_def)
qed

definition toy_vault :: "string list \<Rightarrow> (string list, (string \<times> bytes) list) vault" where
  "toy_vault gs = \<lparr> vt_device = Some gs, vt_keys = Some [], vt_seed = 0 \<rparr>"

theorem engine_survives_restart_witness:
  "\<exists>v'. engine_op toy_crypto (toy_vault []) v' \<and> fst (e2ee_restore toy_crypto ''@a'' v') = Inr (Some [''!r''])"
proof -
  obtain v' where v': "create_group toy_crypto ''!r'' (toy_vault []) = (Inr (), v')" "vt_device v' = Some [''!r'']"
    by (simp add: create_group_def on_device_def the_device_def toy_vault_def bnd_def toy_crypto_def toy_mls_def
        set_device_def persist_current_def persist_def ks_put_def ks_call_def toy_ks_def)
  then have op: "engine_op toy_crypto (toy_vault []) v'" by (intro engine_op.intros(3))
  have "vt_keys (toy_vault []) \<noteq> None" by (simp add: toy_vault_def)
  from engine_survives_restart [OF toy_crypto_laws [of "''@a''"] this op] op v'(2) show ?thesis by auto
qed

end
