(* ===== verification/Api_Spec.thy ===== *)
theory Api_Spec
  imports Keys "HOL-Library.Sublist"
begin

text \<open>
  What the HTTP layer guarantees: each endpoint makes exactly one request, to the homeserver it was
  built for and with the session's bearer token; the server's error codes reach the caller unchanged;
  a failed transport, a rejection and a malformed answer stay apart; the ids of uploaded key packages.
\<close>

section \<open>What leaves the device\<close>

text \<open>A request to the Pigeon API of the homeserver, with the client's credentials.\<close>

definition authorised :: "api \<Rightarrow> request \<Rightarrow> bool" where
  "authorised a rq \<longleftrightarrow> (\<exists>p. rq_url rq = api_base a @ ''/_pigeon/'' @ p) \<and> rq_bearer rq = api_token a"

definition talks_to :: "api \<Rightarrow> 'w net \<Rightarrow> 'w net \<Rightarrow> bool" where
  "talks_to a n n' \<longleftrightarrow> (\<exists>rqs. net_log n' = net_log n @ rqs \<and> (\<forall>rq\<in>set rqs. authorised a rq))"

interpretation traffic: step_rel "talks_to a" for a :: api
proof
  show "talks_to a s s" for s :: "'w net"
    unfolding talks_to_def by (rule exI [of _ "[]"]) simp
  show "talks_to a s s''" if r: "talks_to a s s'" "talks_to a s' s''" for s s' s'' :: "'w net"
  proof -
    obtain xs ys where "net_log s' = net_log s @ xs" "net_log s'' = net_log s' @ ys"
        "\<forall>rq\<in>set xs. authorised a rq" "\<forall>rq\<in>set ys. authorised a rq"
      using r unfolding talks_to_def by blast
    then show ?thesis unfolding talks_to_def by (intro exI [of _ "xs @ ys"]) auto
  qed
qed

definition one_request :: "api \<Rightarrow> ('w net, 'e, 'a) act \<Rightarrow> bool" where
  "one_request a m \<longleftrightarrow> (\<forall>n. \<exists>rq. net_log (snd (m n)) = net_log n @ [rq] \<and> authorised a rq)"

lemma one_request_bnd:
  assumes "one_request a m" "\<And>x. stays (f x)"
  shows "one_request a (bnd m f)"
  unfolding one_request_def
proof
  fix n
  obtain r n' where m: "m n = (r, n')" by (cases "m n")
  then have "snd (bnd m f n) = n'"
    using assms(2) by (cases r) (simp_all add: bnd_def stays_def)
  moreover have "\<exists>rq. net_log n' = net_log n @ [rq] \<and> authorised a rq"
    using assms(1) m unfolding one_request_def by (metis snd_conv)
  ultimately show "\<exists>rq. net_log (snd (bnd m f n)) = net_log n @ [rq] \<and> authorised a rq" by simp
qed

lemma one_request_catch:
  assumes "one_request a m" "\<And>x. stays (f x)"
  shows "one_request a (catch m f)"
  unfolding one_request_def
proof
  fix n
  obtain r n' where m: "m n = (r, n')" by (cases "m n")
  then have "snd (catch m f n) = n'" using assms(2) by (simp add: catch_def stays_def)
  moreover have "\<exists>rq. net_log n' = net_log n @ [rq] \<and> authorised a rq"
    using assms(1) m unfolding one_request_def by (metis snd_conv)
  ultimately show "\<exists>rq. net_log (snd (catch m f n)) = net_log n @ [rq] \<and> authorised a rq" by simp
qed

lemma one_request_talks:
  assumes "one_request a m"
  shows "keeps (talks_to a) m"
  unfolding keeps_def
proof (intro allI impI)
  fix n r n' assume "m n = (r, n')"
  then obtain rq where "net_log n' = net_log n @ [rq]" "authorised a rq"
    using assms unfolding one_request_def by (metis snd_conv)
  then show "talks_to a n n'" unfolding talks_to_def by (intro exI [of _ "[rq]"]) simp
qed

lemma exchange_log: "net_log (snd (exchange srv rq n)) = net_log n @ [rq]"
  by (simp add: exchange_def split: prod.splits)

lemma one_exchange: "authorised a rq \<Longrightarrow> one_request a (exchange srv rq)"
  by (auto simp: one_request_def exchange_log)

lemma one_send: "authorised a rq \<Longrightarrow> one_request a (send srv rq)"
  unfolding send_def by (rule one_request_bnd [OF one_exchange]) (simp_all add: Let_def stays_def)

lemma authorisedI:
  assumes "rq_url rq = api_base a @ url" "strip_prefix ''/_pigeon/'' url = Some p" "rq_bearer rq = api_token a"
  shows "authorised a rq"
  using assms by (simp add: authorised_def)

lemma one_api:
  assumes "strip_prefix ''/_pigeon/'' url = Some p"
  shows "one_request a (api_get srv a url)" "one_request a (post srv a url body)"
    "one_request a (put srv a url body)"
  unfolding api_get_def post_def put_def
  by (rule one_send, rule authorisedI [OF _ assms], simp_all add: req_def join_url_def)+

lemma endpoints_accounts:
  "one_request a (register srv a u p)" "one_request a (login srv a u p)"
  "one_request a (logout srv a)" "one_request a (whoami srv a)"
  unfolding register_def login_def logout_def whoami_def
  by (rule one_request_bnd one_api | simp)+

lemma endpoints_rooms:
  "one_request a (create_room srv a nm tp encr)"
  "one_request a (join_room srv a r)" "one_request a (invite srv a r u)"
  "one_request a (send_event srv a r ty txn c)" "one_request a (send_message srv a r txn c)"
  unfolding create_room_def join_room_def invite_def send_event_def send_message_def
  by (rule one_request_bnd one_api | simp)+

lemma endpoints_keys:
  "one_request a (upload_keys srv hash a d k ks lr)" "one_request a (query_keys srv a u)"
  "one_request a (claim_keys srv a u d)" "one_request a (send_to_device srv a ty txn msgs)"
  "one_request a (put_room_key srv a r sid blob)"
  unfolding upload_keys_def query_keys_def claim_keys_def send_to_device_def put_room_key_def
  by (rule one_request_bnd one_api | simp)+

lemma endpoint_backup: "one_request a (get_room_key srv a r sid)"
  unfolding get_room_key_def
  by (rule one_request_catch one_api | simp split: sum.split api_error.split error_code.split)+

lemma endpoints_queries:
  "one_request a (sync srv a since timeout limit)" "one_request a (messages srv a r n)"
  "one_request a (upload_media srv a bytes ct)" "one_request a (download_media srv a s m)"
  unfolding sync_def messages_def upload_media_def download_media_def
  by (rule one_request_bnd one_send one_exchange | rule authorisedI, simp add: req_def join_url_def |
      simp add: req_def)+

lemmas endpoints_one_request =
  endpoints_accounts endpoints_rooms endpoints_keys endpoint_backup endpoints_queries

lemmas endpoints_talk = endpoints_one_request [THEN one_request_talks]

section \<open>One authorised request per endpoint\<close>

text \<open>A call of one of the endpoints, from the network state before it to the one after.\<close>

inductive api_call :: "'w server \<Rightarrow> hash_fun \<Rightarrow> api \<Rightarrow> 'w net \<Rightarrow> 'w net \<Rightarrow> bool"
  for srv :: "'w server" and hash :: hash_fun and a :: api where
  "api_call srv hash a n (snd (register srv a username password n))"
| "api_call srv hash a n (snd (login srv a user password n))"
| "api_call srv hash a n (snd (logout srv a n))"
| "api_call srv hash a n (snd (whoami srv a n))"
| "api_call srv hash a n (snd (sync srv a since timeout limit n))"
| "api_call srv hash a n (snd (create_room srv a nm topic encryption n))"
| "api_call srv hash a n (snd (join_room srv a room n))"
| "api_call srv hash a n (snd (invite srv a room user n))"
| "api_call srv hash a n (snd (messages srv a room limit n))"
| "api_call srv hash a n (snd (send_event srv a room ty txn content n))"
| "api_call srv hash a n (snd (send_message srv a room txn content n))"
| "api_call srv hash a n (snd (upload_keys srv hash a device key packages last_resort n))"
| "api_call srv hash a n (snd (query_keys srv a user n))"
| "api_call srv hash a n (snd (claim_keys srv a user device n))"
| "api_call srv hash a n (snd (send_to_device srv a ty txn msgs n))"
| "api_call srv hash a n (snd (put_room_key srv a room session blob n))"
| "api_call srv hash a n (snd (get_room_key srv a room session n))"
| "api_call srv hash a n (snd (upload_media srv a bytes content_type n))"
| "api_call srv hash a n (snd (download_media srv a server media_id n))"

lemma one_requestD:
  "one_request a m \<Longrightarrow> \<exists>rq. net_log (snd (m n)) = net_log n @ [rq] \<and> authorised a rq"
  by (simp add: one_request_def)

text \<open>
  C34: Every endpoint makes exactly one request, whatever the answer: to the homeserver the client
  was built for (the base URL without trailing slashes), under its Pigeon API path, with the bearer
  token of the session or none; nothing is retried and nothing goes anywhere else.
\<close>

theorem endpoint_makes_one_request:
  assumes "api_new built base token = Inr a" "api_call srv hash a n n'"
  shows "\<exists>rq p. net_log n' = net_log n @ [rq] \<and>
    rq_url rq = trim_end_matches CHR ''/'' base @ ''/_pigeon/'' @ p \<and> rq_bearer rq = token"
proof -
  have "\<exists>rq. net_log n' = net_log n @ [rq] \<and> authorised a rq"
    using assms(2) by cases (auto intro!: one_requestD endpoints_one_request)
  moreover have "a = \<lparr> api_base = normalize_base base, api_token = token \<rparr>"
    using assms(1) by (auto simp: api_new_def then_ok_Inr_iff)
  ultimately show ?thesis by (auto simp: authorised_def normalize_base_def)
qed

definition sample_server :: "unit server" where
  "sample_server = (\<lambda>rq w. (Inr \<lparr> rp_status = 200, rp_json = Some (JObj [(''device_keys'',
     JObj [(''@b'', JObj [(''D1'', JNull), (''D2'', JNull)])]), (''one_time_keys'',
     JObj [(''@b'', JObj [(''D2'', JObj [(''package'', JStr ''pkg'')])])])]), rp_bytes = Inr [] \<rparr>, w))"

theorem endpoint_makes_one_request_witness:
  "\<exists>rq p. net_log (snd (whoami sample_server \<lparr> api_base = ''http://h'', api_token = Some ''t'' \<rparr>
       \<lparr> net_remote = (), net_log = [] \<rparr>)) = [rq] \<and> rq_url rq = ''http://h'' @ ''/_pigeon/'' @ p \<and>
     rq_bearer rq = Some ''t''"
proof -
  let ?a = "\<lparr> api_base = ''http://h'', api_token = Some ''t'' \<rparr>"
  have t: "trim_end_matches CHR ''/'' ''http://h'' = ''http://h''" by (rule trim_end_idle) simp
  then have "api_new (Inr ()) ''http://h'' (Some ''t'') = Inr ?a"
    by (simp add: api_new_def normalize_base_def)
  from endpoint_makes_one_request [OF this api_call.intros(4) [of sample_server "\<lambda>_. Inl []"
      _ "\<lparr> net_remote = (), net_log = [] \<rparr>"]] t show ?thesis by simp
qed

section \<open>Errors\<close>

text \<open>
  A rejection reaches the user interface typed and intact: when the server answers outside
  2xx with an error code and a text, the error carries that code (its wire form is the code sent,
  known or not) and that text, and it counts as transient exactly when the code is the rate limit.
\<close>

theorem rejection_is_typed:
  assumes "srv rq (net_remote n) = (Inr resp, w')" "\<not> is_success (rp_status resp)"
    and "rp_json resp = Some body" "jget body ''errcode'' = Some (JStr c)" "jget body ''error'' = Some (JStr m)"
  shows "\<exists>err code. fst (send srv rq n) = Inl err \<and> core_of_api err = Api code m \<and> code_as_str code = c \<and>
    (is_transient err \<longleftrightarrow> c = ''P_LIMIT_EXCEEDED'')"
  using assms
  by (simp add: send_def bnd_def exchange_def parse_error_def jindex_def is_transient_def)

definition busy_server :: "unit server" where
  "busy_server = (\<lambda>rq w. (Inr \<lparr> rp_status = 429, rp_json = Some (JObj [(''errcode'', JStr ''P_NEW''),
     (''error'', JStr ''no'')]), rp_bytes = Inr [] \<rparr>, w))"

theorem rejection_is_typed_witness:
  "\<exists>err code. fst (send busy_server (req \<lparr> api_base = [], api_token = None \<rparr> GET []) \<lparr> net_remote = (), net_log = [] \<rparr>) = Inl err \<and>
     core_of_api err = Api code ''no'' \<and> code_as_str code = ''P_NEW''"
proof -
  have "\<exists>err code. fst (send busy_server (req \<lparr> api_base = [], api_token = None \<rparr> GET []) \<lparr> net_remote = (), net_log = [] \<rparr>) = Inl err \<and>
     core_of_api err = Api code ''no'' \<and> code_as_str code = ''P_NEW'' \<and>
     (is_transient err \<longleftrightarrow> ''P_NEW'' = ''P_LIMIT_EXCEEDED'')"
    by (rule rejection_is_typed [where body = "JObj [(''errcode'', JStr ''P_NEW''), (''error'', JStr ''no'')]"
          and w' = "()" and resp = "\<lparr> rp_status = 429, rp_json = Some (JObj [(''errcode'', JStr ''P_NEW''),
            (''error'', JStr ''no'')]), rp_bytes = Inr [] \<rparr>"])
       (simp_all add: busy_server_def is_success_def)
  then show ?thesis by blast
qed

text \<open>
  Only a transport failure and the rate limit are transient; every other rejection, known or
  unknown code, and every malformed answer is final.
\<close>

theorem transient_exactly:
  "is_transient e \<longleftrightarrow> (\<exists>reason. e = NetworkErr reason) \<or>
     (\<exists>status m. e = ServerErr status (code_from_wire ''P_LIMIT_EXCEEDED'') m)"
  by (cases e) (auto simp: is_transient_def code_from_wire_def)

section \<open>Claiming key packages\<close>

definition claim_request :: "api \<Rightarrow> string \<Rightarrow> string \<Rightarrow> request" where
  "claim_request a user d =
     (req a POST ''/_pigeon/client/v1/keys/claim'')\<lparr>rq_body := JsonBody
        (JObj [(''one_time_keys'', JObj [(user, JArr [JStr d])])])\<rparr>"

lemma claim_keys_log:
  "claim_keys srv a user d n = (r, n') \<Longrightarrow> net_log n' = net_log n @ [claim_request a user d]"
  using exchange_log [of srv "claim_request a user d" n]
  by (auto simp: claim_keys_def post_def send_def bnd_def claim_request_def Let_def
      split: prod.splits sum.splits if_splits)

lemma claim_loop_Inr:
  "claim_loop srv a user ds cs n = (Inr out, n') \<Longrightarrow>
     \<exists>new. out = cs @ new \<and> subseq (map ck_device_id new) ds \<and>
       net_log n' = net_log n @ map (claim_request a user) ds"
proof (induction ds arbitrary: cs n)
  case Nil
  then show ?case by simp
next
  case (Cons d ds)
  then obtain k n1 where k: "claim_keys srv a user d n = (Inr k, n1)"
    and rest: "claim_loop srv a user ds (case k of None \<Rightarrow> cs
        | Some p \<Rightarrow> cs @ [\<lparr> ck_device_id = d, ck_key_package_b64 = p \<rparr>]) n1 = (Inr out, n')"
    by (auto simp: bnd_Inr_iff map_errA_def split: prod.splits)
  from Cons.IH [OF rest] claim_keys_log [OF k] show ?case
    by (cases k) (auto intro: list_emb_Cons)
qed

text \<open>
  Claiming asks once for the user's devices and then once per published device, in the order
  of the directory; the result holds a subsequence of those devices, each at most as often as it is
  published, so a device that has no package left is skipped and none is invented.
\<close>

theorem claim_all_devices_contract:
  assumes "claim_all_devices srv a user n = (Inr claimed, n')"
  shows "\<exists>devices n1. query_keys srv a user n = (Inr devices, n1) \<and>
    subseq (map ck_device_id claimed) (device_ids_of devices) \<and>
    net_log n' = net_log n1 @ map (claim_request a user) (device_ids_of devices) \<and>
    length (net_log n1) = Suc (length (net_log n))"
proof -
  obtain devices n1 where q: "query_keys srv a user n = (Inr devices, n1)"
      "claim_loop srv a user (device_ids_of devices) [] n1 = (Inr claimed, n')"
    using assms by (auto simp: claim_all_devices_def bnd_Inr_iff map_errA_def split: prod.splits)
  have "length (net_log n1) = Suc (length (net_log n))"
    using one_requestD [OF endpoints_keys(2), of srv a user n] q(1) by auto
  with q claim_loop_Inr [OF q(2)] show ?thesis by auto
qed

theorem claim_all_devices_contract_witness:
  "\<exists>devices n1. query_keys sample_server \<lparr> api_base = [], api_token = None \<rparr> ''@b''
       \<lparr> net_remote = (), net_log = [] \<rparr> = (Inr devices, n1) \<and> subseq [''D2''] (device_ids_of devices)"
proof -
  have "\<exists>n'. claim_all_devices sample_server \<lparr> api_base = [], api_token = None \<rparr> ''@b''
      \<lparr> net_remote = (), net_log = [] \<rparr> = (Inr [\<lparr> ck_device_id = ''D2'', ck_key_package_b64 = ''pkg'' \<rparr>], n')"
    by (simp add: claim_all_devices_def query_keys_def claim_keys_def post_def send_def exchange_def
        sample_server_def bnd_def map_errA_def is_success_def jindex_def device_ids_of_def ret_def)
  then show ?thesis using claim_all_devices_contract by fastforce
qed

section \<open>Ids of uploaded key packages\<close>

lemma hex_digit_inj: "m < 16 \<Longrightarrow> n < 16 \<Longrightarrow> hex_digit m = hex_digit n \<longleftrightarrow> m = n"
proof -
  assume mn: "m < 16" "n < 16"
  have "of_char (hex_digit d) = (if d < 10 then 48 + d else 87 + d :: nat)" if "d < 16" for d
    using that by (simp add: hex_digit_def)
  with mn have "hex_digit m = hex_digit n \<longrightarrow> (if m < 10 then 48 + m else 87 + m) = (if n < 10 then 48 + n else 87 + n)"
    by metis
  with mn show ?thesis by (auto split: if_splits)
qed

lemma hex_byte_inj: "hex_byte b = hex_byte c \<longleftrightarrow> b = c"
proof
  assume h: "hex_byte b = hex_byte c"
  have lt: "unat b < 256" "unat c < 256" 
    by (rule order_less_le_trans [OF unsigned_less]; simp)+
  then have "unat b div 16 = unat c div 16" "unat b mod 16 = unat c mod 16"
    using h hex_digit_inj [of "unat b div 16" "unat c div 16"] hex_digit_inj [of "unat b mod 16" "unat c mod 16"]
    by (simp_all add: hex_byte_def less_mult_imp_div_less)
  then have "unat b = unat c" by (metis div_mult_mod_eq)
  then show "b = c" by (simp add: word_unat_eq_iff)
qed simp

lemma length_hex_byte [simp]: "length (hex_byte b) = 2"
  by (simp add: hex_byte_def)

lemma hex_bytes_inj: "concat (map hex_byte bs) = concat (map hex_byte cs) \<longleftrightarrow> bs = cs"
proof
  assume "concat (map hex_byte bs) = concat (map hex_byte cs)"
  then show "bs = cs"
  proof (induction bs arbitrary: cs)
    case Nil
    then show ?case by (cases cs) (simp_all add: hex_byte_def)
  next
    case (Cons b bs)
    then obtain c cs' where cs: "cs = c # cs'" by (cases cs) (simp_all add: hex_byte_def)
    with Cons.prems have "hex_byte b @ concat (map hex_byte bs) = hex_byte c @ concat (map hex_byte cs')"
      by simp
    then have "hex_byte b = hex_byte c" "concat (map hex_byte bs) = concat (map hex_byte cs')"
      by (simp_all add: append_eq_append_conv)
    with Cons.IH [of cs'] cs show ?case by (simp add: hex_byte_inj)
  qed
qed simp

text \<open>
  The id under which a key package is uploaded depends on the package alone, not on its place in
  the pool, and two packages share an id exactly when the first eight bytes of their hashes agree: a
  republished pool of new packages is not mistaken for the old one.
\<close>

theorem key_package_ids_by_content:
  assumes "hash (JStr p) = Inr h" "hash (JStr q) = Inr h'"
  shows "key_package_id hash p i = key_package_id hash p j \<and>
    (key_package_id hash p i = key_package_id hash q j \<longleftrightarrow> take 8 h = take 8 h')"
  using assms by (simp add: key_package_id_def hex_bytes_inj)

definition text_hash :: hash_fun where
  "text_hash v = (case v of JStr s \<Rightarrow> Inr (str_bytes s) | _ \<Rightarrow> Inl [])"

theorem key_package_ids_by_content_witness:
  "key_package_id text_hash ''pkgA'' 0 \<noteq> key_package_id text_hash ''pkgB'' 0"
proof -
  have h: "text_hash (JStr s) = Inr (str_bytes s)" for s by (simp add: text_hash_def)
  have "take 8 (str_bytes ''pkgA'') \<noteq> take 8 (str_bytes ''pkgB'')" by (simp add: str_bytes_def)
  then show ?thesis using key_package_ids_by_content [OF h [of "''pkgA''"] h [of "''pkgB''"], of 0 0] by blast
qed

end
