(* ===== verification/Session_Spec.thy ===== *)
theory Session_Spec
  imports E2ee_Spec Api_Spec
begin

text \<open>
  The session lifecycle: what restoring, logging out and logging in leave behind in the key store,
  the stores and on the wire.
\<close>

section \<open>Frames\<close>

definition same_stores :: "('w, 'd, 'k, 't) world \<Rightarrow> ('w, 'd, 'k, 't) world \<Rightarrow> bool" where
  "same_stores w w' \<longleftrightarrow> wd_stores w' = wd_stores w"

definition same_net :: "('w, 'd, 'k, 't) world \<Rightarrow> ('w, 'd, 'k, 't) world \<Rightarrow> bool" where
  "same_net w w' \<longleftrightarrow> wd_net w' = wd_net w"

interpretation stores: step_rel same_stores
  by unfold_locales (simp_all add: same_stores_def)

interpretation net_frame: step_rel same_net
  by unfold_locales (simp_all add: same_net_def)

lemma keeps_stores_basic [simp]:
  "keeps same_stores (on_net m)" "keeps same_stores (on_core_net c)" "keeps same_stores (on_vault v)"
  "keeps same_stores (log_emit l t s)" "keeps same_stores (tick env)" "keeps same_stores has_engine"
  "keeps same_stores (store_read cl f)"
  by (auto simp: keeps_def same_stores_def on_net_def on_core_net_def on_vault_def log_emit_def tick_def
      has_engine_def store_read_def split: prod.splits)

lemma keeps_net_basic [simp]:
  "keeps same_net (on_vault v)" "keeps same_net (log_emit l t s)" "keeps same_net (tick env)"
  "keeps same_net has_engine" "keeps same_net (store_read cl f)" "keeps same_net (store_write cl g)"
  by (auto simp: keeps_def same_net_def on_vault_def log_emit_def tick_def
      has_engine_def store_read_def store_write_def split: prod.splits sum.splits)

lemma keeps_call_api [simp]: "keeps same_stores (call_api m)"
  unfolding call_api_def by (rule stores.keeps_map_errA) simp

lemmas stores_rules = stores.keeps_bnd stores.keeps_catch stores.keeps_pure
lemmas net_rules = net_frame.keeps_bnd net_frame.keeps_catch net_frame.keeps_pure

lemma publish_keeps_stores: "keeps same_stores (publish_device_keys env cl)"
  unfolding publish_device_keys_def
  by (auto intro!: stores_rules split: sum.splits)

lemma create_engine_frames:
  "keeps same_stores (create_engine env user)" "keeps same_net (create_engine env user)"
  unfolding create_engine_def by (auto intro!: stores_rules net_rules split: sum.splits)

lemma open_store_file:
  assumes "ce_store_dir env = Some dir"
  shows "keeps same_stores (open_store env)"
    "open_store env w = (Inr r, w') \<Longrightarrow> r = StoreFile (path_join dir STORE_FILE)"
proof -
  show "keeps same_stores (open_store env)"
    using assms by (auto simp: open_store_def intro!: stores_rules)
  show "open_store env w = (Inr r, w') \<Longrightarrow> r = StoreFile (path_join dir STORE_FILE)"
    using assms by (auto simp: open_store_def bnd_Inr_iff ret_def)
qed

lemma open_store_keeps_net: "keeps same_net (open_store env)"
proof (cases "ce_store_dir env")
  case None
  have "keeps same_net (\<lambda>w. (Inr (InMemory (wd_memory_stores w)),
      w\<lparr>wd_stores := (wd_stores w)(InMemory (wd_memory_stores w) := empty_db),
        wd_memory_stores := Suc (wd_memory_stores w)\<rparr>))"
    by (simp add: keeps_def same_net_def)
  with None show ?thesis by (auto simp: open_store_def intro!: net_rules)
qed (auto simp: open_store_def intro!: net_rules)

lemma finish_login_file:
  assumes "ce_store_dir env = Some dir"
  shows "keeps same_stores (finish_login env server a auth)"
    "finish_login env server a auth w = (Inr cl, w') \<Longrightarrow> cl_store cl = StoreFile (path_join dir STORE_FILE)"
proof -
  show "keeps same_stores (finish_login env server a auth)"
    unfolding finish_login_def
    using open_store_file [OF assms] by (auto simp: Let_def create_engine_frames intro!: stores_rules)
  show "finish_login env server a auth w = (Inr cl, w') \<Longrightarrow> cl_store cl = StoreFile (path_join dir STORE_FILE)"
    unfolding finish_login_def Let_def
    by (auto simp: bnd_Inr_iff ret_def dest: open_store_file(2) [OF assms])
qed

section \<open>The session blob\<close>

lemma decode_encode_session:
  assumes "\<forall>v. flat v \<longrightarrow> jparse jt (str_bytes (jprint jt v)) = Inr v"
  shows "decode_session jt (encode_session jt s token) = Inr (s, token)"
proof -
  let ?v = "JObj [(''user_id'', JStr (ss_user_id s)), (''device_id'', JStr (ss_device_id s)),
              (''server'', JStr (ss_server s)), (''access_token'', JStr token)]"
  have "flat ?v" by simp
  with assms have "jparse jt (encode_session jt s token) = Inr ?v"
    unfolding encode_session_def by blast
  then show ?thesis by (simp add: decode_session_def jindex_def)
qed

text \<open>
  A stored session reads back as the same identity and token.
\<close>

theorem session_blob_roundtrip:
  assumes "\<forall>v. flat v \<longrightarrow> jparse jt (str_bytes (jprint jt v)) = Inr v"
  shows "decode_session jt (encode_session jt s token) = Inr (s, token)"
  by (rule decode_encode_session [OF assms])

theorem session_blob_roundtrip_witness:
  "decode_session toy_json (encode_session toy_json (cl_session toy_client) ''t'') =
     Inr (cl_session toy_client, ''t'')"
  by (rule session_blob_roundtrip) (simp add: toy_json_roundtrip)

section \<open>Logging out and in again\<close>

lemma logout_keeps_stores: "keeps same_stores (client_logout env cl)"
  unfolding client_logout_def by (auto intro!: stores_rules split: sum.splits)

text \<open>
  Logging out leaves the local store untouched, and so does the next login, whoever logs in: the
  new session opens the same file and finds the old rooms, sync token and unsent messages in it.
\<close>

theorem store_outlives_logout:
  assumes "ce_store_dir env = Some dir" "cl_store cl = StoreFile (path_join dir STORE_FILE)"
    and "client_logout env cl w = (r, w1)" "client_login env server user password w1 = (Inr cl', w2)"
  shows "cl_store cl' = cl_store cl \<and> wd_stores w2 (cl_store cl') = wd_stores w (cl_store cl)"
proof -
  have 1: "wd_stores w1 = wd_stores w"
    using logout_keeps_stores [of env cl] assms(3) by (auto simp: keeps_def same_stores_def)
  have "keeps same_stores (client_login env server user password)"
    unfolding client_login_def
    by (auto intro!: stores_rules finish_login_file(1) [OF assms(1)] publish_keeps_stores)
  then have "wd_stores w2 = wd_stores w1" using assms(4) unfolding keeps_def same_stores_def by blast
  moreover have "cl_store cl' = StoreFile (path_join dir STORE_FILE)"
    using assms(4) unfolding client_login_def
    by (auto simp: bnd_Inr_iff ret_def dest: finish_login_file(2) [OF assms(1)])
  ultimately show ?thesis using 1 assms(2) by simp
qed

definition auth_server :: "unit server" where
  "auth_server = reply_server 200 (JObj [(''user_id'', JStr ''@b''), (''device_id'', JStr ''E''),
     (''access_token'', JStr ''u'')])"

definition ok :: "'e + 'a \<Rightarrow> bool" where
  "ok r = (case r of Inl _ \<Rightarrow> False | Inr _ \<Rightarrow> True)"

lemma auth_server_login:
  "ok (fst (client_login (toy_env auth_server) ''h'' ''b'' ''pw''
     (snd (client_logout (toy_env auth_server) toy_client (toy_world (Some []) db_name)))))"
  by code_simp


lemma okE: "ok (fst x) \<Longrightarrow> (\<And>a s. x = (Inr a, s) \<Longrightarrow> P) \<Longrightarrow> P"
  by (cases x) (auto simp: ok_def split: sum.splits)

theorem store_outlives_logout_witness:
  "\<exists>cl' w2. client_login (toy_env auth_server) ''h'' ''b'' ''pw''
       (snd (client_logout (toy_env auth_server) toy_client (toy_world (Some []) db_name))) = (Inr cl', w2) \<and>
     cl_store cl' = cl_store toy_client \<and> wd_stores w2 (cl_store cl') = db_name"
proof -
  let ?w = "toy_world (Some []) db_name"
  obtain r w1 where out: "client_logout (toy_env auth_server) toy_client ?w = (r, w1)"
    by (cases "client_logout (toy_env auth_server) toy_client ?w")
  then obtain cl' w2 where inn: "client_login (toy_env auth_server) ''h'' ''b'' ''pw'' w1 = (Inr cl', w2)"
    using auth_server_login by (auto elim: okE)
  have "ce_store_dir (toy_env auth_server) = Some ''d''" by (simp add: toy_env_def)
  moreover have "cl_store toy_client = StoreFile (path_join ''d'' STORE_FILE)"
    by (simp add: toy_client_def path_join_def STORE_FILE_def)
  ultimately have "cl_store cl' = cl_store toy_client \<and> wd_stores w2 (cl_store cl') = wd_stores ?w (cl_store toy_client)"
    using out inn by (rule store_outlives_logout)
  moreover have "wd_stores ?w (cl_store toy_client) = db_name" by (simp add: toy_world_def)
  ultimately show ?thesis using out inn by auto
qed

lemma logged_failure:
  "\<exists>w1. catch (on_net m) (\<lambda>r. case r of Inr _ \<Rightarrow> ret () | Inl err \<Rightarrow> log_emit l t (g err)) w = (Inr (), w1) \<and>
     wd_vault w1 = wd_vault w"
  by (auto simp: catch_def on_net_def log_emit_def split: prod.splits sum.splits)

text \<open>
  C36: A logout clears the session and the MLS state from the key store whatever the server answers,
  even when it cannot be reached, provided the key store deletes what it is told to.
\<close>

theorem logout_clears_secrets:
  assumes "vt_keys (wd_vault w) = Some k"
    and "\<And>key k. \<exists>k'. kp_delete (env_ks (ce_crypto env)) key k = (Inr (), k') \<and>
           fst (kp_get (env_ks (ce_crypto env)) key k') = Inr None \<and>
           (\<forall>key'. fst (kp_get (env_ks (ce_crypto env)) key' k) = Inr None \<longrightarrow>
              fst (kp_get (env_ks (ce_crypto env)) key' k') = Inr None)"
  shows "\<exists>w' k'. client_logout env cl w = (Inr (), w') \<and> vt_keys (wd_vault w') = Some k' \<and>
    fst (kp_get (env_ks (ce_crypto env)) SESSION_KEY k') = Inr None \<and>
    fst (kp_get (env_ks (ce_crypto env)) MLS_STATE_KEY k') = Inr None"
proof -
  let ?first = "catch (on_net (logout (ce_server env) (cl_api cl))) (\<lambda>r.
            (case r of
               Inr _ \<Rightarrow> ret ()
             | Inl err \<Rightarrow> log_emit LInfo ''session''
                 (''server logout failed; clearing local session anyway: '' @ show_api_error err)))
      :: (_, core_error, unit) act"
  obtain w1 where w1: "?first w = (Inr (), w1)" "wd_vault w1 = wd_vault w"
    using logged_failure by metis
  obtain k1 where k1: "kp_delete (env_ks (ce_crypto env)) SESSION_KEY k = (Inr (), k1)"
      "fst (kp_get (env_ks (ce_crypto env)) SESSION_KEY k1) = Inr None"
    using assms(2) by blast
  obtain k2 where k2: "kp_delete (env_ks (ce_crypto env)) MLS_STATE_KEY k1 = (Inr (), k2)"
      "fst (kp_get (env_ks (ce_crypto env)) MLS_STATE_KEY k2) = Inr None"
      "fst (kp_get (env_ks (ce_crypto env)) SESSION_KEY k2) = Inr None"
    using assms(2) k1(2) by blast
  have "client_logout env cl w =
      bnd (on_vault (ks_delete (ce_crypto env) SESSION_KEY)) (\<lambda>_.
      bnd (on_vault (e2ee_clear (ce_crypto env))) (\<lambda>_. ret ())) w1"
    unfolding client_logout_def by (rule bnd_eval(2) [of ?first w, OF w1(1)])
  then show ?thesis
    using w1(2) assms(1) k1 k2
    by (simp add: on_vault_def ks_delete_def e2ee_clear_def ks_call_def bnd_def)
qed

theorem logout_clears_secrets_witness:
  "\<exists>w' k'. client_logout (toy_env down_server) toy_client (toy_world (Some []) db_name) = (Inr (), w') \<and>
     vt_keys (wd_vault w') = Some k' \<and> fst (kp_get toy_ks SESSION_KEY k') = Inr None"
proof -
  have "vt_keys (wd_vault (toy_world (Some []) db_name)) = Some []" by (simp add: toy_world_def)
  moreover have "env_ks (ce_crypto (toy_env down_server)) = toy_ks" by (simp add: toy_env_def toy_crypto_def)
  moreover have "\<exists>k'. kp_delete toy_ks key k = (Inr (), k') \<and> fst (kp_get toy_ks key k') = Inr None \<and>
      (\<forall>key'. fst (kp_get toy_ks key' k) = Inr None \<longrightarrow> fst (kp_get toy_ks key' k') = Inr None)" for key k
    by (auto simp: toy_ks_def map_of_eq_None_iff)
  ultimately show ?thesis
    using logout_clears_secrets [of "toy_world (Some []) db_name" "[]" "toy_env down_server" toy_client] by auto
qed

section \<open>Publishing never fails\<close>

definition engine_kept :: "('d, 'k) vault \<Rightarrow> ('d, 'k) vault \<Rightarrow> bool" where
  "engine_kept v v' \<longleftrightarrow> (vt_device v \<noteq> None \<longrightarrow> vt_device v' \<noteq> None)"

interpretation engine: step_rel engine_kept
  by unfold_locales (simp_all add: engine_kept_def)

lemma keeps_engine_basic [simp]:
  "keeps engine_kept (on_device f)" "keeps engine_kept the_device" "keeps engine_kept (set_device d)"
  "keeps engine_kept (ks_put env key bs)" "keeps engine_kept (ks_get env key)"
  by (auto simp: keeps_def engine_kept_def on_device_def the_device_def set_device_def bnd_def ks_put_def
      ks_get_def ks_call_def split: prod.splits option.splits sum.splits)

lemmas engine_rules = engine.keeps_bnd engine.keeps_catch engine.keeps_pure

lemma keeps_engine_persist [simp]:
  "keeps engine_kept (persist env d)" "keeps engine_kept (persist_current env)"
  unfolding persist_current_def persist_def by (auto intro!: engine_rules)

lemma keeps_engine_packages:
  "keeps engine_kept (key_packages env n)" "keeps engine_kept (last_resort_key_package env)"
  unfolding key_packages_def last_resort_key_package_def by (auto intro!: engine_rules)

lemma on_vault_engine:
  assumes "keeps engine_kept m" "on_vault m w = (r, w')" "vt_device (wd_vault w) \<noteq> None"
  shows "vt_device (wd_vault w') \<noteq> None"
proof -
  obtain v where "m (wd_vault w) = (r, v)" "w' = w\<lparr>wd_vault := v\<rparr>"
    using assms(2) by (auto simp: on_vault_def split: prod.splits)
  with assms(1,3) show ?thesis unfolding keeps_def engine_kept_def by fastforce
qed

lemma signature_eval:
  "vt_device (wd_vault w) = Some d \<Longrightarrow>
     on_vault (signature_public_key_b64 env) w = (Inr (b64_encode (env_b64 env) (m_pubkey (env_mls env) d)), w)"
  by (simp add: on_vault_def signature_public_key_b64_def the_device_def bnd_def)

definition with_engine :: "('w, 'd, 'k, 't) world \<Rightarrow> bool" where
  "with_engine w \<longleftrightarrow> vt_device (wd_vault w) \<noteq> None"

lemma total_basic:
  "never_fails with_engine (log_emit l t m)" "never_fails with_engine has_engine"
  "never_fails with_engine (on_vault (signature_public_key_b64 env))"
proof -
  show "never_fails with_engine (log_emit l t m)" "never_fails with_engine has_engine"
    by (auto simp: never_fails_def with_engine_def log_emit_def has_engine_def)
  show "never_fails with_engine (on_vault (signature_public_key_b64 env))"
    unfolding never_fails_def with_engine_def using signature_eval by fastforce
qed

lemma engine_after:
  "with_engine w \<Longrightarrow> with_engine (snd (on_vault (key_packages env n) w))"
  "with_engine w \<Longrightarrow> with_engine (snd (on_vault (last_resort_key_package env) w))"
  "with_engine w \<Longrightarrow> with_engine (snd (on_net m w))"
  using on_vault_engine [OF keeps_engine_packages(1), of env n w] on_vault_engine [OF keeps_engine_packages(2), of env w]
  by (auto simp: with_engine_def prod_eq_iff on_net_def split: prod.splits)

lemma publish_total: "\<exists>w'. publish_device_keys env cl w = (Inr (), w')"
proof (cases "with_engine w")
  case True
  have "never_fails with_engine (publish_device_keys env cl)"
    unfolding publish_device_keys_def
    by (intro total_rules total_basic engine_after)
  with True show ?thesis unfolding never_fails_def by fastforce
next
  case False
  then show ?thesis by (simp add: publish_device_keys_def has_engine_def bnd_def with_engine_def)
qed

section \<open>Restoring a session\<close>

lemma total_anywhere:
  "never_fails (\<lambda>_. True) (log_emit l t m)" "never_fails (\<lambda>_. True) (on_vault (install_engine d))"
  "never_fails (\<lambda>_. True) (publish_device_keys env cl)"
proof -
  show "never_fails (\<lambda>_. True) (log_emit l t m)" "never_fails (\<lambda>_. True) (on_vault (install_engine d))"
    by (simp_all add: never_fails_def log_emit_def install_engine_def on_vault_def)
  show "never_fails (\<lambda>_. True) (publish_device_keys env cl)"
    using publish_total by (auto simp: never_fails_def)
qed

lemma create_engine_total: "never_fails (\<lambda>_. True) (create_engine env user)"
  unfolding create_engine_def by (intro total_rules total_anywhere) simp_all

lemma mint_total: "never_fails (\<lambda>_. True) (mint_e2ee env user)"
  unfolding mint_e2ee_def by (intro total_rules create_engine_total)

lemma total_option_case:
  "never_fails P m \<Longrightarrow> (\<And>d. never_fails P (f d)) \<Longrightarrow> never_fails P (case x of None \<Rightarrow> m | Some d \<Rightarrow> f d)"
  by (cases x) simp_all

lemma restore_or_mint_total: "never_fails (\<lambda>_. True) (restore_or_mint_e2ee env user)"
  unfolding restore_or_mint_e2ee_def
  by (intro total_rules total_option_case mint_total total_anywhere) simp_all

lemma restore_or_mint_frames:
  "keeps same_net (restore_or_mint_e2ee env user)" "keeps same_stores (restore_or_mint_e2ee env user)"
  unfolding restore_or_mint_e2ee_def mint_e2ee_def
  by (auto intro!: net_rules stores_rules create_engine_frames split: sum.splits option.splits)

text \<open>The store can be opened.\<close>

definition store_opens :: "('w, 'd, 'g, 'k, 't) client_env \<Rightarrow> bool" where
  "store_opens env \<longleftrightarrow> (\<forall>dir. ce_store_dir env = Some dir \<longrightarrow> ce_open env (path_join dir STORE_FILE) = Inr ())"

lemma open_store_total: "store_opens env \<Longrightarrow> never_fails (\<lambda>_. True) (open_store env)"
  by (auto simp: open_store_def store_opens_def never_fails_def bnd_def log_emit_def split: option.splits)

lemma restored_client_run:
  assumes "store_opens env"
  shows "\<exists>cl minted w'. restored_client env a s w = (Inr (cl, minted), w') \<and> cl_session cl = s \<and>
    cl_api cl = a \<and> wd_net w' = wd_net w"
proof -
  obtain e m w1 where 1: "restore_or_mint_e2ee env (ss_user_id s) w = (Inr (e, m), w1)"
    using restore_or_mint_total unfolding never_fails_def by fastforce
  obtain st w2 where 2: "open_store env w1 = (Inr st, w2)"
    using open_store_total [OF assms] unfolding never_fails_def by fastforce
  have "wd_net w1 = wd_net w" "wd_net w2 = wd_net w1"
    using 1 2 restore_or_mint_frames(1) [of env "ss_user_id s"] open_store_keeps_net [of env]
    by (auto simp: keeps_def same_net_def)
  then show ?thesis
    unfolding restored_client_def bnd_eval(2) [of "restore_or_mint_e2ee env (ss_user_id s)" w, OF 1]
    by (simp add: bnd_eval(2) [of "open_store env" w1, OF 2] on_vault_def install_engine_def bnd_def 2)
qed

text \<open>A stored session that can be read: what the answer to the token check leads to.\<close>

lemma restore_session_run:
  assumes "ks_get (ce_crypto env) SESSION_KEY (wd_vault w) = (Inr (Some bs), wd_vault w)"
    and "decode_session (env_json (ce_crypto env)) bs = Inr (s, token)"
    and "api_new (ce_http env) (ss_server s) (Some token) = Inr a"
    and "whoami (ce_server env) a (wd_net w) = (r, n)"
  shows "restore_session env w =
     (case r of
             Inr _ \<Rightarrow>
               bnd (restored_client env a s) (\<lambda>(client, minted).
               bnd (if minted then publish_device_keys env client else ret ()) (\<lambda>_.
               ret (Some client)))
           | Inl (ServerErr st code m) \<Rightarrow>
               (if code = UnknownToken \<or> code = MissingToken
                then bnd (on_vault (ks_delete (ce_crypto env) SESSION_KEY)) (\<lambda>_. ret None)
                else raise (core_of_api (ServerErr st code m)))
           | Inl (NetworkErr e) \<Rightarrow>
               bnd (log_emit LInfo ''session'' ''restored session without server validation (offline)'') (\<lambda>_.
               bnd (restored_client env a s) (\<lambda>(client, _).
               ret (Some client)))
           | Inl other \<Rightarrow> raise (core_of_api other)) (w\<lparr>wd_net := n\<rparr>)"
proof -
  have get: "on_vault (ks_get (ce_crypto env) SESSION_KEY) w = (Inr (Some bs), w)"
    using assms(1) by (simp add: on_vault_def)
  have net: "on_net (whoami (ce_server env) a) w = (r, w\<lparr>wd_net := n\<rparr>)"
    using assms(4) by (simp add: on_net_def)
  show ?thesis
    unfolding restore_session_def bnd_eval(2) [of "on_vault _" w, OF get] option.case
      assms(2) bnd_lift prod.case assms(3) map_err_simps
    unfolding catch_def net prod.case ..
qed

text \<open>
  C29: Restoring on launch trusts the stored session unless the server revokes it. If the server
  accepts the token or cannot be reached, the client is the stored session with the stored token, and
  offline no other request is made; a revoked token deletes the stored session and reads as signed
  out; any other answer is an error that keeps the stored session.
\<close>

theorem restore_session_outcomes:
  assumes "ks_get (ce_crypto env) SESSION_KEY (wd_vault w) = (Inr (Some bs), wd_vault w)"
    and "decode_session (env_json (ce_crypto env)) bs = Inr (s, token)"
    and "api_new (ce_http env) (ss_server s) (Some token) = Inr a"
    and "whoami (ce_server env) a (wd_net w) = (r, n)" "store_opens env"
  shows "case r of
      Inr _ \<Rightarrow> \<exists>cl w'. restore_session env w = (Inr (Some cl), w') \<and> cl_session cl = s \<and> cl_api cl = a
    | Inl (NetworkErr e) \<Rightarrow> \<exists>cl w'. restore_session env w = (Inr (Some cl), w') \<and> cl_session cl = s \<and>
        cl_api cl = a \<and> wd_net w' = n
    | Inl (MalformedErr e) \<Rightarrow> restore_session env w = (Inl (Protocol e), w\<lparr>wd_net := n\<rparr>)
    | Inl (ServerErr st code m) \<Rightarrow>
        (if code = UnknownToken \<or> code = MissingToken
         then (let (d, v) = ks_delete (ce_crypto env) SESSION_KEY (wd_vault w)
               in restore_session env w =
                    (case d of Inl e \<Rightarrow> Inl e | Inr _ \<Rightarrow> Inr None, w\<lparr>wd_net := n, wd_vault := v\<rparr>))
         else restore_session env w = (Inl (Api code m), w\<lparr>wd_net := n\<rparr>))"
proof -
  note run = restore_session_run [OF assms(1-4)]
  obtain cl minted w1 where on: "restored_client env a s (w\<lparr>wd_net := n\<rparr>) = (Inr (cl, minted), w1)"
      "cl_session cl = s" "cl_api cl = a"
    using restored_client_run [OF assms(5), of a s "w\<lparr>wd_net := n\<rparr>"] by auto
  show ?thesis
  proof (cases r)
    case (Inr v)
    obtain w2 where "publish_device_keys env cl w1 = (Inr (), w2)" using publish_total by blast
    then show ?thesis
      using run on Inr by (cases minted) (simp_all add: bnd_def ret_def)
  next
    case (Inl err)
    show ?thesis
    proof (cases err)
      case (NetworkErr e)
      let ?w = "(w\<lparr>wd_net := n\<rparr>)\<lparr>wd_sink := emit LInfo ''session''
          ''restored session without server validation (offline)'' (wd_sink w)\<rparr>"
      obtain cl' m' w2 where "restored_client env a s ?w = (Inr (cl', m'), w2)"
          "cl_session cl' = s" "cl_api cl' = a" "wd_net w2 = wd_net ?w"
        using restored_client_run [OF assms(5), of a s ?w] by auto
      then show ?thesis
        using run Inl NetworkErr by (simp add: log_emit_def bnd_def ret_def)
    qed (use run Inl in \<open>auto simp: on_vault_def bnd_def ret_def raise_def split: prod.split sum.split\<close>)
  qed
qed

text \<open>A world whose key store holds a session.\<close>

definition signed_in :: "(unit, string list, (string \<times> bytes) list, json) world" where
  "signed_in = (toy_world None db_name)\<lparr>wd_vault := \<lparr> vt_device = None,
     vt_keys = Some [(SESSION_KEY, encode_session toy_json (cl_session toy_client) ''t'')], vt_seed = 0 \<rparr>\<rparr>"

theorem restore_session_outcomes_witness:
  "\<exists>cl w'. restore_session (toy_env down_server) signed_in = (Inr (Some cl), w') \<and>
     cl_session cl = cl_session toy_client \<and> api_token (cl_api cl) = Some ''t''"
proof -
  let ?a = "\<lparr> api_base = normalize_base ''h'', api_token = Some ''t'' \<rparr>"
  let ?bs = "encode_session toy_json (cl_session toy_client) ''t''"
  obtain n where n: "whoami (ce_server (toy_env down_server)) ?a (wd_net signed_in) = (Inl (NetworkErr ''down''), n)"
    by (simp add: whoami_def api_get_def send_def exchange_def down_server_def toy_env_def bnd_def)
  have "ks_get (ce_crypto (toy_env down_server)) SESSION_KEY (wd_vault signed_in) = (Inr (Some ?bs), wd_vault signed_in)"
    by (simp add: ks_get_def ks_call_def bnd_def signed_in_def toy_env_def toy_crypto_def toy_ks_def)
  moreover have "decode_session (env_json (ce_crypto (toy_env down_server))) ?bs = Inr (cl_session toy_client, ''t'')"
    by (simp add: toy_env_def toy_crypto_def decode_encode_session toy_json_roundtrip)
  moreover have "api_new (ce_http (toy_env down_server)) (ss_server (cl_session toy_client)) (Some ''t'') = Inr ?a"
    by (simp add: api_new_def toy_env_def toy_client_def)
  moreover have "store_opens (toy_env down_server)"
    by (simp add: store_opens_def toy_env_def)
  ultimately show ?thesis
    using restore_session_outcomes [of "toy_env down_server" signed_in ?bs "cl_session toy_client" "''t''" ?a, OF _ _ _ n]
    by fastforce
qed

end
