(* ===== verification/Client_Inv.thy ===== *)
theory Client_Inv
  imports Session_Spec Sync
begin

text \<open>
  What the methods of a client do to the stores: each changes the client's own store only, by a
  sequence of the store's operations, so the store's shape holds throughout a session, whatever the
  server, the cryptography and the host do, and the full invariant as long as the server's replies
  hold no floating point numbers.
\<close>

section \<open>Values inside a reply\<close>

lemma foldr_max_bound: "foldr max ns (m::nat) \<le> k \<longleftrightarrow> m \<le> k \<and> (\<forall>n\<in>set ns. n \<le> k)"
  by (induction ns) auto

lemma storable_jindex:
  assumes "storable v"
  shows "storable (jindex v k)"
proof (cases "jget v k")
  case None
  then show ?thesis by (simp add: jindex_def storable_def)
next
  case (Some x)
  then obtain kvs where v: "v = JObj kvs" "(k, x) \<in> set kvs" by (cases v) (auto dest: map_of_SomeD)
  then show ?thesis
    using assms Some by (force simp: jindex_def storable_def foldr_max_bound list_all_iff)
qed

lemma storable_array:
  assumes "storable v" "as_array v = Some xs" "x \<in> set xs"
  shows "storable x"
  using assms by (force simp: as_array_Some_iff storable_def foldr_max_bound list_all_iff)

lemma storable_object:
  assumes "storable v" "as_object v = Some kvs" "kv \<in> set kvs"
  shows "storable (snd kv)"
  using assms by (force simp: as_object_Some_iff storable_def foldr_max_bound list_all_iff)

lemma storable_room_events:
  assumes "storable room" "ev \<in> set (room_events room)"
  shows "storable ev"
proof (cases "as_array (jindex (jindex room ''timeline'') ''events'')")
  case (Some xs)
  with assms(2) have "ev \<in> set xs" by (simp add: room_events_def)
  then show ?thesis using storable_array [OF storable_jindex [OF storable_jindex [OF assms(1)]] Some] by blast
qed (use assms(2) in \<open>simp add: room_events_def\<close>)

lemma storable_joined:
  assumes "storable resp" "ev \<in> set (joined_events resp)"
  shows "storable ev"
proof (cases "as_object (jindex (jindex resp ''rooms'') ''join'')")
  case (Some kvs)
  then obtain kv where "kv \<in> set kvs" "ev \<in> set (room_events (snd kv))"
    using assms(2) by (auto simp: joined_events_def)
  then show ?thesis
    using storable_object [OF storable_jindex [OF storable_jindex [OF assms(1)]] Some] storable_room_events by blast
qed (use assms(2) in \<open>simp add: joined_events_def\<close>)

text \<open>
  A restriction on the server, not documented anywhere: its replies hold no floating point numbers,
  whose exact round trip through stored text \<open>serde_json\<close> does not promise.  The other two conditions of
  \<open>storable\<close> hold for every parsed reply: objects are maps, and \<open>serde_json\<close> refuses deeper nesting.
\<close>

definition replies_storable :: "'w server \<Rightarrow> bool" where
  "replies_storable srv \<longleftrightarrow>
     (\<forall>rq w r' w' b. srv rq w = (Inr r', w') \<longrightarrow> rp_json r' = Some b \<longrightarrow> storable b)"

lemma send_storable:
  assumes "replies_storable srv" "send srv rq n = (Inr v, n')"
  shows "storable v"
  using assms
  by (auto simp: send_def exchange_def bnd_Inr_iff replies_storable_def storable_def Let_def
      split: prod.splits sum.splits if_splits option.splits)

section \<open>Moves of the store\<close>

text \<open>The client's store has gone through operations of the store; no other store has changed.\<close>

definition store_moves :: "'t codec \<Rightarrow> store_ref \<Rightarrow> ('w, 'd, 'k, 't) world \<Rightarrow> ('w, 'd, 'k, 't) world \<Rightarrow> bool" where
  "store_moves cx ref w w' \<longleftrightarrow> (store_step cx)\<^sup>*\<^sup>* (wd_stores w ref) (wd_stores w' ref) \<and>
     (\<forall>other. other \<noteq> ref \<longrightarrow> wd_stores w' other = wd_stores w other)"

interpretation moves: step_rel "store_moves cx ref" for cx ref
  by unfold_locales (auto simp: store_moves_def)

lemma reachable_steps: "(store_step cx)\<^sup>*\<^sup>* db db' \<Longrightarrow> reachable cx db \<Longrightarrow> reachable cx db'"
  by (induction rule: rtranclp_induct) (auto intro: reach_step)

lemma moves_stores: "keeps same_stores m \<Longrightarrow> keeps (store_moves cx ref) m"
  by (auto simp: keeps_def same_stores_def store_moves_def)

lemma moves_write:
  assumes "\<And>db db' a. f db = Inr (db', a) \<Longrightarrow> store_step cx db db'"
  shows "keeps (store_moves cx (cl_store cl)) (store_write cl f)"
  using assms by (auto simp: keeps_def store_moves_def store_write_def split: sum.splits)

lemma moves_update:
  "(\<And>db. store_step cx db (f db)) \<Longrightarrow> keeps (store_moves cx (cl_store cl)) (store_update cl f)"
  unfolding store_update_def by (rule moves_write) auto

lemma moves_basic [simp]:
  "keeps (store_moves cx ref) (modA (\<lambda>w. w\<lparr>wd_send_counter := n w\<rparr>))"
  "keeps (store_moves cx ref) (modA (\<lambda>w. w\<lparr>wd_observer := ob w\<rparr>))"
  "keeps (store_moves cx ref) (modA (\<lambda>w. w\<lparr>wd_sleeps := sl w\<rparr>))"
  by (simp_all add: keeps_def store_moves_def)

lemma moves_quiet [simp]:
  "keeps (store_moves cx ref) (on_net m)" "keeps (store_moves cx ref) (on_core_net c)"
  "keeps (store_moves cx ref) (on_vault v)" "keeps (store_moves cx ref) (log_emit l t s)"
  "keeps (store_moves cx ref) (tick env)" "keeps (store_moves cx ref) has_engine"
  "keeps (store_moves cx ref) (store_read cl f)" "keeps (store_moves cx ref) (call_api b)"
  by (intro moves_stores keeps_stores_basic keeps_call_api)+

lemma moves_ret [simp]: "keeps (store_moves cx ref) (ret a)"
  by (rule moves.keeps_pure)

lemmas moves_rules = moves.keeps_bnd moves.keeps_catch moves.keeps_pure moves.keeps_forA
lemmas quiet_rules = stores.keeps_bnd stores.keeps_catch stores.keeps_pure stores.keeps_forA

lemma queue_message_moves:
  "keeps (store_moves (ce_codec env) (cl_store cl)) (queue_message env cl room body)"
proof -
  have "keeps (store_moves (ce_codec env) (cl_store cl))
      (store_write cl (\<lambda>db. queue_send (ce_codec env) db n (now_millis t) (now_millis t') room sender body))"
    for n t t' sender
    using sint_ge [of "word_of_int t' :: 64 word"] sint_lt [of "word_of_int t' :: 64 word"]
    by (intro moves_write step_queue [of "now_millis t'"]) (auto simp: now_millis_def i64_min_def i64_max_def)
  then have "keeps (store_moves (ce_codec env) (cl_store cl))
      (bnd (modA (\<lambda>w. w\<lparr>wd_send_counter := wd_send_counter w + 1\<rparr>)) (\<lambda>_.
       bnd (tick env) (\<lambda>id_reading. bnd (tick env) (\<lambda>reading.
       store_write cl (\<lambda>db. queue_send (ce_codec env) db (wd_send_counter w) (now_millis id_reading)
         (now_millis reading) room (ss_user_id (cl_session cl)) body)))))" for w
    by (auto intro!: moves_rules)
  then show ?thesis unfolding queue_message_def keeps_def by blast
qed

lemma flush_loop_moves: "keeps (store_moves (ce_codec env) (cl_store cl)) (flush_loop env cl sends changed)"
proof (induction sends arbitrary: changed)
  case Nil
  then show ?case unfolding flush_loop.simps by (rule moves_ret)
next
  case (Cons ps sends)
  have plan: "keeps (store_moves (ce_codec env) (cl_store cl)) (plan_send env cl ps)"
    unfolding plan_send_def encrypt_for_send_def
    by (intro moves_stores) (auto intro!: quiet_rules split: sum.splits option.splits)
  have resolve: "keeps (store_moves (ce_codec env) (cl_store cl))
      (store_write cl (\<lambda>db. then_ok (resolve_send (ce_codec env) db txn eid) (\<lambda>db'. Inr (db', ()))))" for txn eid
    by (rule moves_write) (auto simp: then_ok_Inr_iff intro: step_resolve)
  show ?case
    unfolding flush_loop.simps
    by (intro moves_rules plan)
      (auto intro!: moves_rules moves_update step_fail resolve Cons.IH
        split: outgoing.splits sum.splits)
qed

lemma flush_moves: "keeps (store_moves (ce_codec env) (cl_store cl)) (flush_pending env cl)"
  unfolding flush_pending_def by (auto intro!: moves_rules flush_loop_moves)

section \<open>Inbound MLS events and replies\<close>

lemma inbound_loop_moves: "keeps (store_moves (ce_codec env) (cl_store cl)) (inbound_loop env cl items changed)"
proof -
  have commit: "keeps (store_moves (ce_codec env) (cl_store cl)) (inbound_commit env cl c b)" for c b
    unfolding inbound_commit_def
    by (auto intro!: moves_rules moves_update step_commit split: sum.splits)
  have message: "keeps (store_moves (ce_codec env) (cl_store cl)) (inbound_message env cl m b)" for m b
    unfolding inbound_message_def
    by (auto intro!: moves_rules moves_update step_decrypted step_undecryptable split: sum.splits)
  show ?thesis
  proof (induction items arbitrary: changed)
    case Nil
    then show ?case unfolding inbound_loop.simps by (rule moves_ret)
  next
    case (Cons item items)
    then show ?case
      by (cases item) (simp_all add: moves.keeps_bnd commit message)
  qed
qed

lemma inbound_moves: "keeps (store_moves (ce_codec env) (cl_store cl)) (process_inbound_mls env cl)"
  unfolding process_inbound_mls_def by (auto intro!: moves_rules inbound_loop_moves)

lemma moves_apply:
  assumes "\<forall>v\<in>set evs. storable v"
  shows "keeps (store_moves (ce_codec env) (cl_store cl))
    (store_write cl (\<lambda>db. apply_events (ce_codec env) db evs))"
  by (rule moves_write) (rule step_sync [OF assms])

text \<open>The rest of a method may depend on what the first step can return.\<close>

lemma moves_bnd_value:
  assumes "keeps (store_moves cx ref) m" "\<And>s a s'. m s = (Inr a, s') \<Longrightarrow> keeps (store_moves cx ref) (f a)"
  shows "keeps (store_moves cx ref) (bnd m f)"
  unfolding keeps_def
proof (intro allI impI)
  fix s r s' assume "bnd m f s = (r, s')"
  then show "store_moves cx ref s s'"
    using assms unfolding keeps_def bnd_def
    by (auto split: prod.splits sum.splits) (metis moves.trans)
qed

lemma moves_catch_value:
  assumes "keeps (store_moves cx ref) m" "\<And>s r s'. m s = (r, s') \<Longrightarrow> keeps (store_moves cx ref) (f r)"
  shows "keeps (store_moves cx ref) (catch m f)"
  unfolding keeps_def
proof (intro allI impI)
  fix s r s' assume "catch m f s = (r, s')"
  then show "store_moves cx ref s s'"
    using assms unfolding keeps_def catch_def
    by (auto split: prod.splits) (metis moves.trans)
qed

lemma call_storable:
  assumes "replies_storable srv" "on_net (send srv rq) w = (Inr v, w')"
  shows "storable v"
  using assms(2) send_storable [OF assms(1)] by (auto simp: on_net_def split: prod.splits)

lemma call_api_Inr: "call_api m w = (Inr v, w') \<Longrightarrow> on_net m w = (Inr v, w')"
  by (cases "on_net m w") (auto simp: call_api_def map_errA_def map_err_def split: sum.splits)

lemma fetch_moves:
  assumes "replies_storable (ce_server env)"
  shows "keeps (store_moves (ce_codec env) (cl_store cl)) (fetch_messages env cl room limit)"
  unfolding fetch_messages_def
proof (rule moves_bnd_value)
  fix s resp s'
  assume "call_api (messages (ce_server env) (cl_api cl) room limit) s = (Inr resp, s')"
  then have "storable resp"
    unfolding messages_def by (rule call_storable [OF assms call_api_Inr])
  then have "\<forall>v\<in>set (case as_array (jindex resp ''chunk'') of None \<Rightarrow> [] | Some evs \<Rightarrow> evs). storable v"
    using storable_array [OF storable_jindex] by (cases "as_array (jindex resp ''chunk'')") auto
  then show "keeps (store_moves (ce_codec env) (cl_store cl))
     (let chunk = (case as_array (jindex resp ''chunk'') of None \<Rightarrow> [] | Some evs \<Rightarrow> evs)
      in bnd (store_write cl (\<lambda>db. apply_events (ce_codec env) db chunk)) (\<lambda>inserted.
         bnd (process_inbound_mls env cl) (\<lambda>_.
         ret (word_of_nat inserted))))"
    unfolding Let_def by (intro moves_rules moves_apply inbound_moves)
qed simp

lemma to_device_loop_quiet: "keeps same_stores (to_device_loop env evs j)"
proof -
  have join: "keeps same_stores (join_welcome env rm wl j)" for rm wl j
    unfolding join_welcome_def by (auto intro!: quiet_rules split: sum.splits)
  have event: "keeps same_stores (to_device_event env ev j)" for ev j
    unfolding to_device_event_def
    by (auto intro!: quiet_rules join split: sum.splits option.splits bool.splits)
  show ?thesis
  proof (induction evs arbitrary: j)
    case Nil
    then show ?case unfolding to_device_loop.simps by (rule stores.keeps_pure)
  next
    case (Cons ev evs)
    then show ?case by (simp add: stores.keeps_bnd event)
  qed
qed

lemma to_device_quiet: "keeps same_stores (apply_to_device env resp)"
  unfolding apply_to_device_def by (auto intro!: quiet_rules to_device_loop_quiet split: option.splits)

lemma batch_moves:
  assumes "storable resp"
  shows "keeps (store_moves (ce_codec env) (cl_store cl)) (handle_batch env cl resp)"
proof -
  have notify: "keeps (store_moves (ce_codec env) (cl_store cl)) (notify c)" for c
    by (simp add: notify_def keeps_def store_moves_def)
  have token: "keeps (store_moves (ce_codec env) (cl_store cl)) (persist_sync_token env cl resp)"
    unfolding persist_sync_token_def by (auto intro!: moves_update step_token moves_rules split: option.splits)
  have apply_ok: "keeps (store_moves (ce_codec env) (cl_store cl)) (apply_sync env cl resp)"
    unfolding apply_sync_def
    by (intro moves_rules moves_apply ballI storable_joined [OF assms])
  show ?thesis
    unfolding handle_batch_def
    by (intro moves_rules apply_ok moves_stores [OF to_device_quiet] token inbound_moves flush_moves notify)
      (simp add: notify)
qed

lemma cycle_moves:
  assumes "replies_storable (ce_server env)"
  shows "keeps (store_moves (ce_codec env) (cl_store cl)) (sync_cycle env cl backoff)"
  unfolding sync_cycle_def
proof (intro moves.keeps_bnd moves_catch_value)
  fix since s r s'
  assume run: "on_net (sync (ce_server env) (cl_api cl) since SYNC_TIMEOUT_MS SYNC_LIMIT) s = (r, s')"
  show "keeps (store_moves (ce_codec env) (cl_store cl))
     (case r of
        Inr resp \<Rightarrow> handle_batch env cl resp
      | Inl err \<Rightarrow>
          (if is_transient err then back_off err backoff else raise (core_of_api err)))"
  proof (cases r)
    case (Inr resp)
    with run have "storable resp" using call_storable [OF assms] unfolding sync_def by blast
    then show ?thesis using Inr batch_moves by simp
  next
    case (Inl err)
    have "keeps (store_moves (ce_codec env) (cl_store cl)) (back_off err backoff)"
      unfolding back_off_def notify_def sleep_secs_def
      by (intro moves_rules moves_stores) (auto simp: keeps_def same_stores_def log_emit_def)
    then show ?thesis using Inl by (auto intro: moves.keeps_pure)
  qed
qed simp_all

lemma cycles_moves:
  assumes "replies_storable (ce_server env)"
  shows "keeps (store_moves (ce_codec env) (cl_store cl)) (sync_cycles env cl n backoff)"
proof (induction n arbitrary: backoff)
  case 0
  then show ?case unfolding sync_cycles.simps by (rule moves_ret)
next
  case (Suc n)
  then show ?case by (simp add: moves.keeps_bnd cycle_moves [OF assms])
qed

section \<open>The calls of a session\<close>

text \<open>One call of a method of the client, whatever its outcome; a logout is the last one.\<close>

inductive app_call ::
  "('w, 'd, 'g, 'k, 't) client_env \<Rightarrow> pigeon_client \<Rightarrow> ('w, 'd, 'k, 't) world \<Rightarrow> ('w, 'd, 'k, 't) world \<Rightarrow> bool"
  for env cl where
  "run_sync env cl cycles w = (r, w') \<Longrightarrow> app_call env cl w w'"
| "client_send_message env cl room body w = (r, w') \<Longrightarrow> app_call env cl w w'"
| "flush_pending env cl w = (r, w') \<Longrightarrow> app_call env cl w w'"
| "process_inbound_mls env cl w = (r, w') \<Longrightarrow> app_call env cl w w'"
| "fetch_messages env cl room limit w = (r, w') \<Longrightarrow> app_call env cl w w'"
| "client_list_rooms env cl w = (r, w') \<Longrightarrow> app_call env cl w w'"
| "client_timeline env cl room limit before w = (r, w') \<Longrightarrow> app_call env cl w w'"
| "client_create_room env cl nm topic w = (r, w') \<Longrightarrow> app_call env cl w w'"
| "create_encrypted_room env cl nm topic w = (r, w') \<Longrightarrow> app_call env cl w w'"
| "client_join_room env cl room w = (r, w') \<Longrightarrow> app_call env cl w w'"
| "client_invite env cl room user w = (r, w') \<Longrightarrow> app_call env cl w w'"
| "client_upload_media env cl bs ct w = (r, w') \<Longrightarrow> app_call env cl w w'"
| "client_download_media env cl uri w = (r, w') \<Longrightarrow> app_call env cl w w'"
| "download_image env cl img w = (r, w') \<Longrightarrow> app_call env cl w w'"
| "send_image env cl room bs mime width height caption w = (r, w') \<Longrightarrow> app_call env cl w w'"
| "backup env cl w = (r, w') \<Longrightarrow> app_call env cl w w'"
| "restore_backup env cl key w = (r, w') \<Longrightarrow> app_call env cl w w'"

inductive client_call ::
  "('w, 'd, 'g, 'k, 't) client_env \<Rightarrow> pigeon_client \<Rightarrow> ('w, 'd, 'k, 't) world \<Rightarrow> ('w, 'd, 'k, 't) world \<Rightarrow> bool"
  for env cl where
  "app_call env cl w w' \<Longrightarrow> client_call env cl w w'"
| "client_logout env cl w = (r, w') \<Longrightarrow> client_call env cl w w'"

lemma next_txn_quiet [simp]: "keeps same_stores (next_txn_id env)"
  unfolding next_txn_id_def
  by (rule stores.keeps_bnd, simp) (simp add: keeps_def same_stores_def)

lemma upload_quiet [simp]: "keeps same_stores (client_upload_media env cl bs ct)"
  by (auto simp: client_upload_media_def intro!: quiet_rules)

lemma holds_group_quiet [simp]: "keeps same_stores (holds_group env room)"
  unfolding holds_group_def by (auto intro!: quiet_rules)

lemma quiet_methods:
  "keeps same_stores (client_list_rooms env cl)" "keeps same_stores (client_timeline env cl room limit before)"
  "keeps same_stores (client_create_room env cl nm topic)" "keeps same_stores (create_encrypted_room env cl nm topic)"
  "keeps same_stores (client_join_room env cl room)" "keeps same_stores (client_download_media env cl uri)"
  "keeps same_stores (download_image env cl img)" "keeps same_stores (backup env cl)"
  "keeps same_stores (restore_backup env cl key)"
  unfolding client_list_rooms_def client_timeline_def client_create_room_def create_encrypted_room_def
    client_join_room_def client_download_media_def download_image_def backup_def restore_backup_def
  by (auto intro!: quiet_rules publish_keeps_stores split: option.splits)

lemma send_image_quiet: "keeps same_stores (send_image env cl room bs mime width height caption)"
  unfolding send_image_def Let_def by (auto intro!: quiet_rules)

lemma invite_quiet: "keeps same_stores (client_invite env cl room user)"
  unfolding client_invite_def welcome_to_group_def welcome_device_def
  by (auto intro!: quiet_rules)

lemma client_call_moves:
  assumes "replies_storable (ce_server env)" "client_call env cl w w'"
  shows "store_moves (ce_codec env) (cl_store cl) w w'"
proof -
  have send: "keeps (store_moves (ce_codec env) (cl_store cl)) (client_send_message env cl room body)" for room body
    unfolding client_send_message_def by (intro moves_rules queue_message_moves flush_moves)
  have run: "keeps (store_moves (ce_codec env) (cl_store cl)) (run_sync env cl n)" for n
    unfolding run_sync_def by (rule cycles_moves [OF assms(1)])
  note moving = run send flush_moves inbound_moves fetch_moves [OF assms(1)]
    quiet_methods [THEN moves_stores] upload_quiet [THEN moves_stores] send_image_quiet [THEN moves_stores]
    invite_quiet [THEN moves_stores] logout_keeps_stores [THEN moves_stores]
  have app: "store_moves (ce_codec env) (cl_store cl) w w'" if "app_call env cl w w'"
    using that by cases (erule moving [unfolded keeps_def, rule_format])+
  from assms(2) show ?thesis
    by cases (erule app, erule moving [unfolded keeps_def, rule_format])
qed

lemma client_run_moves:
  assumes "replies_storable (ce_server env)" "(client_call env cl)\<^sup>*\<^sup>* w w'"
  shows "store_moves (ce_codec env) (cl_store cl) w w'"
  using assms(2)
proof (induction rule: rtranclp_induct)
  case base
  show ?case by (rule moves.refl)
next
  case (step w1 w2)
  then show ?case using client_call_moves [OF assms(1)] moves.trans by blast
qed

section \<open>The shape of the store, whatever the server sends\<close>

definition shape_moves :: "store_ref \<Rightarrow> ('w, 'd, 'k, 't) world \<Rightarrow> ('w, 'd, 'k, 't) world \<Rightarrow> bool" where
  "shape_moves ref w w' \<longleftrightarrow> (shape_inv (wd_stores w ref) \<longrightarrow> shape_inv (wd_stores w' ref)) \<and>
     (\<forall>other. other \<noteq> ref \<longrightarrow> wd_stores w' other = wd_stores w other)"

interpretation shape: step_rel "shape_moves ref" for ref
  by unfold_locales (auto simp: shape_moves_def)

lemma shape_steps: "(store_step cx)\<^sup>*\<^sup>* db db' \<Longrightarrow> shape_inv db \<Longrightarrow> shape_inv db'"
  by (induction rule: rtranclp_induct) (auto intro: store_step_shape)

lemma shape_of_moves: "keeps (store_moves cx ref) m \<Longrightarrow> keeps (shape_moves ref) m"
  unfolding keeps_def store_moves_def shape_moves_def using shape_steps by blast

lemma shape_apply: "keeps (shape_moves (cl_store cl)) (store_write cl (\<lambda>db. apply_events cx db evs))"
  using shape_kept(1) [of _ cx evs]
  by (fastforce simp: keeps_def shape_moves_def store_write_def split: sum.splits)

lemma shape_fetch: "keeps (shape_moves (cl_store cl)) (fetch_messages env cl room limit)"
  unfolding fetch_messages_def Let_def
  by (intro shape.keeps_bnd shape_apply shape_of_moves [OF inbound_moves] shape_of_moves [OF moves_ret]
      shape_of_moves [OF moves_quiet(8)])

lemma shape_batch: "keeps (shape_moves (cl_store cl)) (handle_batch env cl resp)"
proof -
  have notify: "keeps (store_moves (ce_codec env) (cl_store cl)) (notify c)" for c
    by (simp add: notify_def keeps_def store_moves_def)
  have token: "keeps (store_moves (ce_codec env) (cl_store cl)) (persist_sync_token env cl resp)"
    unfolding persist_sync_token_def by (auto intro!: moves_update step_token moves_rules split: option.splits)
  have apply_ok: "keeps (shape_moves (cl_store cl)) (apply_sync env cl resp)"
    unfolding apply_sync_def by (intro shape.keeps_bnd shape_apply shape.keeps_pure)
  have rest: "keeps (store_moves (ce_codec env) (cl_store cl))
      (bnd (apply_to_device env resp) (\<lambda>joined.
       bnd (persist_sync_token env cl resp) (\<lambda>_.
       bnd (process_inbound_mls env cl) (\<lambda>mls_changed.
       bnd (flush_pending env cl) (\<lambda>flushed.
       bnd (notify (OnStatus True)) (\<lambda>_.
       bnd (if applied \<or> joined \<or> mls_changed \<or> flushed then notify OnChange else ret ()) (\<lambda>_.
       ret BACKOFF_START)))))))" for applied
    by (intro moves_rules moves_stores [OF to_device_quiet] token inbound_moves flush_moves notify)
      (simp add: notify)
  show ?thesis
    unfolding handle_batch_def by (intro shape.keeps_bnd apply_ok shape_of_moves [OF rest])
qed

lemma shape_cycle: "keeps (shape_moves (cl_store cl)) (sync_cycle env cl backoff)"
proof -
  have "keeps (store_moves (ce_codec env) (cl_store cl)) (back_off err b)" for err b
    unfolding back_off_def notify_def sleep_secs_def
    by (intro moves_rules moves_stores) (auto simp: keeps_def same_stores_def log_emit_def)
  note parts = shape_of_moves [OF this] shape_batch
  show ?thesis
    unfolding sync_cycle_def
    by (intro shape.keeps_bnd shape.keeps_catch) (auto intro: parts shape_of_moves moves.keeps_pure split: sum.split)
qed

lemma shape_run: "keeps (shape_moves (cl_store cl)) (run_sync env cl n)"
proof -
  have "keeps (shape_moves (cl_store cl)) (sync_cycles env cl n b)" for b
  proof (induction n arbitrary: b)
    case 0
    then show ?case unfolding sync_cycles.simps by (rule shape.keeps_pure)
  qed (simp add: shape.keeps_bnd shape_cycle)
  then show ?thesis by (simp add: run_sync_def)
qed

lemma client_call_shape:
  assumes "client_call env cl w w'"
  shows "shape_moves (cl_store cl) w w'"
proof -
  have send: "keeps (store_moves (ce_codec env) (cl_store cl)) (client_send_message env cl room body)" for room body
    unfolding client_send_message_def by (intro moves_rules queue_message_moves flush_moves)
  note moving = shape_run shape_of_moves [OF send] shape_of_moves [OF flush_moves] shape_of_moves [OF inbound_moves]
    shape_fetch quiet_methods [THEN moves_stores, THEN shape_of_moves] upload_quiet [THEN moves_stores, THEN shape_of_moves]
    send_image_quiet [THEN moves_stores, THEN shape_of_moves] invite_quiet [THEN moves_stores, THEN shape_of_moves]
    logout_keeps_stores [THEN moves_stores, THEN shape_of_moves]
  have app: "shape_moves (cl_store cl) w w'" if "app_call env cl w w'"
    using that by cases (erule moving [unfolded keeps_def, rule_format])+
  from assms show ?thesis
    by cases (erule app, erule moving [unfolded keeps_def, rule_format])
qed

lemma client_run_shape: "(client_call env cl)\<^sup>*\<^sup>* w w' \<Longrightarrow> shape_moves (cl_store cl) w w'"
proof (induction rule: rtranclp_induct)
  case base
  show ?case by (rule shape.refl)
next
  case (step w1 w2)
  then show ?case using client_call_shape shape.trans by blast
qed

text \<open>
  C2: Whatever the server answers, whatever fails on the way and however often the methods of the client are
  called, its store keeps its shape (ids and keys are unique, current state refers to logged events,
  only the known send and decryption states occur, the echoes being sent are exactly the queued
  messages), and no other store of the process changes.  As long as moreover the JSON of the server's
  replies holds no floating point number (whose exact round trip through stored text \<open>serde_json\<close> does
  not promise), repeats no key and nests at most 127 deep (which \<open>serde_json\<close> sees to), the store stays
  one that the store's own operations can produce from the empty store, so the full invariant (every
  stored payload reads back as its row) and every property of its reads hold at any moment.
\<close>

theorem client_preserves_store:
  assumes "(client_call env cl)\<^sup>*\<^sup>* w w'"
  shows "(shape_inv (wd_stores w (cl_store cl)) \<longrightarrow> shape_inv (wd_stores w' (cl_store cl))) \<and>
    (\<forall>other. other \<noteq> cl_store cl \<longrightarrow> wd_stores w' other = wd_stores w other) \<and>
    (replies_storable (ce_server env) \<longrightarrow> reachable (ce_codec env) (wd_stores w (cl_store cl)) \<longrightarrow>
       reachable (ce_codec env) (wd_stores w' (cl_store cl)) \<and> db_inv (ce_codec env) (wd_stores w' (cl_store cl)))"
proof -
  have "reachable (ce_codec env) (wd_stores w' (cl_store cl))"
    if "replies_storable (ce_server env)" "reachable (ce_codec env) (wd_stores w (cl_store cl))"
    using client_run_moves [OF that(1) assms] reachable_steps [OF _ that(2)] by (simp add: store_moves_def)
  then show ?thesis
    using client_run_shape [OF assms] reachable_inv unfolding shape_moves_def by blast
qed

text \<open>A server that delivers one message, and the world after one cycle of the sync loop.\<close>

definition sample_sync :: json where
  "sample_sync = JObj [(''next_batch'', JStr ''s2''), (''rooms'', JObj [(''join'', JObj [(''!r'',
     JObj [(''timeline'', JObj [(''events'', JArr [sample_event ''$m'' ''p.room.message'' None 2
       [(''body'', JStr ''hello'')]])])])])])]"

lemma sample_sync_storable: "replies_storable (reply_server 200 sample_sync)"
proof -
  have "storable sample_sync" by code_simp
  then show ?thesis by (auto simp: replies_storable_def reply_server_def)
qed

theorem client_preserves_store_witness:
  "db_inv id_codec (wd_stores (snd (run_sync (toy_env (reply_server 200 sample_sync)) toy_client 1
     (toy_world None db_name))) (cl_store toy_client))"
proof -
  let ?env = "toy_env (reply_server 200 sample_sync)" and ?w = "toy_world None db_name"
  have "replies_storable (ce_server ?env)" using sample_sync_storable by (simp add: toy_env_def)
  moreover have "reachable (ce_codec ?env) (wd_stores ?w (cl_store toy_client))"
    using reach_db_name by (simp add: toy_env_def toy_world_def)
  moreover have "(client_call ?env toy_client)\<^sup>*\<^sup>* ?w (snd (run_sync ?env toy_client 1 ?w))"
    by (rule r_into_rtranclp) (rule client_call.intros(1), rule app_call.intros(1), rule surjective_pairing)
  ultimately have "db_inv (ce_codec ?env) (wd_stores (snd (run_sync ?env toy_client 1 ?w)) (cl_store toy_client))"
    using client_preserves_store [of ?env toy_client ?w] by blast
  then show ?thesis by (simp add: toy_env_def)
qed

end
