(* ===== verification/Send_Queue.thy ===== *)
theory Send_Queue
  imports Client_Inv
begin

text \<open>
  The retry queue as a machine of its own: each queued message meets a fate (delivered, refused, or
  kept for later), a flush settles the queue in its order, and what goes out on the wire depends on
  whether the room is encrypted.  \<open>flush_pending\<close> refines that machine.
\<close>

section \<open>The abstract queue\<close>

datatype fate = Delivered string | Refused | Kept

text \<open>What became of a queued message: the event transmitted for it, if any, and its fate.\<close>

record outcome =
  oc_send :: pending_send
  oc_sent :: "(string \<times> json) option"
  oc_fate :: fate

definition plain_event :: "pending_send \<Rightarrow> json" where
  "plain_event ps = JObj [(''body'', JStr (ps_body ps)), (''msgtype'', JStr ''p.text'')]"

text \<open>
  What the device does with a message: \<open>sealed\<close>, it makes a ciphertext of the body with the group of the
  room and moves on; \<open>groupless\<close>, there is no engine or it holds no group for the room; \<open>unsealable\<close>, the
  group cannot be loaded, encrypting fails, or the device it leaves behind cannot be saved.
\<close>

definition sealed :: "('d, 'g, 'k) crypto_env \<Rightarrow> pending_send \<Rightarrow> 'd option \<Rightarrow> string \<Rightarrow> 'd option \<Rightarrow> bool" where
  "sealed C ps d c d' \<longleftrightarrow> (\<exists>dev g ct dev'. d = Some dev \<and> d' = Some dev' \<and>
     m_load_group (env_mls C) (str_bytes (ps_room_id ps)) dev = Inr (Some g) \<and>
     m_encrypt (env_mls C) g (str_bytes (ps_body ps)) dev = (Inr ct, dev') \<and> c = b64_encode (env_b64 C) ct)"

definition groupless :: "('d, 'g, 'k) crypto_env \<Rightarrow> pending_send \<Rightarrow> 'd option \<Rightarrow> bool" where
  "groupless C ps d \<longleftrightarrow> (\<forall>dev. d = Some dev \<longrightarrow> m_load_group (env_mls C) (str_bytes (ps_room_id ps)) dev = Inr None)"

definition unsealable :: "('d, 'g, 'k) crypto_env \<Rightarrow> pending_send \<Rightarrow> 'd option \<Rightarrow> 'd option \<Rightarrow> bool" where
  "unsealable C ps d d' \<longleftrightarrow> (\<exists>dev e. d = Some dev \<and>
     (m_load_group (env_mls C) (str_bytes (ps_room_id ps)) dev = Inl e \<and> d' = d \<or>
      (\<exists>g r dev'. m_load_group (env_mls C) (str_bytes (ps_room_id ps)) dev = Inr (Some g) \<and>
         m_encrypt (env_mls C) g (str_bytes (ps_body ps)) dev = (r, dev') \<and> d' = Some dev' \<and>
         (r = Inl e \<or> (\<exists>v err. fst (persist C dev' v) = Inl err)))))"

text \<open>
  What leaves the device for a message: its ciphertext, or the plain body in a room that is not marked
  encrypted and whose group the device does not hold.
\<close>

definition leaves :: "('d, 'g, 'k) crypto_env \<Rightarrow> 't db \<Rightarrow> pending_send \<Rightarrow> 'd option \<Rightarrow> string \<times> json \<Rightarrow> 'd option \<Rightarrow> bool" where
  "leaves C db ps d out d' \<longleftrightarrow>
     (\<exists>c. out = (''p.room.encrypted'', encrypted_event c) \<and> sealed C ps d c d') \<or>
     out = (''p.room.message'', plain_event ps) \<and> \<not> is_room_encrypted db (ps_room_id ps) \<and> groupless C ps d \<and> d' = d"

definition planned :: "('d, 'g, 'k) crypto_env \<Rightarrow> 't db \<Rightarrow> pending_send \<Rightarrow> 'd option \<Rightarrow> outgoing \<Rightarrow> 'd option \<Rightarrow> bool" where
  "planned C db ps d plan d' \<longleftrightarrow>
     (case plan of
        Transmit ty content \<Rightarrow> leaves C db ps d (ty, content) d'
      | Held \<Rightarrow> is_room_encrypted db (ps_room_id ps) \<and> groupless C ps d \<and> d' = d
      | Unencryptable \<Rightarrow> unsealable C ps d d')"

text \<open>The states a device passes through while it encrypts.\<close>

definition ratchets :: "('d, 'g, 'k) crypto_env \<Rightarrow> 'd option \<Rightarrow> 'd option \<Rightarrow> bool" where
  "ratchets C d d' \<longleftrightarrow> (\<exists>dev g bs. d = Some dev \<and> d' = Some (snd (m_encrypt (env_mls C) g bs dev)))"

definition may_transmit ::
  "('d, 'g, 'k) crypto_env \<Rightarrow> 'd option \<Rightarrow> 't db \<Rightarrow> pending_send \<Rightarrow> string \<times> json \<Rightarrow> bool" where
  "may_transmit C d0 db ps out \<longleftrightarrow> (\<exists>d d'. (ratchets C)\<^sup>*\<^sup>* d0 d \<and> leaves C db ps d out d')"

fun settle_one :: "'t codec \<Rightarrow> outcome \<Rightarrow> 't db \<Rightarrow> store_error + 't db" where
  "settle_one cx oc db =
     (case oc_fate oc of
        Delivered eid \<Rightarrow> resolve_send cx db (ps_txn_id (oc_send oc)) eid
      | Refused \<Rightarrow> Inr (fail_send db (ps_txn_id (oc_send oc)))
      | Kept \<Rightarrow> Inr db)"

fun settle :: "'t codec \<Rightarrow> outcome list \<Rightarrow> 't db \<Rightarrow> store_error + 't db" where
  "settle cx [] db = Inr db"
| "settle cx (oc # ocs) db = then_ok (settle_one cx oc db) (settle cx ocs)"

definition outcome_ok :: "('d, 'g, 'k) crypto_env \<Rightarrow> 'd option \<Rightarrow> 't db \<Rightarrow> outcome \<Rightarrow> bool" where
  "outcome_ok C d0 db oc \<longleftrightarrow> (\<forall>out. oc_sent oc = Some out \<longrightarrow> may_transmit C d0 db (oc_send oc) out)"

definition settled :: "outcome \<Rightarrow> bool" where
  "settled oc \<longleftrightarrow> oc_fate oc \<noteq> Kept"

text \<open>
  The fate the server's answer means: an event id delivers the message; a lost connection and a rate
  limit keep it; every other refusal, and a reply that cannot be read, refuses it.
\<close>

fun answer_fate :: "api_error + string \<Rightarrow> fate" where
  "answer_fate (Inr event_id) = Delivered event_id"
| "answer_fate (Inl (NetworkErr _)) = Kept"
| "answer_fate (Inl (ServerErr _ code _)) = (if code = LimitExceeded then Kept else Refused)"
| "answer_fate (Inl (MalformedErr _)) = Refused"

lemma answer_fate_Inl: "answer_fate (Inl err) = (if is_transient err then Kept else Refused)"
  by (cases err) (simp_all add: is_transient_def)

text \<open>
  The course of a pass: how the device and the network move from \<open>d\<close>, \<open>n\<close> to \<open>d'\<close>, \<open>n'\<close> while the messages
  meet their fates.  A message that is not transmitted is held back for its encrypted room or could
  not be sealed; a transmitted one meets the fate of the server's answer, and if that keeps it the
  rest of the queue is left for later.
\<close>

fun course ::
  "('w, 'd, 'g, 'k, 't) client_env \<Rightarrow> api \<Rightarrow> 't db \<Rightarrow> outcome list \<Rightarrow> 'd option \<Rightarrow> 'w net \<Rightarrow> 'd option \<Rightarrow> 'w net \<Rightarrow> bool" where
  "course env a db [] d n d' n' \<longleftrightarrow> d' = d \<and> n' = n"
| "course env a db (oc # ocs) d n d' n' \<longleftrightarrow>
     (case oc_sent oc of
        None \<Rightarrow>
          oc_fate oc = Kept \<and> is_room_encrypted db (ps_room_id (oc_send oc)) \<and>
            groupless (ce_crypto env) (oc_send oc) d \<and> course env a db ocs d n d' n' \<or>
          oc_fate oc = Refused \<and> (\<exists>d1. unsealable (ce_crypto env) (oc_send oc) d d1 \<and> course env a db ocs d1 n d' n')
      | Some (ty, content) \<Rightarrow>
          (\<exists>d1 answer n1. leaves (ce_crypto env) db (oc_send oc) d (ty, content) d1 \<and>
             send_event (ce_server env) a (ps_room_id (oc_send oc)) ty (ps_txn_id (oc_send oc)) content n = (answer, n1) \<and>
             oc_fate oc = answer_fate answer \<and>
             (if oc_fate oc = Kept then (\<forall>later\<in>set ocs. oc_sent later = None \<and> oc_fate later = Kept) \<and> d' = d1 \<and> n' = n1
              else course env a db ocs d1 n1 d' n')))"

text \<open>The request of one transmitted message.\<close>

definition send_request :: "api \<Rightarrow> pending_send \<Rightarrow> string \<times> json \<Rightarrow> request" where
  "send_request a ps out =
     (req a PUT (''/_pigeon/client/v1/rooms/'' @ ps_room_id ps @ ''/send/'' @ fst out @ ''/'' @ ps_txn_id ps))
       \<lparr>rq_body := JsonBody (snd out)\<rparr>"

definition requests_of :: "api \<Rightarrow> outcome list \<Rightarrow> request list" where
  "requests_of a ocs =
     List.map_filter (\<lambda>oc. map_option (send_request a (oc_send oc)) (oc_sent oc)) ocs"

lemma requests_of_simps [simp]:
  "requests_of a [] = []"
  "requests_of a (oc # ocs) =
     (case oc_sent oc of None \<Rightarrow> [] | Some out \<Rightarrow> [send_request a (oc_send oc) out]) @ requests_of a ocs"
  by (auto simp: requests_of_def List.map_filter_def split: option.splits)

section \<open>One round of the flush\<close>

lemma send_event_log:
  "on_net (send_event srv a (ps_room_id ps) ty (ps_txn_id ps) content) w = (r, w') \<Longrightarrow>
     net_log (wd_net w') = net_log (wd_net w) @ [send_request a ps (ty, content)] \<and> wd_stores w' = wd_stores w"
  by (auto simp: on_net_def send_event_def put_def send_def exchange_def bnd_def send_request_def Let_def
      split: prod.splits sum.splits if_splits)

lemma encrypt_for_send_frames:
  "keeps same_net (encrypt_for_send env room body)" "keeps same_stores (encrypt_for_send env room body)"
  unfolding encrypt_for_send_def by (auto intro!: net_rules quiet_rules)

lemma persist_device: "persist C d v = (r, v') \<Longrightarrow> vt_device v' = vt_device v"
  by (auto simp: persist_def ks_put_def ks_call_def bnd_def split: prod.splits sum.splits option.splits)

lemma encrypt_device:
  assumes "encrypt C (ps_room_id ps) (ps_body ps) v = (r, v')" "vt_device v = Some dev"
    and "m_load_group (env_mls C) (str_bytes (ps_room_id ps)) dev = Inr (Some g)"
  shows "case r of Inr c \<Rightarrow> sealed C ps (vt_device v) c (vt_device v') | Inl e \<Rightarrow> unsealable C ps (vt_device v) (vt_device v')"
proof -
  obtain s dev' where s: "m_encrypt (env_mls C) g (str_bytes (ps_body ps)) dev = (s, dev')" by fastforce
  let ?v = "v\<lparr>vt_device := Some dev'\<rparr>"
  have open_group: "the_device v = (Inr dev, v)" "load_group C dev (ps_room_id ps) = Inr g" "the_device ?v = (Inr dev', ?v)"
    using assms(2,3) by (simp_all add: the_device_def load_group_def ok_or_def)
  show ?thesis
  proof (cases s)
    case (Inl e)
    then have "r = Inl (core_of_crypto e)" "v' = ?v"
      using assms(1) open_group s by (auto simp: encrypt_def on_device_def set_device_def bnd_def)
    then show ?thesis using assms(2,3) s Inl by (simp add: unsealable_def)
  next
    case (Inr ct)
    obtain p v1 where p: "persist C dev' ?v = (p, v1)" by fastforce
    have "v' = v1" "r = (case p of Inl e \<Rightarrow> Inl e | Inr _ \<Rightarrow> Inr (b64_encode (env_b64 C) ct))"
      using assms(1) open_group s Inr p
      by (auto simp: encrypt_def on_device_def set_device_def persist_current_def bnd_def split: sum.splits)
    then show ?thesis
      using assms(2,3) s Inr p persist_device [OF p]
      by (cases p) (auto simp: unsealable_def sealed_def intro: exI [of _ ?v])
  qed
qed

lemma encrypt_for_send_device:
  assumes "encrypt_for_send env (ps_room_id ps) (ps_body ps) w = (r, w')"
  shows "case r of
      Inr (Some c) \<Rightarrow> sealed (ce_crypto env) ps (vt_device (wd_vault w)) c (vt_device (wd_vault w'))
    | Inr None \<Rightarrow> groupless (ce_crypto env) ps (vt_device (wd_vault w)) \<and> wd_vault w' = wd_vault w
    | Inl e \<Rightarrow> unsealable (ce_crypto env) ps (vt_device (wd_vault w)) (vt_device (wd_vault w'))"
proof (cases "vt_device (wd_vault w)")
  case None
  then have "r = Inr None" "w' = w" using assms by (auto simp: encrypt_for_send_def has_engine_def bnd_def)
  then show ?thesis using None by (simp add: groupless_def)
next
  case (Some dev)
  let ?C = "ce_crypto env" and ?v = "wd_vault w"
  let ?load = "m_load_group (env_mls ?C) (str_bytes (ps_room_id ps)) dev"
  have held: "on_vault (has_group ?C (ps_room_id ps)) w = (map_err core_of_crypto (then_ok ?load (\<lambda>g. Inr (g \<noteq> None))), w)"
    using Some by (cases ?load) (simp_all add: on_vault_def has_group_def the_device_def bnd_def)
  have run: "bnd (on_vault (has_group ?C (ps_room_id ps))) (\<lambda>held.
      if held then bnd (on_vault (encrypt ?C (ps_room_id ps) (ps_body ps))) (\<lambda>c. ret (Some c)) else ret None) w = (r, w')"
    using assms Some by (simp add: encrypt_for_send_def has_engine_def bnd_def)
  show ?thesis
  proof (cases "\<exists>g. ?load = Inr (Some g)")
    case True
    then obtain g where g: "?load = Inr (Some g)" by blast
    obtain s v' where s: "encrypt ?C (ps_room_id ps) (ps_body ps) ?v = (s, v')" by fastforce
    have "r = map_err id (then_ok s (\<lambda>c. Inr (Some c)))" "wd_vault w' = v'"
      using run held g s by (auto simp: bnd_def on_vault_def split: sum.splits)
    then show ?thesis using encrypt_device [OF s Some g] by (cases s) simp_all
  next
    case False
    then show ?thesis
      using run held Some by (cases ?load) (auto simp: bnd_def unsealable_def groupless_def split: option.splits)
  qed
qed

lemma plan_send_run:
  obtains plan w1 where "plan_send env cl ps w = (Inr plan, w1)" "wd_stores w1 = wd_stores w" "wd_net w1 = wd_net w"
    "planned (ce_crypto env) (wd_stores w (cl_store cl)) ps (vt_device (wd_vault w)) plan (vt_device (wd_vault w1))"
proof -
  obtain r w0 where 0: "encrypt_for_send env (ps_room_id ps) (ps_body ps) w = (r, w0)" by fastforce
  then have f: "wd_stores w0 = wd_stores w" "wd_net w0 = wd_net w"
    using encrypt_for_send_frames [of env "ps_room_id ps" "ps_body ps"]
    by (auto simp: keeps_def same_net_def same_stores_def)
  note d = encrypt_for_send_device [OF 0]
  show thesis
  proof (cases r)
    case (Inl err)
    then show thesis
      using that 0 f d by (simp add: plan_send_def catch_def log_emit_def bnd_def planned_def)
  next
    case (Inr c)
    then show thesis
      using that 0 f d
      by (cases c; cases "is_room_encrypted (wd_stores w (cl_store cl)) (ps_room_id ps)")
        (auto simp: plan_send_def catch_def log_emit_def bnd_def store_read_def planned_def leaves_def plain_event_def)
  qed
qed


section \<open>The loop\<close>

lemma fail_send_state [simp]: "room_state (fail_send db txn) = room_state db"
  by (simp add: fail_send_def dequeue_def split: option.split)

lemma settle_one_state: "settle_one cx oc db = Inr db' \<Longrightarrow> room_state db' = room_state db"
  by (auto dest: resolve_send_queue split: fate.splits)

lemma leaves_state: "room_state db' = room_state db \<Longrightarrow> leaves C db' = leaves C db"
  by (intro ext) (simp add: leaves_def is_room_encrypted_def)

lemma ratchetsI: "m_encrypt (env_mls C) g bs dev = (r, dev') \<Longrightarrow> (ratchets C)\<^sup>*\<^sup>* (Some dev) (Some dev')"
  by (intro r_into_rtranclp) (auto simp: ratchets_def intro!: exI [of _ g] exI [of _ bs])

lemma leaves_ratchets: "leaves C db ps d out d' \<Longrightarrow> (ratchets C)\<^sup>*\<^sup>* d d'"
  by (auto simp: leaves_def sealed_def intro: ratchetsI)

lemma unsealable_ratchets: "unsealable C ps d d' \<Longrightarrow> (ratchets C)\<^sup>*\<^sup>* d d'"
  by (auto simp: unsealable_def intro: ratchetsI)

lemma planned_ratchets: "planned C db ps d plan d' \<Longrightarrow> (ratchets C)\<^sup>*\<^sup>* d d'"
  by (cases plan) (auto simp: planned_def dest: leaves_ratchets unsealable_ratchets)

lemma outcome_ok_earlier:
  assumes "outcome_ok C d1 db' oc" "(ratchets C)\<^sup>*\<^sup>* d d1" "room_state db' = room_state db"
  shows "outcome_ok C d db oc"
  using assms(1) rtranclp_trans [OF assms(2)] leaves_state [OF assms(3)]
  unfolding outcome_ok_def may_transmit_def by metis

lemma outcome_ok_unsent: "oc_sent oc = None \<Longrightarrow> outcome_ok C d db oc"
  by (simp add: outcome_ok_def)

lemma outcome_ok_sent: "leaves C db (oc_send oc) d out d' \<Longrightarrow> oc_sent oc = Some out \<Longrightarrow> outcome_ok C d db oc"
  unfolding outcome_ok_def may_transmit_def by (auto intro: exI [of _ d])

lemma course_state: "room_state db' = room_state db \<Longrightarrow> course env a db' ocs d n d' n' = course env a db ocs d n d' n'"
proof (induction ocs arbitrary: d n)
  case (Cons oc ocs)
  have "is_room_encrypted db' = is_room_encrypted db" using Cons.prems by (intro ext) (simp add: is_room_encrypted_def)
  then show ?case
    unfolding course.simps Cons.IH [OF Cons.prems] leaves_state [OF Cons.prems] by (simp only:)
qed simp

text \<open>
  \<open>loop_trace\<close>: the loop over \<open>sends\<close> met the outcomes \<open>ocs\<close>; they explain the requests, the store and
  the result.  On an error the outcomes are those of the messages up to the one that failed.
\<close>

definition loop_trace ::
  "('w, 'd, 'g, 'k, 't) client_env \<Rightarrow> pigeon_client \<Rightarrow> ('w, 'd, 'k, 't) world \<Rightarrow> pending_send list \<Rightarrow> bool \<Rightarrow>
   core_error + bool \<Rightarrow> ('w, 'd, 'k, 't) world \<Rightarrow> outcome list \<Rightarrow> bool" where
  "loop_trace env cl w sends changed r w' ocs \<longleftrightarrow>
     (let db = wd_stores w (cl_store cl); db' = wd_stores w' (cl_store cl); d = vt_device (wd_vault w)
      in net_log (wd_net w') = net_log (wd_net w) @ requests_of (cl_api cl) ocs \<and>
         (\<forall>oc\<in>set ocs. outcome_ok (ce_crypto env) d db oc) \<and> (\<exists>rest. sends = map oc_send ocs @ rest) \<and>
         (\<forall>b. r = Inr b \<longrightarrow> map oc_send ocs = sends \<and> settle (ce_codec env) ocs db = Inr db' \<and>
            course env (cl_api cl) db ocs d (wd_net w) (vt_device (wd_vault w')) (wd_net w') \<and>
            b = (changed \<or> (\<exists>oc\<in>set ocs. settled oc))))"

text \<open>One message, then the rest of the pass from the world \<open>w1\<close>.\<close>

lemma loop_trace_step:
  assumes "loop_trace env cl w1 sends changed1 r w' ocs"
    and "settle_one (ce_codec env) oc (wd_stores w (cl_store cl)) = Inr (wd_stores w1 (cl_store cl))"
    and "outcome_ok (ce_crypto env) (vt_device (wd_vault w)) (wd_stores w (cl_store cl)) oc"
    and "net_log (wd_net w1) = net_log (wd_net w) @ requests_of (cl_api cl) [oc]"
    and "changed1 = (changed \<or> settled oc)"
    and "(ratchets (ce_crypto env))\<^sup>*\<^sup>* (vt_device (wd_vault w)) (vt_device (wd_vault w1))"
    and "\<And>d' n'. course env (cl_api cl) (wd_stores w (cl_store cl)) ocs (vt_device (wd_vault w1)) (wd_net w1) d' n' \<Longrightarrow>
      course env (cl_api cl) (wd_stores w (cl_store cl)) (oc # ocs) (vt_device (wd_vault w)) (wd_net w) d' n'"
  shows "loop_trace env cl w (oc_send oc # sends) changed r w' (oc # ocs)"
proof -
  let ?db = "wd_stores w (cl_store cl)" and ?db1 = "wd_stores w1 (cl_store cl)"
  have st: "room_state ?db1 = room_state ?db" by (rule settle_one_state [OF assms(2)])
  have "\<forall>oc\<in>set ocs. outcome_ok (ce_crypto env) (vt_device (wd_vault w)) ?db oc"
    using assms(1) outcome_ok_earlier [OF _ assms(6) st] by (simp add: loop_trace_def Let_def)
  moreover have "course env (cl_api cl) ?db (oc # ocs) (vt_device (wd_vault w)) (wd_net w) (vt_device (wd_vault w')) (wd_net w')"
    if "r = Inr b" for b
    using assms(1,7) that unfolding loop_trace_def Let_def course_state [OF st] by blast
  ultimately show ?thesis
    using assms(1-5) by (auto simp: loop_trace_def Let_def simp del: settle_one.simps course.simps)
qed

text \<open>The rest of the queue when the pass ends early.\<close>

abbreviation unmet :: "pending_send \<Rightarrow> outcome" where
  "unmet ps \<equiv> \<lparr> oc_send = ps, oc_sent = None, oc_fate = Kept \<rparr>"

lemma unmet_rest: "requests_of a (map unmet sends) = []" "settle cx (map unmet sends) db = Inr db"
  by (induction sends) simp_all

definition put_db ::
  "pigeon_client \<Rightarrow> ('w, 'd, 'k, 't) world \<Rightarrow> 't db \<Rightarrow> ('w, 'd, 'k, 't) world" where
  "put_db cl w db = w\<lparr>wd_stores := (wd_stores w)(cl_store cl := db)\<rparr>"

lemma plan_frame:
  assumes "plan_send env cl ps w = (Inr plan, w1)"
  shows "wd_stores w1 = wd_stores w" "wd_net w1 = wd_net w"
    "planned (ce_crypto env) (wd_stores w (cl_store cl)) ps (vt_device (wd_vault w)) plan (vt_device (wd_vault w1))"
proof -
  obtain plan' w2 where p: "plan_send env cl ps w = (Inr plan', w2)" "wd_stores w2 = wd_stores w" "wd_net w2 = wd_net w"
      "planned (ce_crypto env) (wd_stores w (cl_store cl)) ps (vt_device (wd_vault w)) plan' (vt_device (wd_vault w2))"
    using plan_send_run by metis
  then show "wd_stores w1 = wd_stores w" "wd_net w1 = wd_net w"
    "planned (ce_crypto env) (wd_stores w (cl_store cl)) ps (vt_device (wd_vault w)) plan (vt_device (wd_vault w1))"
    using assms by simp_all
qed

text \<open>One message of a pass: what the plan was, what the server answered, and how the pass goes on.\<close>

lemma flush_loop_ConsE:
  assumes "flush_loop env cl (ps # sends) changed w = (r, w')"
  obtains
    (held) w1 where "plan_send env cl ps w = (Inr Held, w1)" "flush_loop env cl sends changed w1 = (r, w')"
  | (unencryptable) w1 where "plan_send env cl ps w = (Inr Unencryptable, w1)"
      "flush_loop env cl sends True (put_db cl w1 (fail_send (wd_stores w1 (cl_store cl)) (ps_txn_id ps))) = (r, w')"
  | (lost) ty content err w1 where "plan_send env cl ps w = (Inr (Transmit ty content), w1)"
      "on_net (send_event (ce_server env) (cl_api cl) (ps_room_id ps) ty (ps_txn_id ps) content) w1 = (Inl err, w')"
      "is_transient err" "r = Inr changed"
  | (refused) ty content err w1 w2 where "plan_send env cl ps w = (Inr (Transmit ty content), w1)"
      "on_net (send_event (ce_server env) (cl_api cl) (ps_room_id ps) ty (ps_txn_id ps) content) w1 = (Inl err, w2)"
      "\<not> is_transient err"
      "flush_loop env cl sends True (put_db cl w2 (fail_send (wd_stores w2 (cl_store cl)) (ps_txn_id ps))) = (r, w')"
  | (unstored) ty content eid e w1 where "plan_send env cl ps w = (Inr (Transmit ty content), w1)"
      "on_net (send_event (ce_server env) (cl_api cl) (ps_room_id ps) ty (ps_txn_id ps) content) w1 = (Inr eid, w')"
      "resolve_send (ce_codec env) (wd_stores w' (cl_store cl)) (ps_txn_id ps) eid = Inl e" "r = Inl (core_of_store e)"
  | (acked) ty content eid db w1 w2 where "plan_send env cl ps w = (Inr (Transmit ty content), w1)"
      "on_net (send_event (ce_server env) (cl_api cl) (ps_room_id ps) ty (ps_txn_id ps) content) w1 = (Inr eid, w2)"
      "resolve_send (ce_codec env) (wd_stores w2 (cl_store cl)) (ps_txn_id ps) eid = Inr db"
      "flush_loop env cl sends True (put_db cl w2 db) = (r, w')"
proof -
  obtain plan w1 where plan: "plan_send env cl ps w = (Inr plan, w1)" using plan_send_run by metis
  note run = assms [unfolded flush_loop.simps bnd_eval(2) [of "plan_send env cl ps" w, OF plan]]
  show thesis
  proof (cases plan)
    case Held
    then show thesis using held plan run by simp
  next
    case Unencryptable
    then show thesis
      using unencryptable plan run by (simp add: put_db_def store_update_def store_write_def bnd_def)
  next
    case (Transmit ty content)
    obtain s w2 where sent: "on_net (send_event (ce_server env) (cl_api cl) (ps_room_id ps) ty
        (ps_txn_id ps) content) w1 = (s, w2)" by fastforce
    note run2 = run [unfolded Transmit outgoing.case catch_def sent prod.case]
    show thesis
    proof (cases s)
      case (Inl err)
      then show thesis
        using lost [OF plan [unfolded Transmit], of err] refused [OF plan [unfolded Transmit], of err w2] sent run2
        by (cases "is_transient err") (simp_all add: put_db_def store_update_def store_write_def bnd_def)
    next
      case (Inr eid)
      then show thesis
        using unstored [OF plan [unfolded Transmit], of eid] acked [OF plan [unfolded Transmit], of eid w2] sent run2
        by (cases "resolve_send (ce_codec env) (wd_stores w2 (cl_store cl)) (ps_txn_id ps) eid")
          (simp_all add: put_db_def store_write_def bnd_def)
    qed
  qed
qed

text \<open>A transmitted message: its answer has been handled, the pass goes on from \<open>w3\<close>.\<close>

lemma transmitted_step:
  assumes "plan_send env cl ps w = (Inr (Transmit ty content), w1)"
    and "on_net (send_event (ce_server env) (cl_api cl) (ps_room_id ps) ty (ps_txn_id ps) content) w1 = (answer, w2)"
    and "answer_fate answer \<noteq> Kept"
    and "settle_one (ce_codec env) \<lparr> oc_send = ps, oc_sent = Some (ty, content), oc_fate = answer_fate answer \<rparr>
      (wd_stores w2 (cl_store cl)) = Inr db"
    and "loop_trace env cl (put_db cl w2 db) sends True r w' ocs"
  shows "loop_trace env cl w (ps # sends) changed r w'
    (\<lparr> oc_send = ps, oc_sent = Some (ty, content), oc_fate = answer_fate answer \<rparr> # ocs)"
proof -
  note p = plan_frame [OF assms(1)] and s = send_event_log [OF assms(2)]
  have leaves: "leaves (ce_crypto env) (wd_stores w (cl_store cl)) ps (vt_device (wd_vault w)) (ty, content)
      (vt_device (wd_vault w1))"
    using p(3) by (simp add: planned_def)
  have net: "send_event (ce_server env) (cl_api cl) (ps_room_id ps) ty (ps_txn_id ps) content (wd_net w) = (answer, wd_net w2)"
      "wd_vault w2 = wd_vault w1"
    using assms(2) p(2) by (auto simp: on_net_def split: prod.splits)
  let ?oc = "\<lparr> oc_send = ps, oc_sent = Some (ty, content), oc_fate = answer_fate answer \<rparr>"
  have "loop_trace env cl w (oc_send ?oc # sends) changed r w' (?oc # ocs)"
  proof (rule loop_trace_step [OF assms(5)])
    show "settle_one (ce_codec env) ?oc (wd_stores w (cl_store cl)) = Inr (wd_stores (put_db cl w2 db) (cl_store cl))"
      using assms(4) s p(1) by (simp add: put_db_def)
    show "course env (cl_api cl) (wd_stores w (cl_store cl)) (?oc # ocs) (vt_device (wd_vault w)) (wd_net w) d' n'"
      if "course env (cl_api cl) (wd_stores w (cl_store cl)) ocs (vt_device (wd_vault (put_db cl w2 db)))
        (wd_net (put_db cl w2 db)) d' n'" for d' n'
      using that leaves net assms(3) by (auto simp: put_db_def)
  qed (use p s leaves net assms(3) in \<open>simp_all add: put_db_def settled_def outcome_ok_sent leaves_ratchets\<close>)
  then show ?thesis by simp
qed

text \<open>A message that is not transmitted.\<close>

lemma untransmitted_step:
  assumes "plan_send env cl ps w = (Inr plan, w1)"
    and "plan = Held \<and> fate = Kept \<and> db = wd_stores w1 (cl_store cl) \<or>
      plan = Unencryptable \<and> fate = Refused \<and> db = fail_send (wd_stores w1 (cl_store cl)) (ps_txn_id ps)"
    and "loop_trace env cl (put_db cl w1 db) sends (changed \<or> fate = Refused) r w' ocs"
  shows "loop_trace env cl w (ps # sends) changed r w' (\<lparr> oc_send = ps, oc_sent = None, oc_fate = fate \<rparr> # ocs)"
proof -
  note p = plan_frame [OF assms(1)]
  let ?oc = "\<lparr> oc_send = ps, oc_sent = None, oc_fate = fate \<rparr>"
  have "loop_trace env cl w (oc_send ?oc # sends) changed r w' (?oc # ocs)"
  proof (rule loop_trace_step [OF assms(3)])
    show "settle_one (ce_codec env) ?oc (wd_stores w (cl_store cl)) = Inr (wd_stores (put_db cl w1 db) (cl_store cl))"
      using assms(2) p(1) by (auto simp: put_db_def)
    show "course env (cl_api cl) (wd_stores w (cl_store cl)) (?oc # ocs) (vt_device (wd_vault w)) (wd_net w) d' n'"
      if "course env (cl_api cl) (wd_stores w (cl_store cl)) ocs (vt_device (wd_vault (put_db cl w1 db)))
        (wd_net (put_db cl w1 db)) d' n'" for d' n'
      using that assms(2) p by (auto simp: put_db_def planned_def)
  qed (use p assms(2) in \<open>auto simp: put_db_def settled_def outcome_ok_unsent planned_ratchets\<close>)
  then show ?thesis by simp
qed

text \<open>The connection was lost or the server asked to slow down: the pass ends here.\<close>

lemma stopped_step:
  assumes "plan_send env cl ps w = (Inr (Transmit ty content), w1)"
    and "on_net (send_event (ce_server env) (cl_api cl) (ps_room_id ps) ty (ps_txn_id ps) content) w1 = (answer, w')"
    and "answer_fate answer = Kept"
  shows "loop_trace env cl w (ps # sends) changed (Inr changed) w'
    (\<lparr> oc_send = ps, oc_sent = Some (ty, content), oc_fate = Kept \<rparr> # map unmet sends)"
proof -
  note p = plan_frame [OF assms(1)] and s = send_event_log [OF assms(2)]
  have leaves: "leaves (ce_crypto env) (wd_stores w (cl_store cl)) ps (vt_device (wd_vault w)) (ty, content)
      (vt_device (wd_vault w1))"
    using p(3) by (simp add: planned_def)
  have net: "send_event (ce_server env) (cl_api cl) (ps_room_id ps) ty (ps_txn_id ps) content (wd_net w) = (answer, wd_net w')"
      "wd_vault w' = wd_vault w1"
    using assms(2) p(2) by (auto simp: on_net_def split: prod.splits)
  let ?oc = "\<lparr> oc_send = ps, oc_sent = Some (ty, content), oc_fate = Kept \<rparr>"
  have "course env (cl_api cl) (wd_stores w (cl_store cl)) (?oc # map unmet sends) (vt_device (wd_vault w)) (wd_net w)
      (vt_device (wd_vault w')) (wd_net w')"
    using leaves net assms(3) by auto
  moreover have "outcome_ok (ce_crypto env) (vt_device (wd_vault w)) (wd_stores w (cl_store cl)) ?oc"
    using leaves by (simp add: outcome_ok_sent)
  ultimately show ?thesis
    using p s by (auto simp: loop_trace_def unmet_rest settled_def outcome_ok_unsent comp_def simp del: course.simps)
qed

lemma flush_loop_trace:
  "flush_loop env cl sends changed w = (r, w') \<Longrightarrow> \<exists>ocs. loop_trace env cl w sends changed r w' ocs"
proof (induction sends arbitrary: changed w)
  case Nil
  then have "r = Inr changed" "w' = w" by (simp_all add: ret_def)
  then show ?case by (intro exI [of _ "[]"]) (simp add: loop_trace_def)
next
  case (Cons ps sends)
  from Cons.prems show ?case
  proof (cases rule: flush_loop_ConsE)
    case (held w1)
    moreover have "put_db cl w1 (wd_stores w1 (cl_store cl)) = w1" by (simp add: put_db_def)
    ultimately obtain ocs where "loop_trace env cl (put_db cl w1 (wd_stores w1 (cl_store cl))) sends changed r w' ocs"
      using Cons.IH by metis
    then have "loop_trace env cl w (ps # sends) changed r w' (\<lparr> oc_send = ps, oc_sent = None, oc_fate = Kept \<rparr> # ocs)"
      by (intro untransmitted_step [OF held(1)]) simp_all
    then show ?thesis by blast
  next
    case (unencryptable w1)
    obtain ocs where "loop_trace env cl (put_db cl w1 (fail_send (wd_stores w1 (cl_store cl)) (ps_txn_id ps)))
        sends True r w' ocs" using Cons.IH [OF unencryptable(2)] by blast
    then have "loop_trace env cl w (ps # sends) changed r w' (\<lparr> oc_send = ps, oc_sent = None, oc_fate = Refused \<rparr> # ocs)"
      by (intro untransmitted_step [OF unencryptable(1)]) simp_all
    then show ?thesis by blast
  next
    case (lost ty content err w1)
    then show ?thesis using stopped_step [OF lost(1,2)] by (auto simp: answer_fate_Inl)
  next
    case (refused ty content err w1 w2)
    obtain ocs where "loop_trace env cl (put_db cl w2 (fail_send (wd_stores w2 (cl_store cl)) (ps_txn_id ps)))
        sends True r w' ocs" using Cons.IH [OF refused(4)] by blast
    then have "loop_trace env cl w (ps # sends) changed r w'
        (\<lparr> oc_send = ps, oc_sent = Some (ty, content), oc_fate = answer_fate (Inl err) \<rparr> # ocs)"
      using refused(3) by (intro transmitted_step [OF refused(1,2)]) (simp_all add: answer_fate_Inl)
    then show ?thesis by blast
  next
    case (unstored ty content eid e w1)
    note p = plan_frame [OF unstored(1)]
    have "outcome_ok (ce_crypto env) (vt_device (wd_vault w)) (wd_stores w (cl_store cl))
        \<lparr> oc_send = ps, oc_sent = Some (ty, content), oc_fate = Delivered eid \<rparr>"
      using p(3) by (simp add: planned_def outcome_ok_sent)
    then show ?thesis
      using p send_event_log [OF unstored(2)] unstored(4)
      by (intro exI [of _ "[\<lparr> oc_send = ps, oc_sent = Some (ty, content), oc_fate = Delivered eid \<rparr>]"])
        (auto simp: loop_trace_def)
  next
    case (acked ty content eid db w1 w2)
    obtain ocs where "loop_trace env cl (put_db cl w2 db) sends True r w' ocs" using Cons.IH [OF acked(4)] by blast
    then have "loop_trace env cl w (ps # sends) changed r w'
        (\<lparr> oc_send = ps, oc_sent = Some (ty, content), oc_fate = answer_fate (Inr eid) \<rparr> # ocs)"
      using acked(3) by (intro transmitted_step [OF acked(1,2)]) simp_all
    then show ?thesis by blast
  qed
qed

lemma settle_one_queue:
  assumes "settle_one cx oc db = Inr db'"
  shows "pending_sends_tab db' =
    filter (\<lambda>p. \<not> (settled oc \<and> p_txn_id p = ps_txn_id (oc_send oc))) (pending_sends_tab db)"
proof (cases "oc_fate oc")
  case (Delivered eid)
  then show ?thesis using assms resolve_send_queue [of cx db] by (simp add: settled_def)
next
  case Refused
  then show ?thesis
    using assms by (auto simp: settled_def fail_send_def dequeue_def split: option.splits)
qed (use assms in \<open>simp add: settled_def\<close>)

definition settled_txns :: "outcome list \<Rightarrow> string set" where
  "settled_txns ocs = (\<lambda>oc. ps_txn_id (oc_send oc)) ` {oc \<in> set ocs. settled oc}"

lemma settled_txns_simps [simp]:
  "settled_txns [] = {}"
  "settled_txns (oc # ocs) =
     (if settled oc then insert (ps_txn_id (oc_send oc)) (settled_txns ocs) else settled_txns ocs)"
  by (auto simp: settled_txns_def)

lemma settle_queue:
  "settle cx ocs db = Inr db' \<Longrightarrow>
     pending_sends_tab db' = filter (\<lambda>p. p_txn_id p \<notin> settled_txns ocs) (pending_sends_tab db)"
proof (induction ocs arbitrary: db)
  case (Cons oc ocs)
  then obtain db1 where db1: "settle_one cx oc db = Inr db1" "settle cx ocs db1 = Inr db'"
    by (auto simp: then_ok_Inr_iff simp del: settle_one.simps)
  show ?case
    using Cons.IH [OF db1(2)] settle_one_queue [OF db1(1)] by (auto intro: filter_cong)
qed simp

lemma pending_sends_filter:
  assumes "pending_sends_tab db' = filter (\<lambda>p. P (p_txn_id p)) (pending_sends_tab db)"
  shows "pending_sends db' = filter (\<lambda>ps. P (ps_txn_id ps)) (pending_sends db)"
  using assms by (simp add: pending_sends_def filter_map comp_def send_of_row_def filter_sort)

lemma pending_sends_txns:
  assumes "db_inv cx db"
  shows "distinct (map ps_txn_id (pending_sends db))"
proof -
  have m: "map ps_txn_id (pending_sends db) =
      map p_txn_id (sort_key (\<lambda>p. (p_created_ts p, p_txn_id p)) (pending_sends_tab db))"
    by (simp add: pending_sends_def send_of_row_def comp_def)
  have "distinct (map p_txn_id (pending_sends_tab db))"
    using assms by (simp add: db_inv_def keys_inv_def)
  then show ?thesis unfolding m by (simp add: distinct_map)
qed

lemma unsettled_sends:
  "distinct (map ps_txn_id (map oc_send ocs)) \<Longrightarrow>
     filter (\<lambda>ps. ps_txn_id ps \<notin> settled_txns ocs) (map oc_send ocs) =
     map oc_send (filter (\<lambda>oc. \<not> settled oc) ocs)"
proof -
  assume d: "distinct (map ps_txn_id (map oc_send ocs))"
  have "ps_txn_id (oc_send oc) \<in> settled_txns ocs \<longleftrightarrow> settled oc" if "oc \<in> set ocs" for oc
    using d that by (auto simp: settled_txns_def comp_def distinct_map dest: inj_onD)
  then show ?thesis by (auto simp: filter_map comp_def intro!: arg_cong [where f = "map oc_send"] filter_cong)
qed

section \<open>The contract of a flush\<close>

lemma flush_pending_trace:
  assumes "flush_pending env cl w = (r, w')"
  obtains ocs where "loop_trace env cl w (pending_sends (wd_stores w (cl_store cl))) False r w' ocs"
  using assms flush_loop_trace unfolding flush_pending_def
  by (fastforce simp: bnd_def store_read_def)

text \<open>
  C9: A flush implements the abstract queue.  Every queued message meets a fate, in queue order, and the
  server's answers decide: a message that is transmitted is delivered as the event id the server
  named, kept if the connection was lost or the server asked to slow down (then nothing more is
  transmitted and the rest is kept), and refused otherwise; one that is not transmitted is held for its
  encrypted room or could not be encrypted.  The store is the old one with those fates settled in
  that order, exactly the kept messages are still queued, one request went out per transmitted
  message, and the result says whether any message left the queue.
\<close>

theorem flush_refines_queue:
  assumes "reachable (ce_codec env) (wd_stores w (cl_store cl))" "flush_pending env cl w = (Inr changed, w')"
  shows "\<exists>ocs. map oc_send ocs = pending_sends (wd_stores w (cl_store cl)) \<and>
    course env (cl_api cl) (wd_stores w (cl_store cl)) ocs (vt_device (wd_vault w)) (wd_net w)
      (vt_device (wd_vault w')) (wd_net w') \<and>
    settle (ce_codec env) ocs (wd_stores w (cl_store cl)) = Inr (wd_stores w' (cl_store cl)) \<and>
    pending_sends (wd_stores w' (cl_store cl)) = map oc_send (filter (\<lambda>oc. \<not> settled oc) ocs) \<and>
    net_log (wd_net w') = net_log (wd_net w) @ requests_of (cl_api cl) ocs \<and>
    changed = (\<exists>oc\<in>set ocs. settled oc)"
proof -
  let ?db = "wd_stores w (cl_store cl)"
  obtain ocs where t: "loop_trace env cl w (pending_sends ?db) False (Inr changed) w' ocs"
    using flush_pending_trace [OF assms(2)] .
  then have o: "map oc_send ocs = pending_sends ?db"
    and s: "settle (ce_codec env) ocs ?db = Inr (wd_stores w' (cl_store cl))"
    by (simp_all add: loop_trace_def Let_def)
  have "pending_sends (wd_stores w' (cl_store cl)) =
      filter (\<lambda>ps. ps_txn_id ps \<notin> settled_txns ocs) (pending_sends ?db)"
    by (rule pending_sends_filter) (rule settle_queue [OF s])
  also have "... = map oc_send (filter (\<lambda>oc. \<not> settled oc) ocs)"
    unfolding o [symmetric] using pending_sends_txns [OF reachable_inv [OF assms(1)]]
    by (intro unsettled_sends) (simp only: o)
  finally show ?thesis
    using t o s by (intro exI [of _ ocs]) (simp add: loop_trace_def Let_def)
qed

definition accept_server :: "unit server" where
  "accept_server = reply_server 200 (JObj [(''event_id'', JStr ''$real'')])"

lemma accept_flush: "fst (flush_pending (toy_env accept_server) toy_client (toy_world None db_sent)) = Inr True"
  by code_simp

theorem flush_refines_queue_witness:
  "\<exists>w'. flush_pending (toy_env accept_server) toy_client (toy_world None db_sent) = (Inr True, w') \<and>
     (\<exists>ocs. map oc_send ocs = pending_sends db_sent \<and> (\<exists>oc\<in>set ocs. settled oc) \<and>
        course (toy_env accept_server) (cl_api toy_client) db_sent ocs None (wd_net (toy_world None db_sent))
          (vt_device (wd_vault w')) (wd_net w'))"
proof -
  let ?env = "toy_env accept_server" and ?w = "toy_world None db_sent"
  obtain w' where w': "flush_pending ?env toy_client ?w = (Inr True, w')"
    using accept_flush by (cases "flush_pending ?env toy_client ?w") simp
  have st: "wd_stores ?w (cl_store toy_client) = db_sent" "vt_device (wd_vault ?w) = None"
    by (simp_all add: toy_world_def)
  have "reachable (ce_codec ?env) (wd_stores ?w (cl_store toy_client))"
    using reach_db_sent by (simp add: toy_env_def toy_world_def)
  from flush_refines_queue [OF this w', unfolded st] w' show ?thesis by (intro exI [of _ w']) blast
qed

text \<open>
  C8: No plaintext leaves the device for a room that is marked encrypted: on every outcome, the
  requests of a flush are sends of queued messages, each at most once and in queue order, and a
  message of an encrypted room goes out as what the MLS engine encrypted its body to with that
  room's group, from a state the device reached by encrypting, or not at all.
\<close>

theorem flush_never_leaks:
  assumes "flush_pending env cl w = (r, w')"
  shows "\<exists>sent. net_log (wd_net w') = net_log (wd_net w) @ map (\<lambda>(ps, out). send_request (cl_api cl) ps out) sent \<and>
    subseq (map fst sent) (pending_sends (wd_stores w (cl_store cl))) \<and>
    (\<forall>(ps, ty, content)\<in>set sent. is_room_encrypted (wd_stores w (cl_store cl)) (ps_room_id ps) \<longrightarrow>
       ty = ''p.room.encrypted'' \<and>
       (\<exists>d c d'. (ratchets (ce_crypto env))\<^sup>*\<^sup>* (vt_device (wd_vault w)) d \<and> sealed (ce_crypto env) ps d c d' \<and>
          content = encrypted_event c))"
proof -
  let ?db = "wd_stores w (cl_store cl)" and ?d = "vt_device (wd_vault w)" and ?C = "ce_crypto env"
  let ?pick = "\<lambda>oc. map_option (Pair (oc_send oc)) (oc_sent oc)"
  obtain ocs where t: "loop_trace env cl w (pending_sends ?db) False r w' ocs"
    using flush_pending_trace [OF assms] .
  let ?sent = "List.map_filter ?pick ocs"
  have "requests_of (cl_api cl) ocs = map (\<lambda>(ps, out). send_request (cl_api cl) ps out) ?sent"
    by (induction ocs) (auto simp: List.map_filter_def split: option.splits)
  moreover have "subseq (map fst ?sent) (map oc_send ocs)"
    by (induction ocs) (auto simp: List.map_filter_def split: option.splits)
  moreover have "ty = ''p.room.encrypted'' \<and>
      (\<exists>d c d'. (ratchets ?C)\<^sup>*\<^sup>* ?d d \<and> sealed ?C ps d c d' \<and> content = encrypted_event c)"
    if m: "(ps, ty, content) \<in> set ?sent" and e: "is_room_encrypted ?db (ps_room_id ps)" for ps ty content
  proof -
    obtain oc where "oc \<in> set ocs" "oc_sent oc = Some (ty, content)" "oc_send oc = ps"
      using m by (auto simp: List.map_filter_def)
    then have "may_transmit ?C ?d ?db ps (ty, content)"
      using t by (auto simp: loop_trace_def Let_def outcome_ok_def)
    then show ?thesis using e unfolding may_transmit_def leaves_def by blast
  qed
  moreover obtain rest where "pending_sends ?db = map oc_send ocs @ rest"
    using t by (auto simp: loop_trace_def Let_def)
  ultimately show ?thesis
    using t by (intro exI [of _ ?sent]) (auto simp: loop_trace_def Let_def intro: list_emb_append_mono)
qed

text \<open>The room of the queued message, once marked encrypted.\<close>

definition db_sealed :: "json db" where
  "db_sealed = db_sent\<lparr>room_state := [\<lparr> s_room_id = ''!r'', s_type = ''p.room.encryption'', s_state_key = [],
     s_event_id = ''$n1'', s_depth = 1 \<rparr>]\<rparr>"

lemma sealed_flush_sends: "net_log (wd_net (snd (flush_pending (toy_env accept_server) toy_client
     (toy_world (Some [''!r'']) db_sealed)))) \<noteq> []"
  by code_simp

theorem flush_never_leaks_witness:
  "\<exists>sent. sent \<noteq> [] \<and> net_log (wd_net (snd (flush_pending (toy_env accept_server) toy_client (toy_world (Some [''!r'']) db_sealed)))) =
     map (\<lambda>(ps, out). send_request (cl_api toy_client) ps out) sent \<and>
     (\<forall>(ps, ty, content)\<in>set sent. ps_room_id ps = ''!r'' \<longrightarrow> ty = ''p.room.encrypted'' \<and>
        (\<exists>d c d'. sealed toy_crypto ps d c d' \<and> content = encrypted_event c))"
proof -
  let ?w = "toy_world (Some [''!r'']) db_sealed"
  have "is_room_encrypted (wd_stores ?w (cl_store toy_client)) ''!r''"
    by (simp add: toy_world_def db_sealed_def is_room_encrypted_def)
  moreover have "net_log (wd_net ?w) = []" "ce_crypto (toy_env accept_server) = toy_crypto"
    by (simp_all add: toy_world_def toy_env_def)
  ultimately show ?thesis
    using flush_never_leaks [of "toy_env accept_server" toy_client ?w, OF surjective_pairing] sealed_flush_sends
    by fastforce
qed

section \<open>Online and offline\<close>

text \<open>A server that takes every request and names an event in its reply, and one that cannot be reached.\<close>

definition takes_events :: "'w server \<Rightarrow> bool" where
  "takes_events srv \<longleftrightarrow> (\<forall>rq s. \<exists>rp s' v eid. srv rq s = (Inr rp, s') \<and> is_success (rp_status rp) \<and>
     rp_json rp = Some v \<and> json_string v ''event_id'' = Inr eid)"

definition unreachable :: "'w server \<Rightarrow> bool" where
  "unreachable srv \<longleftrightarrow> (\<forall>rq s. \<exists>e s'. srv rq s = (Inl e, s'))"

lemma send_taken:
  assumes "takes_events srv"
  obtains eid n where "on_net (send_event srv a room ty txn content) w = (Inr eid, w\<lparr>wd_net := n\<rparr>)"
  using assms unfolding takes_events_def send_event_def put_def send_def exchange_def on_net_def bnd_def
  by (smt (verit) Let_def act_eval(1,3) case_prod_conv map_err_simps(2) option.simps(5) sum.case(2))

lemma send_unreached:
  assumes "unreachable srv"
  obtains e n where "on_net (send srv rq) w = (Inl (NetworkErr e), w\<lparr>wd_net := n\<rparr>)"
proof -
  obtain e s where "srv rq (net_remote (wd_net w)) = (Inl e, s)"
    using assms unfolding unreachable_def by blast
  then show thesis using that by (simp add: on_net_def send_def exchange_def bnd_def)
qed

text \<open>Without an engine a message is sent as it is unless its room is encrypted.\<close>

lemma plan_plain:
  assumes "vt_device (wd_vault w) = None" "\<not> is_room_encrypted (wd_stores w (cl_store cl)) (ps_room_id ps)"
  shows "plan_send env cl ps w = (Inr (Transmit ''p.room.message'' (plain_event ps)), w)"
  using assms
  by (simp add: plan_send_def encrypt_for_send_def has_engine_def catch_def bnd_def store_read_def plain_event_def)

definition can_drain :: "'t codec \<Rightarrow> 't db \<Rightarrow> bool" where
  "can_drain cx db \<longleftrightarrow> db_inv cx db \<and> echoes_unreferred db"

lemma can_drain_resolve:
  assumes "can_drain cx db" "codec_laws cx" "resolve_send cx db txn eid = Inr db'"
  shows "can_drain cx db'"
  using assms resolve_send_inv [of cx db txn eid db'] resolve_send_queue [OF assms(3)]
  by (auto simp: can_drain_def echoes_unreferred_def state_refers_def)

lemma drain_loop:
  assumes "codec_laws (ce_codec env)" "takes_events (ce_server env)"
  shows "vt_device (wd_vault w) = None \<Longrightarrow> can_drain (ce_codec env) (wd_stores w (cl_store cl)) \<Longrightarrow>
    \<forall>ps\<in>set sends. \<not> is_room_encrypted (wd_stores w (cl_store cl)) (ps_room_id ps) \<Longrightarrow>
    \<exists>w'. flush_loop env cl sends changed w = (Inr (changed \<or> sends \<noteq> []), w') \<and>
      pending_sends_tab (wd_stores w' (cl_store cl)) =
        filter (\<lambda>p. p_txn_id p \<notin> ps_txn_id ` set sends) (pending_sends_tab (wd_stores w (cl_store cl)))"
proof (induction sends arbitrary: changed w)
  case (Cons ps sends)
  let ?db = "wd_stores w (cl_store cl)"
  have plan: "plan_send env cl ps w = (Inr (Transmit ''p.room.message'' (plain_event ps)), w)"
    using Cons.prems by (intro plan_plain) auto
  obtain eid n where sent: "on_net (send_event (ce_server env) (cl_api cl) (ps_room_id ps)
      ''p.room.message'' (ps_txn_id ps) (plain_event ps)) w = (Inr eid, w\<lparr>wd_net := n\<rparr>)"
    using send_taken [OF assms(2)] .
  obtain db' where db': "resolve_send (ce_codec env) ?db (ps_txn_id ps) eid = Inr db'"
    using resolve_send_total [OF assms(1)] Cons.prems(2) unfolding can_drain_def by blast
  let ?w = "w\<lparr>wd_net := n, wd_stores := (wd_stores w)(cl_store cl := db')\<rparr>"
  have step: "flush_loop env cl (ps # sends) changed w = flush_loop env cl sends True ?w"
    unfolding flush_loop.simps bnd_eval(2) [of "plan_send env cl ps" w, OF plan] outgoing.case
    by (simp add: catch_def sent bnd_def store_write_def db')
  have "is_room_encrypted db' = is_room_encrypted ?db"
    using resolve_send_queue [OF db'] by (simp add: is_room_encrypted_def fun_eq_iff)
  then obtain w' where w': "flush_loop env cl sends True ?w = (Inr (True \<or> sends \<noteq> []), w')"
      "pending_sends_tab (wd_stores w' (cl_store cl)) =
         filter (\<lambda>p. p_txn_id p \<notin> ps_txn_id ` set sends) (pending_sends_tab db')"
    using Cons.IH [of ?w True] Cons.prems can_drain_resolve [OF Cons.prems(2) assms(1) db'] by auto
  then show ?case
    unfolding step using resolve_send_queue [OF db'] by (intro exI [of _ w']) (simp add: conj_commute)
qed (simp add: ret_def)

text \<open>
  C15: A server that accepts drains the queue: if every request gets a 2xx reply with an event id, the
  client has no engine, no queued message is in a room marked encrypted and no current state refers
  to a local echo (the client only queues messages, never state), a flush succeeds and leaves no
  message behind.
\<close>

theorem flush_drains_queue:
  assumes "codec_laws (ce_codec env)" "takes_events (ce_server env)" "vt_device (wd_vault w) = None"
    and "reachable (ce_codec env) (wd_stores w (cl_store cl))" "echoes_unreferred (wd_stores w (cl_store cl))"
    and "\<forall>ps\<in>set (pending_sends (wd_stores w (cl_store cl))).
           \<not> is_room_encrypted (wd_stores w (cl_store cl)) (ps_room_id ps)"
  shows "\<exists>w'. flush_pending env cl w = (Inr (pending_sends (wd_stores w (cl_store cl)) \<noteq> []), w') \<and>
    pending_sends (wd_stores w' (cl_store cl)) = []"
proof -
  let ?db = "wd_stores w (cl_store cl)"
  have d: "can_drain (ce_codec env) ?db"
    using assms(4,5) reachable_inv by (simp add: can_drain_def)
  obtain w' where w': "flush_loop env cl (pending_sends ?db) False w = (Inr (pending_sends ?db \<noteq> []), w')"
      "pending_sends_tab (wd_stores w' (cl_store cl)) =
        filter (\<lambda>p. p_txn_id p \<notin> ps_txn_id ` set (pending_sends ?db)) (pending_sends_tab ?db)"
    using drain_loop [OF assms(1,2,3) d assms(6), of False] by auto
  have "ps_txn_id ` set (pending_sends ?db) = p_txn_id ` set (pending_sends_tab ?db)"
    by (simp add: pending_sends_def send_of_row_def image_image)
  then have "pending_sends_tab (wd_stores w' (cl_store cl)) = []"
    unfolding w'(2) by (simp add: filter_empty_conv)
  then have "pending_sends (wd_stores w' (cl_store cl)) = []" by (simp add: pending_sends_def)
  then show ?thesis using w'(1) by (simp add: flush_pending_def bnd_def store_read_def)
qed

theorem flush_drains_queue_witness:
  "\<exists>w'. flush_pending (toy_env accept_server) toy_client (toy_world None db_sent) = (Inr True, w') \<and>
     pending_sends (wd_stores w' (cl_store toy_client)) = []"
proof -
  let ?env = "toy_env accept_server" and ?w = "toy_world None db_sent"
  have "takes_events accept_server"
    by (auto simp: takes_events_def accept_server_def reply_server_def is_success_def json_string_def jindex_def)
  moreover have "pending_sends db_sent \<noteq> []" by code_simp
  moreover have "\<forall>ps\<in>set (pending_sends db_sent). \<not> is_room_encrypted db_sent (ps_room_id ps)" by code_simp
  ultimately show ?thesis
    using flush_drains_queue [of ?env ?w toy_client] id_codec_laws reach_db_sent unreferred_sent
    by (simp add: toy_env_def toy_world_def)
qed

text \<open>An engine that never fails to load a group, encrypt or save itself.\<close>

definition always_seals :: "('d, 'g, 'k) crypto_env \<Rightarrow> bool" where
  "always_seals C \<longleftrightarrow> (\<forall>ps d d'. \<not> unsealable C ps d d')"

lemma unsealable_engine: "unsealable C ps d d' \<Longrightarrow> d \<noteq> None"
  by (auto simp: unsealable_def)

lemma toy_always_seals: "always_seals toy_crypto"
  by (auto simp: always_seals_def unsealable_def toy_crypto_def toy_mls_def toy_ks_def persist_def ks_put_def
      ks_call_def bnd_def split: prod.splits sum.splits option.splits)

lemma send_event_unreached:
  assumes "unreachable (ce_server env)"
  obtains e n where "on_net (send_event (ce_server env) (cl_api cl) room ty txn content) w = (Inl (NetworkErr e), w\<lparr>wd_net := n\<rparr>)"
proof -
  let ?rq = "(req (cl_api cl) PUT (''/_pigeon/client/v1/rooms/'' @ room @ ''/send/'' @ ty @ ''/'' @ txn))\<lparr>rq_body := JsonBody content\<rparr>"
  obtain e s where "ce_server env ?rq (net_remote (wd_net w)) = (Inl e, s)"
    using assms unfolding unreachable_def by blast
  then show thesis using that by (simp add: on_net_def send_event_def put_def send_def exchange_def bnd_def)
qed

lemma offline_loop:
  assumes "unreachable (ce_server env)"
  shows "vt_device (wd_vault w) = None \<or> always_seals (ce_crypto env) \<Longrightarrow>
    \<exists>w'. flush_loop env cl sends changed w = (Inr changed, w') \<and> wd_stores w' = wd_stores w"
proof (induction sends arbitrary: w)
  case (Cons ps sends)
  obtain plan w1 where w1: "plan_send env cl ps w = (Inr plan, w1)" "wd_stores w1 = wd_stores w"
      "planned (ce_crypto env) (wd_stores w (cl_store cl)) ps (vt_device (wd_vault w)) plan (vt_device (wd_vault w1))"
    using plan_send_run by metis
  note run = flush_loop.simps bnd_eval(2) [of "plan_send env cl ps" w, OF w1(1)]
  show ?case
  proof (cases plan)
    case Held
    then have "vt_device (wd_vault w1) = None \<or> always_seals (ce_crypto env)"
      using Cons.prems w1(3) by (auto simp: planned_def)
    from Cons.IH [OF this] show ?thesis unfolding run by (simp add: Held w1(2))
  next
    case Unencryptable
    then have "unsealable (ce_crypto env) ps (vt_device (wd_vault w)) (vt_device (wd_vault w1))"
      using w1(3) by (simp add: planned_def)
    then have False using Cons.prems by (auto simp: always_seals_def dest: unsealable_engine)
    then show ?thesis ..
  next
    case (Transmit ty content)
    obtain e n where "on_net (send_event (ce_server env) (cl_api cl) (ps_room_id ps) ty (ps_txn_id ps) content) w1 =
        (Inl (NetworkErr e), w1\<lparr>wd_net := n\<rparr>)"
      using send_event_unreached [OF assms] .
    then show ?thesis unfolding run by (simp add: Transmit catch_def is_transient_def w1(2))
  qed
qed simp

text \<open>
  C16: Sending works offline: once the message is in the queue, \<open>send_message\<close> reports success although
  the server cannot be reached, the message stays queued, and the newest entry of the room's timeline is
  its echo, shown as being sent.  This holds for a client without an engine and for one whose engine
  never fails to encrypt and save itself (a message that cannot be encrypted is marked failed instead).
\<close>

theorem send_message_offline:
  assumes "codec_laws (ce_codec env)" "unreachable (ce_server env)"
    and "vt_device (wd_vault w) = None \<or> always_seals (ce_crypto env)"
    and "reachable (ce_codec env) (wd_stores w (cl_store cl))"
    and "queue_message env cl room body w = (Inr txn, w1)" "0 < limit"
  shows "\<exists>w' evs. client_send_message env cl room body w = (Inr (), w') \<and>
    \<lparr> ps_txn_id = txn, ps_room_id = room, ps_body = body \<rparr> \<in> set (pending_sends (wd_stores w' (cl_store cl))) \<and>
    timeline (ce_codec env) (wd_stores w' (cl_store cl)) room limit None = Inr evs \<and> evs \<noteq> [] \<and>
    ev_send_state (last evs) = Sending \<and> ev_sender (last evs) = ss_user_id (cl_session cl) \<and>
    ev_content (last evs) = JObj [(''body'', JStr body), (''msgtype'', JStr ''p.text'')]"
proof -
  let ?t = "ce_clock env (wd_ticks w)" and ?t' = "ce_clock env (Suc (wd_ticks w))"
  obtain db' where q: "queue_send (ce_codec env) (wd_stores w (cl_store cl)) (wd_send_counter w)
      (now_millis ?t) (now_millis ?t') room (ss_user_id (cl_session cl)) body = Inr (db', txn)"
    and w1: "wd_stores w1 = (wd_stores w)(cl_store cl := db')" "wd_vault w1 = wd_vault w"
    using assms(5) by (auto simp: queue_message_def tick_def bnd_def store_write_def split: sum.splits prod.splits)
  have range: "i64_min \<le> now_millis ?t'" "now_millis ?t' \<le> i64_max"
    using sint_ge [of "word_of_int ?t' :: 64 word"] sint_lt [of "word_of_int ?t' :: 64 word"]
    by (auto simp: now_millis_def i64_min_def i64_max_def)
  obtain w' where w': "flush_loop env cl (pending_sends db') False w1 = (Inr False, w')" "wd_stores w' = wd_stores w1"
    using offline_loop [OF assms(2)] w1(2) assms(3) by metis
  have "flush_pending env cl w1 = (Inr False, w')"
    unfolding flush_pending_def using w' w1 by (simp add: bnd_def store_read_def)
  then have run: "client_send_message env cl room body w = (Inr (), w')"
    unfolding client_send_message_def bnd_eval(2) [of "queue_message env cl room body" w, OF assms(5)]
    by (simp add: bnd_def ret_def)
  have db: "wd_stores w' (cl_store cl) = db'" using w' w1 by simp
  have "\<lparr> ps_txn_id = txn, ps_room_id = room, ps_body = body \<rparr> \<in> set (pending_sends db')"
    using q by (auto simp: queue_send_Inr Let_def pending_sends_def send_of_row_def)
  with queue_send_shows [OF assms(1) reachable_inv [OF assms(4)] q range assms(6)] run
  show ?thesis by (intro exI [of _ w']) (auto simp: db)
qed

theorem send_message_offline_witness:
  "\<exists>w' evs. client_send_message (toy_env down_server) toy_client ''!r'' ''hi'' (toy_world (Some [''!r'']) db_name) = (Inr (), w') \<and>
     timeline id_codec (wd_stores w' (cl_store toy_client)) ''!r'' 10 None = Inr evs \<and>
     ev_content (last evs) = JObj [(''body'', JStr ''hi''), (''msgtype'', JStr ''p.text'')]"
proof -
  let ?env = "toy_env down_server" and ?w = "toy_world (Some [''!r'']) db_name"
  have "ok (fst (queue_message ?env toy_client ''!r'' ''hi'' ?w))" by code_simp
  then obtain txn w1 where q: "queue_message ?env toy_client ''!r'' ''hi'' ?w = (Inr txn, w1)"
    by (cases "queue_message ?env toy_client ''!r'' ''hi'' ?w") (auto simp: ok_def split: sum.splits)
  have "unreachable (ce_server ?env)" by (auto simp: unreachable_def toy_env_def down_server_def)
  moreover have "codec_laws (ce_codec ?env)" using id_codec_laws by (simp add: toy_env_def)
  moreover have "reachable (ce_codec ?env) (wd_stores ?w (cl_store toy_client))"
    using reach_db_name by (simp add: toy_env_def toy_world_def)
  moreover have "always_seals (ce_crypto ?env)" using toy_always_seals by (simp add: toy_env_def)
  ultimately show ?thesis
    using send_message_offline [of ?env ?w toy_client, OF _ _ _ _ q, of 10] by (auto simp: toy_env_def)
qed

end
