(* ===== verification/Sync_Spec.thy ===== *)
theory Sync_Spec
  imports Send_Queue
begin

text \<open>
  The sync loop: what one turn does to the store on every outcome, the backoff while the server is
  away, and which failures end the loop.
\<close>

section \<open>Backing off\<close>

lemma reply_send:
  "send (reply_server st body) rq n =
     (if is_success st then Inr body else Inl (parse_error st body), n\<lparr>net_log := net_log n @ [rq]\<rparr>)"
  by (simp add: send_def exchange_def reply_server_def bnd_def)

lemma sync_unreached:
  assumes "unreachable (ce_server env)"
  obtains e n where "on_net (sync (ce_server env) (cl_api cl) since SYNC_TIMEOUT_MS SYNC_LIMIT) w =
    (Inl (NetworkErr e), w\<lparr>wd_net := n\<rparr>)"
  using send_unreached [OF assms] unfolding sync_def by metis

lemma cycle_offline:
  assumes "unreachable (ce_server env)"
  shows "\<exists>w'. sync_cycle env cl b w = (Inr (min (b * 2) BACKOFF_MAX), w') \<and> wd_stores w' = wd_stores w \<and>
    wd_vault w' = wd_vault w \<and> wd_sleeps w' = wd_sleeps w @ [b] \<and> wd_observer w' = wd_observer w @ [OnStatus False]"
proof -
  obtain e n where "on_net (sync (ce_server env) (cl_api cl) (load_sync_token (wd_stores w (cl_store cl)))
      SYNC_TIMEOUT_MS SYNC_LIMIT) w = (Inl (NetworkErr e), w\<lparr>wd_net := n\<rparr>)"
    using sync_unreached [OF assms] .
  then show ?thesis
    by (simp add: sync_cycle_def bnd_def store_read_def catch_def is_transient_def back_off_def log_emit_def
        notify_def sleep_secs_def)
qed

lemma backoff_next: "min (min (2 ^ i) BACKOFF_MAX * 2) BACKOFF_MAX = min (2 ^ Suc i) BACKOFF_MAX"
  by (auto simp: min_def BACKOFF_MAX_def)

lemma cycles_offline:
  assumes "unreachable (ce_server env)"
  shows "\<exists>w'. sync_cycles env cl n (min (2 ^ i) BACKOFF_MAX) w = (Inr (min (2 ^ (i + n)) BACKOFF_MAX), w') \<and>
    wd_stores w' = wd_stores w \<and> wd_vault w' = wd_vault w \<and>
    wd_sleeps w' = wd_sleeps w @ map (\<lambda>j. min (2 ^ j) BACKOFF_MAX) [i..<i + n] \<and>
    wd_observer w' = wd_observer w @ replicate n (OnStatus False)"
proof (induction n arbitrary: i w)
  case (Suc n)
  obtain w1 where w1: "sync_cycle env cl (min (2 ^ i) BACKOFF_MAX) w = (Inr (min (2 ^ Suc i) BACKOFF_MAX), w1)"
      "wd_stores w1 = wd_stores w" "wd_vault w1 = wd_vault w" "wd_sleeps w1 = wd_sleeps w @ [min (2 ^ i) BACKOFF_MAX]"
      "wd_observer w1 = wd_observer w @ [OnStatus False]"
    using cycle_offline [OF assms, of cl "min (2 ^ i) BACKOFF_MAX" w] unfolding backoff_next by blast
  have "[i..<i + Suc n] = i # [Suc i..<Suc i + n]" by (simp add: upt_conv_Cons)
  with Suc [of "Suc i" w1] w1 show ?case
    by (simp add: bnd_eval(2) [of "sync_cycle env cl (min (2 ^ i) BACKOFF_MAX)" w, OF w1(1)] del: upt_Suc)
qed simp

text \<open>
  C28: While the server cannot be reached the loop goes on: it never fails, sleeps 1, 2, 4, 8, 16
  and then always 30 seconds between attempts, tells the observer each time that it is offline, and
  leaves the store and the keys alone.
\<close>

theorem sync_backs_off:
  assumes "unreachable (ce_server env)"
  shows "\<exists>w'. run_sync env cl n w = (Inr (min (2 ^ n) BACKOFF_MAX), w') \<and>
    wd_stores w' = wd_stores w \<and> wd_vault w' = wd_vault w \<and>
    wd_sleeps w' = wd_sleeps w @ map (\<lambda>i. min (2 ^ i) BACKOFF_MAX) [0..<n] \<and>
    wd_observer w' = wd_observer w @ replicate n (OnStatus False)"
  using cycles_offline [OF assms, of cl n 0 w] by (simp add: run_sync_def BACKOFF_START_def BACKOFF_MAX_def)

lemma down_unreachable: "unreachable (ce_server (toy_env down_server))"
  by (auto simp: unreachable_def toy_env_def down_server_def)

theorem sync_backs_off_witness:
  "\<exists>w'. run_sync (toy_env down_server) toy_client 7 (toy_world None db_name) = (Inr 30, w') \<and>
     wd_sleeps w' = [1, 2, 4, 8, 16, 30, 30]"
proof -
  have l: "map (\<lambda>i. min (2 ^ i) BACKOFF_MAX) [0..<7] = [1, 2, 4, 8, 16, 30, 30]" by code_simp
  have s: "wd_sleeps (toy_world None db_name) = []" by (simp add: toy_world_def)
  show ?thesis
    using sync_backs_off [OF down_unreachable, of toy_client 7 "toy_world None db_name"]
    unfolding l s by (auto simp: BACKOFF_MAX_def)
qed

text \<open>
  An error that retrying cannot cure ends the loop at once: the server's refusal (a revoked token,
  say) is the result, with no sleep, no further request, and the store and the keys as they were.
\<close>

theorem fatal_error_ends_sync:
  assumes "on_net (sync (ce_server env) (cl_api cl) (load_sync_token (wd_stores w (cl_store cl)))
      SYNC_TIMEOUT_MS SYNC_LIMIT) w = (Inl err, w1)" "\<not> is_transient err"
  shows "run_sync env cl (Suc n) w = (Inl (core_of_api err), w1) \<and> w1 = w\<lparr>wd_net := wd_net w1\<rparr> \<and>
    length (net_log (wd_net w1)) = Suc (length (net_log (wd_net w)))"
proof -
  have "sync_cycle env cl BACKOFF_START w = (Inl (core_of_api err), w1)"
    using assms by (simp add: sync_cycle_def bnd_def store_read_def catch_def raise_def)
  then have "run_sync env cl (Suc n) w = (Inl (core_of_api err), w1)"
    by (simp add: run_sync_def bnd_eval(1) [of "sync_cycle env cl BACKOFF_START" w])
  moreover have "w1 = w\<lparr>wd_net := wd_net w1\<rparr> \<and> length (net_log (wd_net w1)) = Suc (length (net_log (wd_net w)))"
    using assms(1)
    by (auto simp: on_net_def sync_def send_def exchange_def bnd_def Let_def split: prod.splits sum.splits if_splits)
  ultimately show ?thesis by blast
qed

definition revoked_server :: "unit server" where
  "revoked_server = reply_server 401 (JObj [(''errcode'', JStr ''P_UNKNOWN_TOKEN''), (''error'', JStr ''gone'')])"

theorem fatal_error_ends_sync_witness:
  "fst (run_sync (toy_env revoked_server) toy_client 5 (toy_world None db_name)) = Inl (Api UnknownToken ''gone'')"
proof -
  let ?env = "toy_env revoked_server" and ?w = "toy_world None db_name"
  let ?body = "JObj [(''errcode'', JStr ''P_UNKNOWN_TOKEN''), (''error'', JStr ''gone'')]"
  have e: "parse_error 401 ?body = ServerErr 401 UnknownToken ''gone''" by code_simp
  obtain n where "on_net (sync (ce_server ?env) (cl_api toy_client) (load_sync_token (wd_stores ?w (cl_store toy_client)))
      SYNC_TIMEOUT_MS SYNC_LIMIT) ?w = (Inl (ServerErr 401 UnknownToken ''gone''), ?w\<lparr>wd_net := n\<rparr>)"
    by (simp add: toy_env_def revoked_server_def on_net_def sync_def reply_send e is_success_def)
  from fatal_error_ends_sync [OF this, of 4] show ?thesis
    by (simp add: is_transient_def eval_nat_numeral)
qed

section \<open>After the batch\<close>

lemma resolve_send_keeps_ids:
  assumes "resolve_send cx db txn real = Inr db'" "eid \<in> event_ids db" "eid \<notin> p_event_id ` set (pending_sends_tab db)"
  shows "eid \<in> event_ids db'"
proof (cases "find_row p_txn_id txn (pending_sends_tab db)")
  case None
  then show ?thesis using assms(1,2) by (auto simp: resolve_send_def dequeue_def event_ids_def)
next
  case (Some p)
  then have "eid \<noteq> p_event_id p" using assms(3) find_row_Some_D by fastforce
  moreover have "eid \<in> event_ids (keep_plaintext db real (p_body p))"
    using assms(2) by (simp only: event_ids_list keep_plaintext_ids)
  ultimately show ?thesis
    using assms Some
    by (auto simp: resolve_send_def then_ok_Inr_iff delete_event_def promote_echo_def dequeue_def event_ids_def
        upd_rows_def image_iff split: if_splits option.splits)
qed

text \<open>
  What the steps of a cycle after the batch do to the store: the token stays, nothing joins the queue,
  and only the local echoes of queued messages can leave the log.
\<close>

definition late_moves :: "store_ref \<Rightarrow> ('w, 'd, 'k, 't) world \<Rightarrow> ('w, 'd, 'k, 't) world \<Rightarrow> bool" where
  "late_moves ref w w' \<longleftrightarrow> (let db = wd_stores w ref; db' = wd_stores w' ref
     in sync_token db' = sync_token db \<and> set (pending_sends_tab db') \<subseteq> set (pending_sends_tab db) \<and>
        event_ids db - p_event_id ` set (pending_sends_tab db) \<subseteq> event_ids db')"

lemma late_moves_trans:
  assumes "late_moves ref w w'" "late_moves ref w' w''"
  shows "late_moves ref w w''"
  using assms unfolding late_moves_def Let_def by (elim conjE) (simp, blast)

interpretation late: step_rel "late_moves ref" for ref
proof
  show "late_moves ref w w" for w by (simp add: late_moves_def Let_def)
qed (rule late_moves_trans)

lemma late_stores: "keeps same_stores m \<Longrightarrow> keeps (late_moves ref) m"
  by (auto simp: keeps_def same_stores_def late_moves_def)

lemmas late_rules = late.keeps_bnd late.keeps_catch late.keeps_pure

lemma late_quiet [simp]:
  "keeps (late_moves ref) (on_net m)" "keeps (late_moves ref) (on_vault v)" "keeps (late_moves ref) (log_emit l t s)"
  "keeps (late_moves ref) has_engine" "keeps (late_moves ref) (store_read cl f)" "keeps (late_moves ref) (ret a)"
  by (intro late_stores keeps_stores_basic late.keeps_pure)+

lemma event_ids_upd:
  "(\<And>r. r_event_id (f r) = r_event_id r) \<Longrightarrow> event_ids (db\<lparr>events := upd_rows P f rows\<rparr>) = set (map r_event_id rows)"
  by (induction rows) (auto simp: event_ids_list upd_rows_def)

lemma event_ids_dequeue [simp]: "event_ids (dequeue db txn) = event_ids db"
  by (simp add: event_ids_def)

lemma late_update:
  assumes "\<And>db. sync_token (f db) = sync_token db \<and> event_ids (f db) = event_ids db \<and>
    set (pending_sends_tab (f db)) \<subseteq> set (pending_sends_tab db)"
  shows "keeps (late_moves (cl_store cl)) (store_update cl f)"
  using assms by (auto simp: keeps_def late_moves_def Let_def store_update_def store_write_def)

lemma late_updates [simp]:
  "keeps (late_moves (cl_store cl)) (store_update cl (\<lambda>db. fail_send db txn))"
  "keeps (late_moves (cl_store cl)) (store_update cl (\<lambda>db. set_decrypted db eid plaintext))"
  "keeps (late_moves (cl_store cl)) (store_update cl (\<lambda>db. set_decrypt_failed db eid))"
  "keeps (late_moves (cl_store cl)) (store_update cl (\<lambda>db. set_commit_processed db eid))"
proof -
  have "sync_token (fail_send db txn) = sync_token db" "event_ids (fail_send db txn) = event_ids db"
      "set (pending_sends_tab (fail_send db txn)) \<subseteq> set (pending_sends_tab db)" for db :: "'t db"
    by (cases "find_row p_txn_id txn (pending_sends_tab db)";
        simp add: fail_send_def event_ids_upd event_ids_list [symmetric] del: set_map; auto simp: dequeue_def)+
  then show "keeps (late_moves (cl_store cl)) (store_update cl (\<lambda>db. fail_send db txn))" by (intro late_update) blast
qed (intro late_update; simp add: set_decrypted_def set_decrypt_failed_def set_commit_processed_def upd_event_def
    event_ids_upd event_ids_list [symmetric] del: set_map)+

lemma late_resolve [simp]:
  "keeps (late_moves (cl_store cl)) (store_write cl (\<lambda>db. then_ok (resolve_send cx db txn eid) (\<lambda>db'. Inr (db', ()))))"
  using resolve_send_keeps_ids resolve_send_queue
  by (fastforce simp: keeps_def late_moves_def Let_def store_write_def then_ok_Inr_iff split: sum.splits)

lemma flush_late: "keeps (late_moves (cl_store cl)) (flush_pending env cl)"
proof -
  have "keeps (late_moves (cl_store cl)) (plan_send env cl ps)" for ps
    unfolding plan_send_def encrypt_for_send_def by (auto intro!: late_rules split: sum.splits option.splits)
  then have "keeps (late_moves (cl_store cl)) (flush_loop env cl sends changed)" for sends changed
    by (induction sends arbitrary: changed) (auto intro!: late_rules split: outgoing.splits sum.splits simp del: act_eval)
  then show ?thesis unfolding flush_pending_def by (auto intro!: late_rules)
qed

lemma inbound_late: "keeps (late_moves (cl_store cl)) (process_inbound_mls env cl)"
proof -
  have "keeps (late_moves (cl_store cl)) (inbound_commit env cl c b)" for c b
    unfolding inbound_commit_def by (auto intro!: late_rules split: sum.splits)
  moreover have "keeps (late_moves (cl_store cl)) (inbound_message env cl m b)" for m b
    unfolding inbound_message_def by (auto intro!: late_rules split: sum.splits)
  ultimately have "keeps (late_moves (cl_store cl)) (inbound_loop env cl items changed)" for items changed
  proof (induction items arbitrary: changed)
    case (Cons item items)
    then show ?case by (cases item) (simp_all add: late.keeps_bnd)
  qed simp
  then show ?thesis unfolding process_inbound_mls_def by (auto intro!: late_rules)
qed

section \<open>One batch\<close>

text \<open>The state the loop has saved once the batch is in: its events, then its token.\<close>

definition with_token :: "json \<Rightarrow> 't db \<Rightarrow> 't db" where
  "with_token resp db =
     (case as_str (jindex resp ''next_batch'') of None \<Rightarrow> db | Some t \<Rightarrow> save_sync_token db t)"

lemma moves_steps:
  "keeps (store_moves cx ref) m \<Longrightarrow> m w = (r, w') \<Longrightarrow> (store_step cx)\<^sup>*\<^sup>* (wd_stores w ref) (wd_stores w' ref)"
  by (auto simp: keeps_def store_moves_def)

lemma persist_run:
  "persist_sync_token env cl resp w =
     (Inr (), w\<lparr>wd_stores := (wd_stores w)(cl_store cl := with_token resp (wd_stores w (cl_store cl)))\<rparr>)"
  by (simp add: persist_sync_token_def with_token_def store_update_def store_write_def split: option.split)

lemma to_device_steps_total:
  "never_fails (\<lambda>_. True) (to_device_event env ev j)" "never_fails (\<lambda>_. True) (to_device_loop env evs j)"
proof -
  have emit: "never_fails (\<lambda>_. True) (log_emit l t m)" for l t m
    by (simp add: never_fails_def log_emit_def)
  have join: "never_fails (\<lambda>_. True) (join_welcome env rm wl j)" for rm wl j
    unfolding join_welcome_def by (intro total_rules emit) simp_all
  have event: "never_fails (\<lambda>_. True) (to_device_event env ev j)" for ev j
    unfolding to_device_event_def
    by (auto intro!: total_catch emit join total_pure total_bnd split: option.split sum.split bool.split)
  then show "never_fails (\<lambda>_. True) (to_device_event env ev j)" .
  show "never_fails (\<lambda>_. True) (to_device_loop env evs j)"
    by (induction evs arbitrary: j) (simp_all add: total_bnd event total_pure del: act_eval)
qed

lemma to_device_total: "\<exists>b w'. apply_to_device env resp w = (Inr b, w') \<and> wd_stores w' = wd_stores w"
proof -
  have "never_fails (\<lambda>_. True) has_engine"
    by (simp add: never_fails_def has_engine_def)
  then have "never_fails (\<lambda>_. True) (apply_to_device env resp)"
    unfolding apply_to_device_def
    by (auto intro!: total_bnd to_device_steps_total total_pure split: option.split)
  then show ?thesis
    using to_device_quiet [of env resp] unfolding never_fails_def keeps_def same_stores_def by metis
qed

lemma batch_run:
  assumes "apply_events (ce_codec env) (wd_stores w (cl_store cl)) (joined_events resp) = Inr (db1, n)"
  obtains joined w1 where
    "apply_to_device env resp (w\<lparr>wd_stores := (wd_stores w)(cl_store cl := db1)\<rparr>) = (Inr joined, w1)"
    "wd_stores w1 = (wd_stores w)(cl_store cl := db1)"
    "handle_batch env cl resp w =
       bnd (process_inbound_mls env cl) (\<lambda>mls_changed.
       bnd (flush_pending env cl) (\<lambda>flushed.
       bnd (notify (OnStatus True)) (\<lambda>_.
       bnd (if n > 0 \<or> joined \<or> mls_changed \<or> flushed then notify OnChange else ret ()) (\<lambda>_.
       ret BACKOFF_START)))) (w1\<lparr>wd_stores := (wd_stores w)(cl_store cl := with_token resp db1)\<rparr>)"
proof -
  let ?w = "w\<lparr>wd_stores := (wd_stores w)(cl_store cl := db1)\<rparr>"
  obtain joined w1 where w1: "apply_to_device env resp ?w = (Inr joined, w1)" "wd_stores w1 = wd_stores ?w"
    using to_device_total by blast
  have a: "apply_sync env cl resp w = (Inr (n > 0), ?w)"
    using assms by (simp add: apply_sync_def bnd_def store_write_def)
  show thesis
    using that [OF w1(1)] w1(2)
    unfolding handle_batch_def bnd_eval(2) [of "apply_sync env cl resp" w, OF a]
      bnd_eval(2) [of "apply_to_device env resp" ?w, OF w1(1)]
      bnd_eval(2) [of "persist_sync_token env cl resp" w1, OF persist_run]
    by simp
qed

lemma applied_ids:
  assumes "apply_events cx db evs = Inr (db1, n)" "v \<in> set evs" "from_wire v = Inr ev"
  shows "ev_event_id ev \<in> event_ids db1"
proof -
  obtain parsed where p: "collect_res from_wire evs = Inr parsed" "db1 = foldl (apply_one cx) db parsed"
    using assms(1) by (auto simp: apply_events_Inr)
  then have "ev \<in> set parsed"
    using assms(2,3) by (auto simp: collect_res_Inr_iff list_all2_conv_all_nth in_set_conv_nth)
  then show ?thesis by (auto simp: event_ids_def p(2) events_foldl log_add_ids)
qed

lemma applied_frame: "apply_events cx db evs = Inr (db1, n) \<Longrightarrow>
    sync_token db1 = sync_token db \<and> pending_sends_tab db1 = pending_sends_tab db"
  by (auto simp: apply_events_Inr foldl_apply_frame)

lemma with_token_frame [simp]:
  "pending_sends_tab (with_token resp db) = pending_sends_tab db" "event_ids (with_token resp db) = event_ids db"
  "sync_token (with_token resp db) =
     (case as_str (jindex resp ''next_batch'') of None \<Rightarrow> sync_token db | Some t \<Rightarrow> Some t)"
  by (simp_all add: with_token_def save_sync_token_def event_ids_def split: option.split)

lemma late_steps: "keeps (late_moves ref) m \<Longrightarrow> m w = (r, w') \<Longrightarrow> late_moves ref w w'"
  by (auto simp: keeps_def)

text \<open>
  C12: A sync token is saved only together with the events it stands for.  If the batch's events can be
  applied, then at the end of the cycle, even when a later step of it failed, the saved token is the
  batch's \<open>next_batch\<close> (the old token if the reply names none) and every event of the batch is in the
  log, unless it came under the id of a local echo in the queue; the store went through the state
  with exactly these events and the new token, and from there only by its own operations.  If the
  events cannot be applied, the cycle fails with the store and the token as they were, so the next
  request asks for the same batch.
\<close>

theorem token_follows_events:
  assumes "on_net (sync (ce_server env) (cl_api cl) (load_sync_token (wd_stores w (cl_store cl)))
      SYNC_TIMEOUT_MS SYNC_LIMIT) w = (Inr resp, w1)"
    and "sync_cycle env cl backoff w = (r, w')"
  shows "case apply_events (ce_codec env) (wd_stores w (cl_store cl)) (joined_events resp) of
      Inl e \<Rightarrow> r = Inl (core_of_store e) \<and> wd_stores w' = wd_stores w
    | Inr (db1, n) \<Rightarrow>
        sync_token (wd_stores w' (cl_store cl)) =
          (case as_str (jindex resp ''next_batch'') of None \<Rightarrow> sync_token (wd_stores w (cl_store cl)) | Some t \<Rightarrow> Some t) \<and>
        (\<forall>v\<in>set (joined_events resp). \<forall>ev. from_wire v = Inr ev \<longrightarrow>
           ev_event_id ev \<notin> p_event_id ` set (pending_sends_tab (wd_stores w (cl_store cl))) \<longrightarrow>
           has_event (wd_stores w' (cl_store cl)) (ev_event_id ev)) \<and>
        (store_step (ce_codec env))\<^sup>*\<^sup>* (with_token resp db1) (wd_stores w' (cl_store cl))"
proof -
  let ?db = "wd_stores w (cl_store cl)"
  have run: "handle_batch env cl resp w1 = (r, w')"
    using assms by (simp add: sync_cycle_def bnd_def store_read_def catch_def)
  have s: "wd_stores w1 = wd_stores w" using assms(1) by (auto simp: on_net_def split: prod.splits)
  show ?thesis
  proof (cases "apply_events (ce_codec env) ?db (joined_events resp)")
    case (Inl e)
    then have "handle_batch env cl resp w1 = (Inl (core_of_store e), w1)"
      by (simp add: handle_batch_def apply_sync_def bnd_def store_write_def s)
    then show ?thesis using run s Inl by simp
  next
    case (Inr p)
    obtain db1 n where p: "p = (db1, n)" by fastforce
    let ?rest = "\<lambda>joined. bnd (process_inbound_mls env cl) (\<lambda>mls_changed.
       bnd (flush_pending env cl) (\<lambda>flushed.
       bnd (notify (OnStatus True)) (\<lambda>_.
       bnd (if n > 0 \<or> joined \<or> mls_changed \<or> flushed then notify OnChange else ret ()) (\<lambda>_.
       ret BACKOFF_START))))"
    obtain joined w2 where w2: "wd_stores w2 = (wd_stores w1)(cl_store cl := db1)"
        "handle_batch env cl resp w1 =
           ?rest joined (w2\<lparr>wd_stores := (wd_stores w1)(cl_store cl := with_token resp db1)\<rparr>)"
      using batch_run [of env w1 cl resp db1 n] Inr p s by metis
    have "keeps (store_moves (ce_codec env) (cl_store cl)) (notify c)" for c
      by (simp add: notify_def keeps_def store_moves_def)
    then have "keeps (store_moves (ce_codec env) (cl_store cl)) (?rest joined)"
      by (auto intro!: moves_rules inbound_moves flush_moves)
    note steps = moves_steps [OF this w2(2) [symmetric, unfolded run]]
    have "keeps (late_moves (cl_store cl)) (notify c)" for c by (simp add: notify_def keeps_def late_moves_def)
    then have "keeps (late_moves (cl_store cl)) (?rest joined)"
      by (auto intro!: late_rules inbound_late flush_late)
    note late = late_steps [OF this w2(2) [symmetric, unfolded run]]
    have a: "apply_events (ce_codec env) ?db (joined_events resp) = Inr (db1, n)" using Inr p by simp
    have "has_event (wd_stores w' (cl_store cl)) (ev_event_id ev)"
      if "v \<in> set (joined_events resp)" "from_wire v = Inr ev" "ev_event_id ev \<notin> p_event_id ` set (pending_sends_tab ?db)" for v ev
      using late applied_ids [OF a that(1,2)] applied_frame [OF a] that(3) by (auto simp: late_moves_def Let_def has_event_iff)
    then show ?thesis
      using steps late applied_frame [OF a] by (simp add: a late_moves_def Let_def split: option.split)
  qed
qed

lemma sample_reply:
  assumes "wd_stores w (cl_store toy_client) = db"
  obtains n where "on_net (sync (ce_server (toy_env (reply_server 200 resp))) (cl_api toy_client)
      (load_sync_token (wd_stores w (cl_store toy_client))) SYNC_TIMEOUT_MS SYNC_LIMIT) w = (Inr resp, w\<lparr>wd_net := n\<rparr>)"
  by (simp add: toy_env_def on_net_def sync_def reply_send is_success_def)

theorem token_follows_events_witness:
  "\<exists>db1 n w'. apply_events id_codec db_name (joined_events sample_sync) = Inr (db1, n) \<and>
     snd (sync_cycle (toy_env (reply_server 200 sample_sync)) toy_client 1 (toy_world None db_name)) = w' \<and>
     sync_token (wd_stores w' (cl_store toy_client)) = Some ''s2'' \<and>
     (store_step id_codec)\<^sup>*\<^sup>* (save_sync_token db1 ''s2'') (wd_stores w' (cl_store toy_client))"
proof -
  let ?env = "toy_env (reply_server 200 sample_sync)" and ?w = "toy_world None db_name"
  have s: "wd_stores ?w (cl_store toy_client) = db_name" "ce_codec ?env = id_codec"
    by (simp_all add: toy_world_def toy_env_def)
  obtain n where call: "on_net (sync (ce_server ?env) (cl_api toy_client) (load_sync_token (wd_stores ?w (cl_store toy_client)))
      SYNC_TIMEOUT_MS SYNC_LIMIT) ?w = (Inr sample_sync, ?w\<lparr>wd_net := n\<rparr>)"
    using sample_reply [OF s(1)] .
  have "ok (apply_events id_codec db_name (joined_events sample_sync))" by code_simp
  then obtain db1 k where a: "apply_events id_codec db_name (joined_events sample_sync) = Inr (db1, k)"
    by (cases "apply_events id_codec db_name (joined_events sample_sync)") (auto simp: ok_def)
  have t: "with_token sample_sync db1 = save_sync_token db1 ''s2''"
    by (simp add: with_token_def sample_sync_def jindex_def)
  have n: "as_str (jindex sample_sync ''next_batch'') = Some ''s2''" by (simp add: sample_sync_def jindex_def)
  show ?thesis
    using token_follows_events [OF call surjective_pairing, of 1] a by (auto simp add: s t n)
qed

section \<open>Welcomes\<close>

text \<open>A to-device event that calls for no join: another type, no Welcome in it, or a group already held.\<close>

definition welcome_settled :: "('d, 'g, 'k) crypto_env \<Rightarrow> 'd \<Rightarrow> json \<Rightarrow> bool" where
  "welcome_settled env d ev \<longleftrightarrow>
     jindex ev ''type'' \<noteq> JStr ''p.mls.welcome'' \<or>
     as_str (jindex (jindex ev ''content'') ''welcome'') = None \<or>
     (\<exists>rm g. as_str (jindex (jindex ev ''content'') ''room_id'') = Some rm \<and>
        m_load_group (env_mls env) (str_bytes rm) d = Inr (Some g))"

lemma welcome_settled_step:
  assumes "vt_device (wd_vault w) = Some d" "welcome_settled (ce_crypto env) d ev"
  shows "to_device_event env ev joined w = (Inr joined, w)"
proof (cases "jindex ev ''type'' \<noteq> JStr ''p.mls.welcome'' \<or> as_str (jindex (jindex ev ''content'') ''welcome'') = None")
  case False
  then obtain rm g wl where "as_str (jindex (jindex ev ''content'') ''room_id'') = Some rm"
      "m_load_group (env_mls (ce_crypto env)) (str_bytes rm) d = Inr (Some g)"
      "as_str (jindex (jindex ev ''content'') ''welcome'') = Some wl"
    using assms(2) by (fastforce simp: welcome_settled_def)
  then show ?thesis
    using False assms(1)
    by (simp add: to_device_event_def catch_def on_vault_def has_group_def the_device_def bnd_def)
qed (auto simp: to_device_event_def)

text \<open>
  Redelivered Welcomes do nothing: a batch whose Welcomes are all for groups the device holds
  changes neither the device nor anything else, and does not count as a change.
\<close>

theorem redelivered_welcomes_ignored:
  assumes "vt_device (wd_vault w) = Some d"
    and "\<forall>ev\<in>set (case as_array (jindex (jindex resp ''to_device'') ''events'') of None \<Rightarrow> [] | Some evs \<Rightarrow> evs).
           welcome_settled (ce_crypto env) d ev"
  shows "apply_to_device env resp w = (Inr False, w)"
proof -
  have loop: "\<forall>ev\<in>set evs. welcome_settled (ce_crypto env) d ev \<Longrightarrow> to_device_loop env evs joined w = (Inr joined, w)"
    for evs joined
  proof (induction evs)
    case (Cons ev evs)
    then show ?case
      by (simp add: bnd_eval(2) [of "to_device_event env ev joined" w, OF welcome_settled_step [OF assms(1)]])
  qed simp
  show ?thesis
    using assms loop
    by (simp add: apply_to_device_def bnd_def has_engine_def split: option.splits)
qed

definition welcome_sync :: json where
  "welcome_sync = JObj [(''to_device'', JObj [(''events'', JArr [JObj [(''type'', JStr ''p.mls.welcome''),
     (''content'', JObj [(''welcome'', JStr ''!r''), (''room_id'', JStr ''!r'')])]])])]"

theorem redelivered_welcomes_ignored_witness:
  "apply_to_device (toy_env down_server) welcome_sync (toy_world (Some [''!r'']) db_name) =
     (Inr False, toy_world (Some [''!r'']) db_name)"
proof (rule redelivered_welcomes_ignored [of _ "[''!r'']"])
  show "vt_device (wd_vault (toy_world (Some [''!r'']) db_name)) = Some [''!r'']" by (simp add: toy_world_def)
  have "bytes_str (str_bytes ''!r'') = ''!r''" by code_simp
  then show "\<forall>ev\<in>set (case as_array (jindex (jindex welcome_sync ''to_device'') ''events'') of None \<Rightarrow> [] | Some evs \<Rightarrow> evs).
           welcome_settled (ce_crypto (toy_env down_server)) [''!r''] ev"
    by (simp add: welcome_sync_def jindex_def welcome_settled_def toy_env_def toy_crypto_def toy_mls_def)
qed

definition empty_sync :: json where
  "empty_sync = JObj [(''next_batch'', JStr ''s3'')]"

section \<open>Telling the host of changes\<close>

lemma bnd_InrE:
  assumes "bnd m f s = (Inr b, s'')"
  obtains a s' where "m s = (Inr a, s')" "f a s' = (Inr b, s'')"
  using assms unfolding bnd_Inr_iff by blast

text \<open>
  \<open>faithful c m\<close>: a step that continues the flag \<open>c\<close> returns true, or it returns \<open>c\<close> = false and has
  changed no store.
\<close>

definition faithful :: "bool \<Rightarrow> (('w, 'd, 'k, 't) world, core_error, bool) act \<Rightarrow> bool" where
  "faithful c m \<longleftrightarrow> (\<forall>w b w'. m w = (Inr b, w') \<longrightarrow> b \<or> \<not> c \<and> wd_stores w' = wd_stores w)"

definition ends_true :: "(('w, 'd, 'k, 't) world, core_error, bool) act \<Rightarrow> bool" where
  "ends_true m \<longleftrightarrow> (\<forall>w b w'. m w = (Inr b, w') \<longrightarrow> b)"

lemma ends_true_rules:
  "ends_true (ret True)" "(\<And>a. ends_true (f a)) \<Longrightarrow> ends_true (bnd m f)"
  "(\<And>r. ends_true (g r)) \<Longrightarrow> ends_true (catch n g)"
  "(\<And>e. ends_true (h e)) \<Longrightarrow> (\<And>x. ends_true (k x)) \<Longrightarrow> ends_true (case r of Inl e \<Rightarrow> h e | Inr x \<Rightarrow> k x)"
proof -
  show "ends_true (ret True)" by (simp add: ends_true_def)
  show "(\<And>a. ends_true (f a)) \<Longrightarrow> ends_true (bnd m f)"
    unfolding ends_true_def bnd_Inr_iff by blast
  show "(\<And>r. ends_true (g r)) \<Longrightarrow> ends_true (catch n g)"
    unfolding ends_true_def catch_def by (auto split: prod.splits)
  show "(\<And>e. ends_true (h e)) \<Longrightarrow> (\<And>x. ends_true (k x)) \<Longrightarrow> ends_true (case r of Inl e \<Rightarrow> h e | Inr x \<Rightarrow> k x)"
    by (cases r) simp_all
qed

lemma faithful_rules:
  "faithful c (ret c)" "ends_true m \<Longrightarrow> faithful c m"
  "keeps same_stores n \<Longrightarrow> (\<And>a. faithful c (f a)) \<Longrightarrow> faithful c (bnd n f)"
  "faithful c p \<Longrightarrow> faithful c q \<Longrightarrow> faithful c (if d then p else q)"
proof -
  show "faithful c (ret c)" by (simp add: faithful_def)
  show "ends_true m \<Longrightarrow> faithful c m" by (auto simp: faithful_def ends_true_def)
  show "keeps same_stores n \<Longrightarrow> (\<And>a. faithful c (f a)) \<Longrightarrow> faithful c (bnd n f)"
    unfolding faithful_def bnd_Inr_iff keeps_def same_stores_def by metis
  show "faithful c p \<Longrightarrow> faithful c q \<Longrightarrow> faithful c (if d then p else q)" by simp
qed

lemma faithful_commit: "faithful c (inbound_commit env cl x c)"
  unfolding inbound_commit_def
  by (rule faithful_rules(3), simp, rule faithful_rules(4), rule faithful_rules(1),
      rule faithful_rules(2), intro ends_true_rules)

lemma faithful_message: "faithful c (inbound_message env cl x c)"
  unfolding inbound_message_def
  by (rule faithful_rules(3), simp, rule faithful_rules(4), rule faithful_rules(1),
      rule faithful_rules(3), simp add: stores.keeps_pure, rule faithful_rules(4), rule faithful_rules(1),
      rule faithful_rules(2), intro ends_true_rules)

lemma faithful_loop: "faithful c (inbound_loop env cl items c)"
proof (induction items arbitrary: c)
  case (Cons item items)
  have step: "faithful c (bnd f (inbound_loop env cl items))" if "faithful c f" for f
    using that Cons.IH unfolding faithful_def bnd_Inr_iff by metis
  show ?case by (cases item) (simp_all add: step faithful_commit faithful_message)
qed (simp add: faithful_def)

lemma faithful_inbound: "faithful False (process_inbound_mls env cl)"
  unfolding process_inbound_mls_def
  by (rule faithful_rules(3), simp, rule faithful_rules(4), rule faithful_rules(1),
      rule faithful_rules(3), simp, rule faithful_loop)

lemma settle_kept: "\<forall>oc\<in>set ocs. \<not> settled oc \<Longrightarrow> settle cx ocs db = Inr db"
  by (induction ocs) (simp_all add: settled_def)

lemma faithful_flush: "faithful False (flush_pending env cl)"
proof -
  have "wd_stores w' = wd_stores w" if run: "flush_pending env cl w = (Inr False, w')" for w w'
  proof -
    obtain ocs where "loop_trace env cl w (pending_sends (wd_stores w (cl_store cl))) False (Inr False) w' ocs"
      using flush_pending_trace [OF run] .
    then have "wd_stores w' (cl_store cl) = wd_stores w (cl_store cl)"
      using settle_kept [of ocs "ce_codec env"] by (auto simp: loop_trace_def Let_def)
    moreover have "\<forall>other. other \<noteq> cl_store cl \<longrightarrow> wd_stores w' other = wd_stores w other"
      using flush_moves [of env cl] run by (simp add: keeps_def store_moves_def)
    ultimately show ?thesis by (metis ext)
  qed
  then show ?thesis by (simp add: faithful_def) (metis (full_types))
qed

lemma apply_nothing_new:
  assumes "apply_events cx db evs = Inr (db', 0)"
  shows "events db' = events db \<and> pending_sends_tab db' = pending_sends_tab db"
proof -
  obtain parsed where p: "db' = foldl (apply_one cx) db parsed" "length (events db') \<le> length (events db)"
    using assms apply_events_Inr [of cx db evs db' 0] by auto
  have e: "events db' = log_add cx (events db) parsed" by (simp add: p(1) events_foldl)
  obtain new where "log_add cx (events db) parsed = events db @ new" using log_add_prefix by blast
  then show ?thesis using e p(2) by (simp add: p(1) foldl_apply_frame)
qed

text \<open>
  C27: No change goes unnoticed: a sync cycle that succeeds without calling the host's \<open>on_change\<close> has left the
  event log and the send queue exactly as they were.
\<close>

theorem silent_cycle_changes_nothing:
  assumes "on_net (sync (ce_server env) (cl_api cl) (load_sync_token (wd_stores w (cl_store cl)))
      SYNC_TIMEOUT_MS SYNC_LIMIT) w = (Inr resp, w1)"
    and "sync_cycle env cl backoff w = (Inr b, w')" "last (wd_observer w') \<noteq> OnChange"
  shows "events (wd_stores w' (cl_store cl)) = events (wd_stores w (cl_store cl)) \<and>
    pending_sends_tab (wd_stores w' (cl_store cl)) = pending_sends_tab (wd_stores w (cl_store cl))"
proof -
  let ?db = "wd_stores w (cl_store cl)"
  have run: "handle_batch env cl resp w1 = (Inr b, w')"
    using assms by (simp add: sync_cycle_def bnd_def store_read_def catch_def)
  have s: "wd_stores w1 = wd_stores w" using assms(1) by (auto simp: on_net_def split: prod.splits)
  obtain db1 n where a: "apply_events (ce_codec env) ?db (joined_events resp) = Inr (db1, n)"
    using run s by (cases "apply_events (ce_codec env) ?db (joined_events resp)")
      (auto simp: handle_batch_def apply_sync_def bnd_def store_write_def)
  obtain joined w2 where "handle_batch env cl resp w1 =
       bnd (process_inbound_mls env cl) (\<lambda>mls_changed.
       bnd (flush_pending env cl) (\<lambda>flushed.
       bnd (notify (OnStatus True)) (\<lambda>_.
       bnd (if n > 0 \<or> joined \<or> mls_changed \<or> flushed then notify OnChange else ret ()) (\<lambda>_.
       ret BACKOFF_START)))) (w2\<lparr>wd_stores := (wd_stores w1)(cl_store cl := with_token resp db1)\<rparr>)"
    using batch_run [of env w1 cl resp db1 n] a s by metis
  with run have "bnd (process_inbound_mls env cl) (\<lambda>mls_changed.
       bnd (flush_pending env cl) (\<lambda>flushed.
       bnd (notify (OnStatus True)) (\<lambda>_.
       bnd (if n > 0 \<or> joined \<or> mls_changed \<or> flushed then notify OnChange else ret ()) (\<lambda>_.
       ret BACKOFF_START)))) (w2\<lparr>wd_stores := (wd_stores w1)(cl_store cl := with_token resp db1)\<rparr>) = (Inr b, w')"
    by simp
  then obtain mls_changed w3 flushed w4 where steps:
      "process_inbound_mls env cl (w2\<lparr>wd_stores := (wd_stores w1)(cl_store cl := with_token resp db1)\<rparr>) = (Inr mls_changed, w3)"
      "flush_pending env cl w3 = (Inr flushed, w4)"
      "bnd (notify (OnStatus True)) (\<lambda>_.
       bnd (if n > 0 \<or> joined \<or> mls_changed \<or> flushed then notify OnChange else ret ()) (\<lambda>_.
       ret BACKOFF_START)) w4 = (Inr b, w')"
    by - (erule bnd_InrE, erule bnd_InrE, blast)
  have quiet: "n = 0" "\<not> mls_changed" "\<not> flushed" "wd_stores w' = wd_stores w4"
    using steps(3) assms(3) by (auto simp: notify_def split: if_splits)
  have "wd_stores w' (cl_store cl) = with_token resp db1"
    using quiet steps(1,2) faithful_inbound faithful_flush unfolding faithful_def by fastforce
  then show ?thesis
    using apply_nothing_new a quiet(1) by (auto simp: with_token_def save_sync_token_def split: option.split)
qed

lemma silent_batch:
  assumes "wd_stores w (cl_store toy_client) = db_name" "vt_device (wd_vault w) = None" "wd_observer w = []"
  shows "\<exists>w'. handle_batch (toy_env (reply_server 200 empty_sync)) toy_client empty_sync w = (Inr 1, w') \<and>
    wd_observer w' = [OnStatus True]"
proof -
  have "joined_events empty_sync = []" "as_array (jindex (jindex empty_sync ''to_device'') ''events'') = None"
      "as_str (jindex empty_sync ''next_batch'') = Some ''s3''"
    by (simp_all add: joined_events_def empty_sync_def jindex_def)
  moreover have "pending_sends (save_sync_token db_name ''s3'') = []"
    by (simp add: pending_sends_def save_sync_token_def db_name_frame)
  ultimately show ?thesis
    using assms
    by (simp add: handle_batch_def apply_sync_def bnd_def store_write_def apply_events_def apply_to_device_def
        persist_sync_token_def store_update_def process_inbound_mls_def has_engine_def flush_pending_def
        store_read_def notify_def BACKOFF_START_def)
qed

theorem silent_cycle_changes_nothing_witness:
  "events (wd_stores (snd (sync_cycle (toy_env (reply_server 200 empty_sync)) toy_client 1
     (toy_world None db_name))) (cl_store toy_client)) = events db_name"
proof -
  let ?env = "toy_env (reply_server 200 empty_sync)" and ?w = "toy_world None db_name"
  have s: "wd_stores ?w (cl_store toy_client) = db_name" by (simp add: toy_world_def)
  obtain n where call: "on_net (sync (ce_server ?env) (cl_api toy_client) (load_sync_token (wd_stores ?w (cl_store toy_client)))
      SYNC_TIMEOUT_MS SYNC_LIMIT) ?w = (Inr empty_sync, ?w\<lparr>wd_net := n\<rparr>)"
    using sample_reply [OF s] .
  obtain w' where w': "handle_batch ?env toy_client empty_sync (?w\<lparr>wd_net := n\<rparr>) = (Inr 1, w')" "wd_observer w' = [OnStatus True]"
    using silent_batch [of "?w\<lparr>wd_net := n\<rparr>"] by (auto simp: toy_world_def)
  have run: "sync_cycle ?env toy_client 1 ?w = (Inr 1, w')"
    using call w'(1) by (simp add: sync_cycle_def bnd_def store_read_def catch_def)
  from silent_cycle_changes_nothing [OF call run] w'(2) show ?thesis
    unfolding run snd_conv by (simp add: s)
qed

section \<open>A poisoned event\<close>

text \<open>The store holds an event waiting for MLS whose ciphertext or commit is a number or a Boolean.\<close>

definition poisoned :: "'t codec \<Rightarrow> 't db \<Rightarrow> bool" where
  "poisoned cx db \<longleftrightarrow> (\<exists>r\<in>set (events db). awaits_mls r \<and> \<not> mls_readable cx r)"

lemma join_keeps_engine [simp]: "keeps engine_kept (join_from_welcome env wl)" "keeps engine_kept (has_group env room)"
proof -
  show "keeps engine_kept (join_from_welcome env wl)"
    unfolding join_from_welcome_def by (auto intro!: engine_rules)
  show "keeps engine_kept (has_group env room)"
    unfolding has_group_def by (auto intro!: engine_rules)
qed

text \<open>Frames of the world's steps for the engine.\<close>

definition engine_stays :: "('w, 'd, 'k, 't) world \<Rightarrow> ('w, 'd, 'k, 't) world \<Rightarrow> bool" where
  "engine_stays w w' \<longleftrightarrow> (with_engine w \<longrightarrow> with_engine w')"

interpretation wengine: step_rel engine_stays
  by unfold_locales (simp_all add: engine_stays_def)

lemma wengine_basic [simp]:
  "keeps engine_stays (log_emit l t s)" "keeps engine_stays has_engine"
  "keeps engine_kept m \<Longrightarrow> keeps engine_stays (on_vault m)"
  by (auto simp: keeps_def engine_stays_def engine_kept_def with_engine_def log_emit_def has_engine_def
      on_vault_def split: prod.splits)

lemma to_device_engine: "keeps engine_stays (apply_to_device env resp)"
proof -
  have join: "keeps engine_stays (join_welcome env rm wl j)" for rm wl j
    unfolding join_welcome_def
    by (auto intro!: wengine.keeps_catch wengine.keeps_bnd wengine.keeps_pure split: sum.splits)
  have event: "keeps engine_stays (to_device_event env ev j)" for ev j
    unfolding to_device_event_def
    by (auto intro!: wengine.keeps_catch wengine.keeps_bnd wengine.keeps_pure join
        split: sum.splits option.splits bool.splits)
  have loop: "keeps engine_stays (to_device_loop env evs j)" for evs j
  proof (induction evs arbitrary: j)
    case Nil
    show ?case unfolding to_device_loop.simps by (rule wengine.keeps_pure)
  next
    case (Cons ev evs)
    then show ?case by (simp add: wengine.keeps_bnd event)
  qed
  show ?thesis
    unfolding apply_to_device_def
    by (auto intro!: wengine.keeps_bnd wengine.keeps_pure loop split: option.splits)
qed

lemma poisoned_batch:
  assumes "reachable cx db" "poisoned cx db" "apply_events cx db evs = Inr (db1, n)" "\<And>v. v \<in> set evs \<Longrightarrow> storable v"
  shows "reachable cx (with_token resp db1)" "poisoned cx (with_token resp db1)"
proof -
  have reach1: "reachable cx db1" using assms by (blast intro: reach_step step_sync)
  obtain parsed where "db1 = foldl (apply_one cx) db parsed"
    using assms(3) by (auto simp: apply_events_Inr)
  moreover obtain new where "log_add cx (events db) parsed = events db @ new"
    using log_add_prefix by blast
  ultimately have "set (events db) \<subseteq> set (events db1)" by (simp add: events_foldl)
  then have poison1: "poisoned cx db1" using assms(2) by (auto simp: poisoned_def)
  show "reachable cx (with_token resp db1)" "poisoned cx (with_token resp db1)"
    using reach1 poison1 reach_step [OF reach1 step_token]
    by (auto simp: with_token_def poisoned_def save_sync_token_def split: option.split)
qed

lemma poisoned_inbound:
  assumes "codec_laws (ce_codec env)" "reachable (ce_codec env) (wd_stores w (cl_store cl))"
    and "poisoned (ce_codec env) (wd_stores w (cl_store cl))" "vt_device (wd_vault w) \<noteq> None"
  shows "\<exists>e. process_inbound_mls env cl w = (Inl (core_of_store e), w)"
proof -
  obtain e where "pending_mls (ce_codec env) (wd_stores w (cl_store cl)) = Inl e"
    using pending_mls_total [OF assms(1) reachable_inv [OF assms(2)]] assms(3)
    by (cases "pending_mls (ce_codec env) (wd_stores w (cl_store cl))") (auto simp: poisoned_def)
  then have "process_inbound_mls env cl w = (Inl (core_of_store e), w)"
    using assms(4) by (simp add: process_inbound_mls_def has_engine_def bnd_def store_read_def)
  then show ?thesis by blast
qed

text \<open>
  C30: One malformed event stops the sync loop for good: once the store of a client with an engine
  holds an event waiting for MLS whose ciphertext or commit is a number or a Boolean, every cycle
  that gets an answer from the server (one without floating point numbers) ends in an error, and the
  event is still there afterwards.
\<close>

theorem poisoned_store_stops_sync:
  assumes "codec_laws (ce_codec env)" "replies_storable (ce_server env)" "with_engine w"
    and "reachable (ce_codec env) (wd_stores w (cl_store cl))" "poisoned (ce_codec env) (wd_stores w (cl_store cl))"
    and "on_net (sync (ce_server env) (cl_api cl) (load_sync_token (wd_stores w (cl_store cl)))
      SYNC_TIMEOUT_MS SYNC_LIMIT) w = (Inr resp, w1)"
    and "sync_cycle env cl backoff w = (r, w')"
  shows "(\<exists>e. r = Inl e) \<and> poisoned (ce_codec env) (wd_stores w' (cl_store cl))"
proof -
  let ?db = "wd_stores w (cl_store cl)"
  have run: "handle_batch env cl resp w1 = (r, w')"
    using assms(6,7) by (simp add: sync_cycle_def bnd_def store_read_def catch_def)
  have s: "wd_stores w1 = wd_stores w" "with_engine w1"
    using assms(3,6) by (auto simp: on_net_def with_engine_def split: prod.splits)
  show ?thesis
  proof (cases "apply_events (ce_codec env) ?db (joined_events resp)")
    case (Inl e)
    then have "handle_batch env cl resp w1 = (Inl (core_of_store e), w1)"
      by (simp add: handle_batch_def apply_sync_def bnd_def store_write_def s)
    then show ?thesis using run s assms(5) by simp
  next
    case (Inr p)
    obtain db1 n where a: "apply_events (ce_codec env) ?db (joined_events resp) = Inr (db1, n)"
      using Inr by (cases p) simp
    have "storable resp" using assms(6) call_storable [OF assms(2)] unfolding sync_def by blast
    note db2 = poisoned_batch [OF assms(4,5) a storable_joined [OF this]]
    let ?db2 = "with_token resp db1"
    let ?w1 = "w1\<lparr>wd_stores := (wd_stores w1)(cl_store cl := db1)\<rparr>"
    obtain joined w2 where w2: "apply_to_device env resp ?w1 = (Inr joined, w2)"
        "handle_batch env cl resp w1 =
           bnd (process_inbound_mls env cl) (\<lambda>mls_changed.
           bnd (flush_pending env cl) (\<lambda>flushed.
           bnd (notify (OnStatus True)) (\<lambda>_.
           bnd (if n > 0 \<or> joined \<or> mls_changed \<or> flushed then notify OnChange else ret ()) (\<lambda>_.
           ret BACKOFF_START)))) (w2\<lparr>wd_stores := (wd_stores w1)(cl_store cl := ?db2)\<rparr>)"
      using batch_run [of env w1 cl resp db1 n] a s(1) by metis
    let ?w2 = "w2\<lparr>wd_stores := (wd_stores w1)(cl_store cl := ?db2)\<rparr>"
    have engine: "vt_device (wd_vault w2) \<noteq> None"
      using to_device_engine [of env resp] w2(1) s(2) by (auto simp: keeps_def engine_stays_def with_engine_def)
    obtain e where "process_inbound_mls env cl ?w2 = (Inl (core_of_store e), ?w2)"
      using poisoned_inbound [OF assms(1), of ?w2 cl] db2 engine by auto
    then have "handle_batch env cl resp w1 = (Inl (core_of_store e), ?w2)"
      unfolding w2(2) by (rule bnd_eval(1))
    then have "r = Inl (core_of_store e)" "w' = ?w2" using run by simp_all
    then show ?thesis using db2(2) by simp
  qed
qed


theorem poisoned_store_stops_sync_witness:
  "\<exists>e. fst (sync_cycle (toy_env (reply_server 200 empty_sync)) toy_client 1 (toy_world (Some []) db_poison)) = Inl e"
proof -
  let ?env = "toy_env (reply_server 200 empty_sync)" and ?w = "toy_world (Some []) db_poison"
  have s: "wd_stores ?w (cl_store toy_client) = db_poison" by (simp add: toy_world_def)
  obtain n where call: "on_net (sync (ce_server ?env) (cl_api toy_client) (load_sync_token (wd_stores ?w (cl_store toy_client)))
      SYNC_TIMEOUT_MS SYNC_LIMIT) ?w = (Inr empty_sync, ?w\<lparr>wd_net := n\<rparr>)"
    using sample_reply [OF s] .
  have "storable empty_sync" by code_simp
  then have "replies_storable (ce_server ?env)"
    by (auto simp: replies_storable_def reply_server_def toy_env_def)
  moreover have "poisoned (ce_codec ?env) (wd_stores ?w (cl_store toy_client))"
    using poison_row unfolding s by (simp add: poisoned_def toy_env_def)
  moreover have "codec_laws (ce_codec ?env)" "with_engine ?w" "reachable (ce_codec ?env) (wd_stores ?w (cl_store toy_client))"
    using id_codec_laws reach_db_poison by (simp_all add: toy_env_def toy_world_def with_engine_def)
  ultimately show ?thesis
    using poisoned_store_stops_sync [OF _ _ _ _ _ call surjective_pairing] by blast
qed

end
