(* ===== verification/Rooms_Spec.thy ===== *)
theory Rooms_Spec
  imports Sync_Spec
begin

text \<open>
  The one-shot methods on rooms: the bound on uploads, and three situations in which what is done
  falls short of what the rest of the client promises.
\<close>

section \<open>The upload limit\<close>

definition uploads_small :: "('w, 'd, 'k, 't) world \<Rightarrow> ('w, 'd, 'k, 't) world \<Rightarrow> bool" where
  "uploads_small w w' \<longleftrightarrow> (\<exists>new. net_log (wd_net w') = net_log (wd_net w) @ new \<and>
     (\<forall>rq\<in>set new. case rq_body rq of RawBody ct bs \<Rightarrow> length bs \<le> MAX_UPLOAD_BYTES | _ \<Rightarrow> True))"

lemma uploads_small_refl: "uploads_small w w"
  by (simp add: uploads_small_def)

lemma uploads_small_trans:
  assumes "uploads_small w w'" "uploads_small w' w''"
  shows "uploads_small w w''"
proof -
  obtain a b where "net_log (wd_net w') = net_log (wd_net w) @ a" "net_log (wd_net w'') = net_log (wd_net w') @ b"
      "\<forall>rq\<in>set a \<union> set b. case rq_body rq of RawBody ct bs \<Rightarrow> length bs \<le> MAX_UPLOAD_BYTES | _ \<Rightarrow> True"
    using assms unfolding uploads_small_def by blast
  then show ?thesis unfolding uploads_small_def by (intro exI [of _ "a @ b"]) simp
qed

interpretation small: step_rel uploads_small
  by unfold_locales (rule uploads_small_refl, rule uploads_small_trans)

lemma small_of_net: "keeps same_net m \<Longrightarrow> keeps uploads_small m"
  by (auto simp: keeps_def same_net_def uploads_small_def)

lemma small_basic [simp]:
  "keeps uploads_small (on_vault v)" "keeps uploads_small has_engine" "keeps uploads_small (tick env)"
  by (intro small_of_net keeps_net_basic)+

lemmas small_rules = small.keeps_bnd small.keeps_catch small.keeps_pure

lemma send_small:
  assumes "case rq_body rq of RawBody ct bs \<Rightarrow> length bs \<le> MAX_UPLOAD_BYTES | _ \<Rightarrow> True"
  shows "keeps uploads_small (on_net (bnd (send srv rq) (\<lambda>resp. lift_res (f resp))))"
  using assms
  by (auto simp: keeps_def uploads_small_def on_net_def send_def exchange_def bnd_def Let_def
      split: prod.splits sum.splits if_splits)

lemma small_upload: "keeps uploads_small (client_upload_media env cl bs ct)"
proof (cases "length bs > MAX_UPLOAD_BYTES")
  case False
  then show ?thesis
    unfolding client_upload_media_def call_api_def upload_media_def
    by (simp add: small.keeps_map_errA send_small)
qed (simp add: client_upload_media_def small.keeps_pure)

lemma small_send_event: "keeps uploads_small (call_api (send_event srv a room ty txn content))"
  unfolding call_api_def send_event_def put_def
  by (intro small.keeps_map_errA send_small) simp

lemma small_txn: "keeps uploads_small (next_txn_id env)"
  unfolding next_txn_id_def
  by (rule small.keeps_bnd, simp) (simp add: keeps_def uploads_small_def)

lemma small_holds_group: "keeps uploads_small (holds_group env room)"
  unfolding holds_group_def by (auto intro!: small_rules)

lemma small_send_image: "keeps uploads_small (send_image env cl room bs mime width height caption)"
  unfolding send_image_def Let_def
  by (auto intro!: small_rules small_upload small_send_event small_txn small_holds_group)

definition oversize :: core_error where
  "oversize = Api LimitExceeded (''file exceeds the '' @ nat_dec (MAX_UPLOAD_BYTES div (1024 * 1024)) @
     '' MiB media upload limit'')"

lemma upload_oversize: "MAX_UPLOAD_BYTES < length bs \<Longrightarrow> client_upload_media env cl bs ct w = (Inl oversize, w)"
  by (simp add: client_upload_media_def oversize_def raise_def)

lemma image_oversize_plain:
  assumes "holds_group env room w = (Inr False, w0)" "MAX_UPLOAD_BYTES < length bs"
  shows "send_image env cl room bs mime width height caption w = (Inl oversize, w0)"
  unfolding send_image_def bnd_eval(2) [of "holds_group env room" w, OF assms(1)]
  by (simp add: bnd_def upload_oversize [OF assms(2)])

lemma image_oversize_sealed:
  assumes "holds_group env room w = (Inr True, w0)"
    and "on_vault (encrypt_media (ce_crypto env) bs) w0 = (Inr (key, c), w2)" "MAX_UPLOAD_BYTES < length c"
  shows "send_image env cl room bs mime width height caption w = (Inl oversize, w2)"
  unfolding send_image_def bnd_eval(2) [of "holds_group env room" w, OF assms(1)]
  by (simp add: bnd_def assms(2) upload_oversize [OF assms(3)])

lemma image_start_net:
  "holds_group env room w = (r, w') \<Longrightarrow> wd_net w' = wd_net w" "on_vault m w = (q, w') \<Longrightarrow> wd_net w' = wd_net w"
  by (auto simp: holds_group_def has_engine_def on_vault_def bnd_def split: prod.splits sum.splits if_splits)

text \<open>
  C35: Raw upload bodies stay within the limit.  A file over the limit makes \<open>upload_media\<close> fail with
  the limit error before any request, changing nothing; \<open>send_image\<close> fails with the same error and
  makes no request if what it would upload is over the limit: the file itself when the device does not
  hold the room's group, else its ciphertext.  And no request of either method ever carries a raw body
  over the limit.
\<close>

theorem uploads_within_limit:
  assumes "client_upload_media env cl bs ct w = (r, w1)"
    and "send_image env cl room bs mime width height caption w = (r', w')"
  shows "(MAX_UPLOAD_BYTES < length bs \<longrightarrow> r = Inl oversize \<and> w1 = w) \<and>
    (\<forall>w0. holds_group env room w = (Inr False, w0) \<longrightarrow> MAX_UPLOAD_BYTES < length bs \<longrightarrow>
       r' = Inl oversize \<and> wd_net w' = wd_net w) \<and>
    (\<forall>w0 key c w2. holds_group env room w = (Inr True, w0) \<longrightarrow>
       on_vault (encrypt_media (ce_crypto env) bs) w0 = (Inr (key, c), w2) \<longrightarrow> MAX_UPLOAD_BYTES < length c \<longrightarrow>
       r' = Inl oversize \<and> wd_net w' = wd_net w) \<and>
    (\<forall>w_end\<in>{w1, w'}. \<exists>new. net_log (wd_net w_end) = net_log (wd_net w) @ new \<and>
       (\<forall>rq\<in>set new. case rq_body rq of RawBody ct bs \<Rightarrow> length bs \<le> MAX_UPLOAD_BYTES | _ \<Rightarrow> True))"
proof (intro conjI)
  show "MAX_UPLOAD_BYTES < length bs \<longrightarrow> r = Inl oversize \<and> w1 = w"
    using assms(1) upload_oversize [of bs env cl ct w] by auto
  show "\<forall>w0. holds_group env room w = (Inr False, w0) \<longrightarrow> MAX_UPLOAD_BYTES < length bs \<longrightarrow>
       r' = Inl oversize \<and> wd_net w' = wd_net w"
    using assms(2) image_oversize_plain image_start_net(1) by fastforce
  show "\<forall>w0 key c w2. holds_group env room w = (Inr True, w0) \<longrightarrow>
       on_vault (encrypt_media (ce_crypto env) bs) w0 = (Inr (key, c), w2) \<longrightarrow> MAX_UPLOAD_BYTES < length c \<longrightarrow>
       r' = Inl oversize \<and> wd_net w' = wd_net w"
    using assms(2) image_oversize_sealed image_start_net by fastforce
  show "\<forall>w_end\<in>{w1, w'}. \<exists>new. net_log (wd_net w_end) = net_log (wd_net w) @ new \<and>
       (\<forall>rq\<in>set new. case rq_body rq of RawBody ct bs \<Rightarrow> length bs \<le> MAX_UPLOAD_BYTES | _ \<Rightarrow> True)"
    using assms small_upload small_send_image unfolding keeps_def uploads_small_def by blast
qed

theorem uploads_within_limit_witness:
  "\<exists>w1 w'. client_upload_media (toy_env down_server) toy_client (replicate (Suc MAX_UPLOAD_BYTES) 0) ''image/png''
       (toy_world None db_name) = (Inl oversize, w1) \<and> net_log (wd_net w1) = [] \<and>
     send_image (toy_env down_server) toy_client ''!r'' (replicate (Suc MAX_UPLOAD_BYTES) 0) ''image/png'' 1 1 ''pic''
       (toy_world None db_name) = (Inl oversize, w') \<and> net_log (wd_net w') = []"
proof -
  let ?w = "toy_world None db_name" and ?bs = "replicate (Suc MAX_UPLOAD_BYTES) (0 :: 8 word)"
  let ?env = "toy_env down_server"
  obtain r w1 where u: "client_upload_media ?env toy_client ?bs ''image/png'' ?w = (r, w1)" by fastforce
  obtain r' w' where i: "send_image ?env toy_client ''!r'' ?bs ''image/png'' 1 1 ''pic'' ?w = (r', w')" by fastforce
  have "net_log (wd_net ?w) = []" by (simp add: toy_world_def)
  moreover have "holds_group ?env ''!r'' ?w = (Inr False, ?w)"
    by (simp add: holds_group_def has_engine_def toy_world_def bnd_def)
  moreover have "MAX_UPLOAD_BYTES < length ?bs" by simp
  ultimately show ?thesis using uploads_within_limit [OF u i] u i by auto
qed

section \<open>An image for an encrypted room without its group\<close>

definition upload_request :: "api \<Rightarrow> string \<Rightarrow> bytes \<Rightarrow> request" where
  "upload_request a ct bs = (req a POST ''/_pigeon/media/v1/upload'')\<lparr>rq_body := RawBody ct bs\<rparr>"

lemma upload_log:
  assumes "length bs \<le> MAX_UPLOAD_BYTES" "client_upload_media env cl bs ct w = (r, w')"
  shows "net_log (wd_net w') = net_log (wd_net w) @ [upload_request (cl_api cl) ct bs]"
  using assms
  by (auto simp: client_upload_media_def call_api_def map_errA_def on_net_def upload_media_def send_def
      exchange_def bnd_def Let_def upload_request_def split: prod.splits sum.splits if_splits)

lemma txn_net: "next_txn_id env w = (r, w') \<Longrightarrow> wd_net w' = wd_net w"
  by (auto simp: next_txn_id_def tick_def bnd_def)

lemma send_event_request:
  "call_api (send_event srv a room ty txn content) w = (r, w') \<Longrightarrow>
     net_log (wd_net w') = net_log (wd_net w) @
       [(req a PUT (''/_pigeon/client/v1/rooms/'' @ room @ ''/send/'' @ ty @ ''/'' @ txn))\<lparr>rq_body := JsonBody content\<rparr>]"
  by (auto simp: call_api_def map_errA_def on_net_def send_event_def put_def send_def exchange_def bnd_def Let_def
      split: prod.splits sum.splits if_splits)

text \<open>
  C38: An image for an encrypted room whose MLS group the device does not hold (yet) leaves it in the
  clear: the bytes are uploaded as they are, and if that succeeds they are referenced from a plain
  \<open>p.room.message\<close>, although the store knows the room to be encrypted.
\<close>

theorem image_leaks_without_group:
  assumes "is_room_encrypted (wd_stores w (cl_store cl)) room" "holds_group env room w = (Inr False, w)"
    and "length bs \<le> MAX_UPLOAD_BYTES" "send_image env cl room bs mime width height caption w = (r, w')"
  shows "\<exists>rest. net_log (wd_net w') = net_log (wd_net w) @ upload_request (cl_api cl) mime bs # rest \<and>
    (r = Inr () \<longrightarrow> (\<exists>uri txn. rest =
       [(req (cl_api cl) PUT (''/_pigeon/client/v1/rooms/'' @ room @ ''/send/p.room.message/'' @ txn))
          \<lparr>rq_body := JsonBody (plain_image_content caption uri mime width height (word_of_nat (length bs)))\<rparr>]))"
proof -
  let ?rest = "\<lambda>uri. bnd (next_txn_id env) (\<lambda>txn.
       bnd (call_api (send_event (ce_server env) (cl_api cl) room ''p.room.message'' txn
         (plain_image_content caption uri mime width height (word_of_nat (length bs))))) (\<lambda>_. ret ()))"
  have run: "bnd (client_upload_media env cl bs mime) ?rest w = (r, w')"
    using assms(4) unfolding send_image_def bnd_eval(2) [of "holds_group env room" w, OF assms(2)] Let_def by simp
  obtain u w1 where u: "client_upload_media env cl bs mime w = (u, w1)" by fastforce
  note log = upload_log [OF assms(3) u]
  show ?thesis
  proof (cases u)
    case (Inl e)
    then show ?thesis using run u log by (auto simp: bnd_def)
  next
    case (Inr uri)
    obtain t w2 where t: "next_txn_id env w1 = (Inr t, w2)" by (simp add: next_txn_id_def tick_def bnd_def)
    obtain v w3 where v: "call_api (send_event (ce_server env) (cl_api cl) room ''p.room.message'' t
         (plain_image_content caption uri mime width height (word_of_nat (length bs)))) w2 = (v, w3)" by fastforce
    have "w' = w3" using run u Inr t v by (auto simp: bnd_def split: sum.splits)
    then show ?thesis using log txn_net [OF t] send_event_request [OF v] by auto
  qed
qed

theorem image_leaks_without_group_witness:
  "\<exists>rest. net_log (wd_net (snd (send_image (toy_env accept_server) toy_client ''!r'' [7] ''image/png'' 1 1 ''hi''
       (toy_world (Some []) db_sealed)))) = upload_request (cl_api toy_client) ''image/png'' [7] # rest"
proof -
  let ?w = "toy_world (Some []) db_sealed"
  have "is_room_encrypted (wd_stores ?w (cl_store toy_client)) ''!r''"
    by (simp add: toy_world_def db_sealed_def is_room_encrypted_def)
  moreover have "holds_group (toy_env accept_server) ''!r'' ?w = (Inr False, ?w)"
    by (simp add: holds_group_def has_engine_def bnd_def on_vault_def has_group_def the_device_def toy_world_def
        toy_env_def toy_crypto_def toy_mls_def)
  moreover have "length [7 :: 8 word] \<le> MAX_UPLOAD_BYTES" by (simp add: MAX_UPLOAD_BYTES_def)
  moreover have "net_log (wd_net ?w) = []" by (simp add: toy_world_def)
  ultimately show ?thesis
    using image_leaks_without_group [OF _ _ _ surjective_pairing, of ?w toy_client "''!r''" "toy_env accept_server" "[7]"]
    by fastforce
qed

section \<open>Commits\<close>

text \<open>
  A commit that another device of the same user sent is never applied: the pass only looks at the
  sender, so it marks the commit processed and leaves the MLS group, which holds no such commit yet,
  at its old epoch; no later pass sees the commit again.
\<close>

theorem sibling_commit_dropped:
  assumes "pc_sender c = ss_user_id (cl_session cl)" "vt_device (wd_vault w) = Some d"
    and "m_load_group (env_mls (ce_crypto env)) (str_bytes (pc_room_id c)) d = Inr (Some g)"
  shows "\<exists>w'. inbound_commit env cl c changed w = (Inr True, w') \<and> wd_vault w' = wd_vault w \<and>
    (\<forall>r\<in>set (events (wd_stores w' (cl_store cl))). r_event_id r = pc_event_id c \<longrightarrow> \<not> awaits_mls r)"
proof -
  let ?db = "set_commit_processed (wd_stores w (cl_store cl)) (pc_event_id c)"
  let ?w = "w\<lparr>wd_stores := (wd_stores w)(cl_store cl := ?db)\<rparr>"
  have "on_vault (has_group (ce_crypto env) (pc_room_id c)) w = (Inr True, w)"
    using assms(2,3) by (simp add: on_vault_def has_group_def the_device_def bnd_def)
  then have "inbound_commit env cl c changed w = (Inr True, ?w)"
    using assms(1) by (simp add: inbound_commit_def bnd_def store_update_def store_write_def)
  moreover have "\<not> awaits_mls r" if "r \<in> set (events ?db)" "r_event_id r = pc_event_id c" for r
  proof -
    have "r \<in> (\<lambda>r. if r_event_id r = pc_event_id c then r\<lparr>r_decrypt_state := DECRYPT_OK\<rparr> else r) `
        set (events (wd_stores w (cl_store cl)))"
      using that(1) by (simp add: set_commit_processed_def upd_event_def)
    then show ?thesis using that(2) by (auto simp: awaits_mls_def DECRYPT_OK_def split: if_splits)
  qed
  ultimately show ?thesis by simp
qed

definition own_commit :: pending_commit where
  "own_commit = \<lparr> pc_event_id = ''$c'', pc_room_id = ''!r'', pc_sender = ''@a'', pc_commit_b64 = ''x'' \<rparr>"

theorem sibling_commit_dropped_witness:
  "\<exists>w'. inbound_commit (toy_env down_server) toy_client own_commit False (toy_world (Some [''!r'']) db_name) =
     (Inr True, w') \<and> vt_device (wd_vault w') = Some [''!r'']"
proof -
  let ?w = "toy_world (Some [''!r'']) db_name"
  have "bytes_str (str_bytes ''!r'') = ''!r''" by code_simp
  then have "m_load_group (env_mls (ce_crypto (toy_env down_server))) (str_bytes (pc_room_id own_commit)) [''!r'']
      = Inr (Some ())"
    by (simp add: toy_env_def toy_crypto_def toy_mls_def own_commit_def)
  moreover have "pc_sender own_commit = ss_user_id (cl_session toy_client)"
    by (simp add: own_commit_def toy_client_def)
  moreover have "vt_device (wd_vault ?w) = Some [''!r'']" by (simp add: toy_world_def)
  ultimately show ?thesis
    using sibling_commit_dropped [of own_commit toy_client ?w "[''!r'']" "toy_env down_server"] by fastforce
qed

text \<open>
  C39: Adding a member is not atomic with telling the others: when the server cannot be reached to deliver
  the Welcome, the inviter's group has already advanced and is saved at the new epoch, the call fails, and
  the commit that the other members need was never sent: the only request is the failed Welcome.
\<close>

theorem invite_loses_commit:
  assumes "unreachable (ce_server env)"
    and "add_member (ce_crypto env) room (ck_key_package_b64 kp) (wd_vault w) = (Inr outcome, v)"
  shows "\<exists>w' e rq. welcome_device env cl room user kp w = (Inl (Network e), w') \<and> wd_vault w' = v \<and>
    net_log (wd_net w') = net_log (wd_net w) @ [rq] \<and>
    (\<exists>txn. rq_url rq = join_url (api_base (cl_api cl)) (''/_pigeon/client/v1/sendToDevice/p.mls.welcome/'' @ txn))"
proof -
  let ?w1 = "w\<lparr>wd_vault := v\<rparr>"
  have a: "on_vault (add_member (ce_crypto env) room (ck_key_package_b64 kp)) w = (Inr outcome, ?w1)"
    using assms(2) by (simp add: on_vault_def)
  obtain txn w2 where t: "next_txn_id env ?w1 = (Inr txn, w2)" "wd_vault w2 = v" "wd_net w2 = wd_net w"
    by (simp add: next_txn_id_def tick_def bnd_def)
  let ?msgs = "JObj [(user, JObj [(ck_device_id kp,
               JObj [(''welcome'', JStr (ao_welcome outcome)), (''room_id'', JStr room)])])]"
  let ?rq = "(req (cl_api cl) PUT (''/_pigeon/client/v1/sendToDevice/'' @ ''p.mls.welcome'' @ ''/'' @ txn))
      \<lparr>rq_body := JsonBody (JObj [(''messages'', ?msgs)])\<rparr>"
  obtain e s where e: "ce_server env ?rq (net_remote (wd_net w2)) = (Inl e, s)"
    using assms(1) unfolding unreachable_def by blast
  let ?w3 = "w2\<lparr>wd_net := \<lparr> net_remote = s, net_log = net_log (wd_net w2) @ [?rq] \<rparr>\<rparr>"
  have c: "call_api (send_to_device (ce_server env) (cl_api cl) ''p.mls.welcome'' txn ?msgs) w2 = (Inl (Network e), ?w3)"
    using e by (simp add: call_api_def map_errA_def on_net_def send_to_device_def put_def send_def exchange_def bnd_def)
  have "welcome_device env cl room user kp w = (Inl (Network e), ?w3)"
    unfolding welcome_device_def bnd_eval(2) [of "on_vault _" w, OF a] bnd_eval(2) [of "next_txn_id env" ?w1, OF t(1)]
    by (rule bnd_eval(1) [of "call_api _" w2, OF c])
  moreover have "rq_url ?rq = join_url (api_base (cl_api cl)) (''/_pigeon/client/v1/sendToDevice/p.mls.welcome/'' @ txn)"
    by (simp add: req_def)
  ultimately show ?thesis using t(2,3) by (intro exI [of _ ?w3] exI [of _ e] exI [of _ ?rq]) auto
qed

theorem invite_loses_commit_witness:
  "\<exists>w' e. welcome_device (toy_env down_server) toy_client ''!r'' ''@b''
     \<lparr> ck_device_id = ''D'', ck_key_package_b64 = ''k'' \<rparr> (toy_world (Some [''!r'']) db_name) = (Inl (Network e), w') \<and>
     length (net_log (wd_net w')) = 1 \<and> vt_device (wd_vault w') \<noteq> Some [''!r'']"
proof -
  let ?env = "toy_env down_server" and ?kp = "\<lparr> ck_device_id = ''D'', ck_key_package_b64 = ''k'' \<rparr>"
  let ?w = "toy_world (Some [''!r'']) db_name"
  let ?add = "add_member (ce_crypto ?env) ''!r'' (ck_key_package_b64 ?kp) (wd_vault ?w)"
  have "ok (fst ?add)" by code_simp
  then obtain outcome v where a: "?add = (Inr outcome, v)"
    by (cases ?add) (auto simp: ok_def split: sum.splits)
  have "vt_device (snd ?add) = Some [''added'', ''!r'']" by code_simp
  then have v: "vt_device v = Some [''added'', ''!r'']" using a by simp
  have "net_log (wd_net ?w) = []" by (simp add: toy_world_def)
  then show ?thesis
    using invite_loses_commit [OF down_unreachable a, of toy_client "''@b''"] v by fastforce
qed

end
