(* ===== verification/Migrate.thy ===== *)
theory Migrate
  imports Act Store
begin

text \<open>
  Opening the store: \<open>init\<close> and \<open>migrate\<close> of \<open>core/src/store.rs\<close>, on a model of the part of a SQLite
  file they touch.  A file holds a \<open>user_version\<close>, named tables (columns in order, rows as lists of
  values) and the names of its indexes.  Every statement of a batch commits by itself:
  \<open>execute_batch\<close> opens no transaction.  The constraints of the columns are not part of this model;
  they are the guards of the operations in the theory of the store.
\<close>

section \<open>A SQLite file\<close>

record sql_table =
  tb_columns :: "string list"
  tb_rows :: "sqlval list list"

record sqlite_file =
  sf_version :: int
  sf_tables :: "(string \<times> sql_table) list"
  sf_indexes :: "string list"
  sf_journal :: string
  sf_foreign_keys :: bool

type_synonym 'a sql_act = "(sqlite_file, string, 'a) act"

definition find_table :: "sqlite_file \<Rightarrow> string \<Rightarrow> sql_table option" where
  "find_table f n = map_of (sf_tables f) n"

definition name_taken :: "sqlite_file \<Rightarrow> string \<Rightarrow> bool" where
  "name_taken f n \<longleftrightarrow> n \<in> fst ` set (sf_tables f) \<or> n \<in> set (sf_indexes f)"

text \<open>The statements the migrations use.\<close>

datatype sql_stmt =
    CreateTable string "string list"
  | CreateIndex string string "string list"
  | AddColumn string string sqlval

definition put_table :: "string \<Rightarrow> sql_table \<Rightarrow> sqlite_file \<Rightarrow> sqlite_file" where
  "put_table n t f = f\<lparr>sf_tables := map (\<lambda>(m, u). (m, if m = n then t else u)) (sf_tables f)\<rparr>"

fun exec_stmt :: "sql_stmt \<Rightarrow> unit sql_act" where
  "exec_stmt (CreateTable n cols) = (\<lambda>f.
     if name_taken f n then (Inl (''table '' @ n @ '' already exists''), f)
     else (Inr (), f\<lparr>sf_tables := sf_tables f @ [(n, \<lparr> tb_columns = cols, tb_rows = [] \<rparr>)]\<rparr>))"
| "exec_stmt (CreateIndex n t cols) = (\<lambda>f.
     if name_taken f n then (Inl (''index '' @ n @ '' already exists''), f)
     else (case find_table f t of
             None \<Rightarrow> (Inl (''no such table: '' @ t), f)
           | Some tb \<Rightarrow>
               (if \<not> set cols \<subseteq> set (tb_columns tb) then (Inl ''no such column'', f)
                else (Inr (), f\<lparr>sf_indexes := sf_indexes f @ [n]\<rparr>))))"
| "exec_stmt (AddColumn t c d) = (\<lambda>f.
     (case find_table f t of
        None \<Rightarrow> (Inl (''no such table: '' @ t), f)
      | Some tb \<Rightarrow>
          (if c \<in> set (tb_columns tb) then (Inl (''duplicate column name: '' @ c), f)
           else (Inr (), put_table t \<lparr> tb_columns = tb_columns tb @ [c],
                                       tb_rows = map (\<lambda>r. r @ [d]) (tb_rows tb) \<rparr> f))))"

definition execute_batch :: "sql_stmt list \<Rightarrow> unit sql_act" where
  "execute_batch stmts = forA exec_stmt stmts"

section \<open>The migrations\<close>

definition SCHEMA_VERSION :: int where "SCHEMA_VERSION = 3"

definition SYNC_TOKEN_COLS :: "string list" where "SYNC_TOKEN_COLS = [''id'', ''token'']"

definition EVENTS_COLS :: "string list" where
  "EVENTS_COLS = [''event_id'', ''room_id'', ''sender'', ''type'', ''state_key'', ''origin_server_ts'',
     ''depth'', ''payload'']"

definition ROOM_STATE_COLS :: "string list" where
  "ROOM_STATE_COLS = [''room_id'', ''type'', ''state_key'', ''event_id'', ''depth'']"

definition PENDING_COLS :: "string list" where
  "PENDING_COLS = [''txn_id'', ''room_id'', ''body'', ''event_id'', ''created_ts'']"

definition batch_v1 :: "sql_stmt list" where
  "batch_v1 = [CreateTable ''sync_token'' SYNC_TOKEN_COLS, CreateTable ''events'' EVENTS_COLS,
     CreateIndex ''idx_events_room_depth'' ''events'' [''room_id'', ''depth'', ''event_id''],
     CreateTable ''room_state'' ROOM_STATE_COLS]"

definition batch_v2 :: "sql_stmt list" where
  "batch_v2 = [AddColumn ''events'' ''local'' (SInt 0), CreateTable ''pending_sends'' PENDING_COLS]"

definition batch_v3 :: "sql_stmt list" where
  "batch_v3 = [AddColumn ''events'' ''decrypted'' SNull, AddColumn ''events'' ''decrypt_state'' (SInt 0),
     CreateIndex ''idx_events_pending_decrypt'' ''events'' [''type'', ''decrypt_state'']]"

definition migrate :: "unit sql_act" where
  "migrate =
     bnd getA (\<lambda>f. (let version = sf_version f
      in bnd (if version < 1 then execute_batch batch_v1 else ret ()) (\<lambda>_.
         bnd (if version < 2 then execute_batch batch_v2 else ret ()) (\<lambda>_.
         bnd (if version < 3 then execute_batch batch_v3 else ret ()) (\<lambda>_.
         modA (\<lambda>f. f\<lparr>sf_version := SCHEMA_VERSION\<rparr>))))))"

definition store_init :: "unit sql_act" where
  "store_init =
     bnd (modA (\<lambda>f. f\<lparr>sf_journal := ''WAL''\<rparr>)) (\<lambda>_.
     bnd (modA (\<lambda>f. f\<lparr>sf_foreign_keys := True\<rparr>)) (\<lambda>_.
     migrate))"

text \<open>What \<open>Connection::open\<close> creates where there is no file.\<close>

definition empty_file :: sqlite_file where
  "empty_file = \<lparr> sf_version = 0, sf_tables = [], sf_indexes = [], sf_journal = ''DELETE'', sf_foreign_keys = False \<rparr>"

section \<open>The tables of the store\<close>

text \<open>Reading the rows of a file in the current schema as the tables the store works on.\<close>

fun sql_text :: "sqlval \<Rightarrow> string option" where
  "sql_text (SText s) = Some s"
| "sql_text _ = None"

fun sql_int :: "sqlval \<Rightarrow> int option" where
  "sql_int (SInt i) = Some i"
| "sql_int _ = None"

fun opt_text :: "sqlval \<Rightarrow> string option option" where
  "opt_text SNull = Some None"
| "opt_text (SText s) = Some (Some s)"
| "opt_text _ = None"

definition event_of_row :: "sqlval list \<Rightarrow> string event_row option" where
  "event_of_row r =
     (if length r \<noteq> 11 then None
      else
        Option.bind (sql_text (r ! 0)) (\<lambda>eid. Option.bind (sql_text (r ! 1)) (\<lambda>room.
        Option.bind (sql_text (r ! 2)) (\<lambda>sender. Option.bind (sql_text (r ! 3)) (\<lambda>ty.
        Option.bind (opt_text (r ! 4)) (\<lambda>key. Option.bind (sql_int (r ! 5)) (\<lambda>ts.
        Option.bind (sql_int (r ! 6)) (\<lambda>d. Option.bind (sql_text (r ! 7)) (\<lambda>pl.
        Option.bind (sql_int (r ! 8)) (\<lambda>lcl. Option.bind (opt_text (r ! 9)) (\<lambda>plain.
        Option.bind (sql_int (r ! 10)) (\<lambda>ds.
        Some \<lparr> r_event_id = eid, r_room_id = room, r_sender = sender, r_type = ty,
            r_state_key = key, r_ts = ts, r_depth = d, r_payload = pl, r_local = lcl,
            r_decrypted = plain, r_decrypt_state = ds \<rparr>))))))))))))"

definition state_of_row :: "sqlval list \<Rightarrow> state_row option" where
  "state_of_row r =
     (if length r \<noteq> 5 then None
      else
        Option.bind (sql_text (r ! 0)) (\<lambda>room. Option.bind (sql_text (r ! 1)) (\<lambda>ty.
        Option.bind (sql_text (r ! 2)) (\<lambda>key. Option.bind (sql_text (r ! 3)) (\<lambda>eid.
        Option.bind (sql_int (r ! 4)) (\<lambda>d.
        Some \<lparr> s_room_id = room, s_type = ty, s_state_key = key, s_event_id = eid, s_depth = d \<rparr>))))))"

definition pending_of_row :: "sqlval list \<Rightarrow> pending_row option" where
  "pending_of_row r =
     (if length r \<noteq> 5 then None
      else
        Option.bind (sql_text (r ! 0)) (\<lambda>txn. Option.bind (sql_text (r ! 1)) (\<lambda>room.
        Option.bind (sql_text (r ! 2)) (\<lambda>bdy. Option.bind (sql_text (r ! 3)) (\<lambda>eid.
        Option.bind (sql_int (r ! 4)) (\<lambda>ts.
        Some \<lparr> p_txn_id = txn, p_room_id = room, p_body = bdy, p_event_id = eid, p_created_ts = ts \<rparr>))))))"

text \<open>The token table holds at most the row with id 0.\<close>

definition token_of_rows :: "sqlval list list \<Rightarrow> string option option" where
  "token_of_rows rs =
     (case rs of
        [] \<Rightarrow> Some None
      | r # rest \<Rightarrow>
          (if rest = [] \<and> length r = 2 \<and> r ! 0 = SInt 0
           then map_option Some (sql_text (r ! 1)) else None))"

definition rows_of :: "sqlite_file \<Rightarrow> string \<Rightarrow> sqlval list list" where
  "rows_of f n = (case find_table f n of None \<Rightarrow> [] | Some t \<Rightarrow> tb_rows t)"

definition db_of_file :: "sqlite_file \<Rightarrow> string db option" where
  "db_of_file f =
     Option.bind (token_of_rows (rows_of f ''sync_token'')) (\<lambda>tok.
     Option.bind (those (map event_of_row (rows_of f ''events''))) (\<lambda>evs.
     Option.bind (those (map state_of_row (rows_of f ''room_state''))) (\<lambda>sts.
     Option.bind (those (map pending_of_row (rows_of f ''pending_sends''))) (\<lambda>ps.
     Some \<lparr> sync_token = tok, events = evs, room_state = sts, pending_sends_tab = ps \<rparr>))))"

end
