(* ===== verification/Migrate_Spec.thy ===== *)
theory Migrate_Spec
  imports Migrate
begin

text \<open>
  Opening a store of any released schema version brings it to the current one and keeps its data; a
  migration that was cut short cannot be finished.
\<close>

section \<open>Schemas\<close>

text \<open>The tables, with their columns, and the indexes of each schema version.\<close>

definition tables_at :: "int \<Rightarrow> (string \<times> string list) list" where
  "tables_at v =
     (if v < 1 then []
      else [(''sync_token'', SYNC_TOKEN_COLS),
            (''events'', EVENTS_COLS @ (if v < 2 then [] else [''local'']) @
               (if v < 3 then [] else [''decrypted'', ''decrypt_state''])),
            (''room_state'', ROOM_STATE_COLS)] @
           (if v < 2 then [] else [(''pending_sends'', PENDING_COLS)]))"

definition indexes_at :: "int \<Rightarrow> string list" where
  "indexes_at v = (if v < 1 then [] else [''idx_events_room_depth'']) @
     (if v < 3 then [] else [''idx_events_pending_decrypt''])"

definition schema_at :: "int \<Rightarrow> sqlite_file \<Rightarrow> bool" where
  "schema_at v f \<longleftrightarrow> sf_version f = v \<and> map (\<lambda>(n, t). (n, tb_columns t)) (sf_tables f) = tables_at v \<and>
     sf_indexes f = indexes_at v"

text \<open>What a row of the event table gains.\<close>

definition new_columns :: "int \<Rightarrow> sqlval list" where
  "new_columns v = (if v < 2 then [SInt 0] else []) @ (if v < 3 then [SNull, SInt 0] else [])"

lemmas schema_defs = schema_at_def tables_at_def indexes_at_def new_columns_def SYNC_TOKEN_COLS_def
  EVENTS_COLS_def ROOM_STATE_COLS_def PENDING_COLS_def

lemmas migrate_defs = migrate_def execute_batch_def batch_v1_def batch_v2_def batch_v3_def
  name_taken_def find_table_def put_table_def SCHEMA_VERSION_def rows_of_def

lemma map_snd_Cons:
  "map (\<lambda>(n, t). (n, tb_columns t)) ts = (n, cols) # rest \<longleftrightarrow>
     (\<exists>t ts'. ts = (n, t) # ts' \<and> tb_columns t = cols \<and> map (\<lambda>(n, t). (n, tb_columns t)) ts' = rest)"
  by (cases ts) auto

lemma migrate_v0:
  assumes "schema_at 0 f"
  shows "\<exists>f'. migrate f = (Inr (), f') \<and> schema_at 3 f' \<and> (\<forall>n. rows_of f' n = [] \<and> rows_of f n = [])"
proof -
  obtain j k where f: "f = \<lparr> sf_version = 0, sf_tables = [], sf_indexes = [], sf_journal = j, sf_foreign_keys = k \<rparr>"
    using assms by (cases f) (simp add: schema_at_def tables_at_def indexes_at_def)
  show ?thesis
    unfolding f by (simp add: migrate_defs schema_defs bnd_def)
qed

lemma migrate_v1:
  assumes "schema_at 1 f"
  shows "\<exists>f'. migrate f = (Inr (), f') \<and> schema_at 3 f' \<and>
    rows_of f' ''events'' = map (\<lambda>r. r @ [SInt 0, SNull, SInt 0]) (rows_of f ''events'') \<and>
    (\<forall>n. n \<noteq> ''events'' \<longrightarrow> rows_of f' n = rows_of f n)"
proof -
  obtain t1 t2 t3 j k where f: "f = \<lparr> sf_version = 1, sf_tables = [(''sync_token'', t1), (''events'', t2), (''room_state'', t3)],
      sf_indexes = [''idx_events_room_depth''], sf_journal = j, sf_foreign_keys = k \<rparr>"
      "tb_columns t1 = SYNC_TOKEN_COLS" "tb_columns t2 = EVENTS_COLS" "tb_columns t3 = ROOM_STATE_COLS"
    using assms by (cases f) (auto simp: schema_at_def tables_at_def indexes_at_def map_snd_Cons)
  show ?thesis
    unfolding f(1) using f(2-4) by (simp add: migrate_defs schema_defs bnd_def)
qed

lemma migrate_v2:
  assumes "schema_at 2 f"
  shows "\<exists>f'. migrate f = (Inr (), f') \<and> schema_at 3 f' \<and>
    rows_of f' ''events'' = map (\<lambda>r. r @ [SNull, SInt 0]) (rows_of f ''events'') \<and>
    (\<forall>n. n \<noteq> ''events'' \<longrightarrow> rows_of f' n = rows_of f n)"
proof -
  obtain t1 t2 t3 t4 j k where f: "f = \<lparr> sf_version = 2, sf_tables = [(''sync_token'', t1), (''events'', t2), (''room_state'', t3),
      (''pending_sends'', t4)], sf_indexes = [''idx_events_room_depth''], sf_journal = j, sf_foreign_keys = k \<rparr>"
      "tb_columns t1 = SYNC_TOKEN_COLS" "tb_columns t2 = EVENTS_COLS @ [''local'']" "tb_columns t3 = ROOM_STATE_COLS"
      "tb_columns t4 = PENDING_COLS"
    using assms by (cases f) (auto simp: schema_at_def tables_at_def indexes_at_def map_snd_Cons)
  show ?thesis
    unfolding f(1) using f(2-5) by (simp add: migrate_defs schema_defs bnd_def)
qed

section \<open>Upgrading\<close>

text \<open>
  C32: Opening a store of any schema version, an empty file included, succeeds and leaves the current
  schema: every row of every table is kept, event rows get the defaults of the columns they lack, and a
  new file is the empty store.
\<close>

theorem migrate_upgrades:
  assumes "v \<in> {0, 1, 2, 3}" "schema_at v f"
  shows "\<exists>f'. store_init f = (Inr (), f') \<and> schema_at 3 f' \<and>
    rows_of f' ''events'' = map (\<lambda>r. r @ new_columns v) (rows_of f ''events'') \<and>
    (\<forall>n. n \<noteq> ''events'' \<longrightarrow> rows_of f' n = rows_of f n) \<and> (v = 0 \<longrightarrow> db_of_file f' = Some empty_db)"
proof -
  let ?f = "f\<lparr>sf_journal := ''WAL'', sf_foreign_keys := True\<rparr>"
  have s: "schema_at v ?f" "rows_of ?f n = rows_of f n" "store_init f = migrate ?f" for n
    using assms(2) by (simp_all add: schema_at_def rows_of_def find_table_def store_init_def)
  consider "v = 0" | "v = 1" | "v = 2" | "v = 3" using assms(1) by blast
  then show ?thesis
  proof cases
    case 1
    then show ?thesis
      using migrate_v0 [of ?f] s
      by (auto simp: db_of_file_def token_of_rows_def empty_db_def)
  next
    case 2
    then show ?thesis using migrate_v1 [of ?f] s by (simp add: new_columns_def)
  next
    case 3
    then show ?thesis using migrate_v2 [of ?f] s by (simp add: new_columns_def)
  next
    case 4
    have "migrate ?f = (Inr (), ?f)"
      using s(1) 4 by (simp add: migrate_def schema_at_def SCHEMA_VERSION_def)
    then show ?thesis using s 4 by (simp add: new_columns_def)
  qed
qed

theorem migrate_upgrades_witness:
  "\<exists>f'. store_init empty_file = (Inr (), f') \<and> schema_at 3 f' \<and> db_of_file f' = Some empty_db"
proof -
  have "schema_at 0 empty_file" by (simp add: empty_file_def schema_at_def tables_at_def indexes_at_def)
  then show ?thesis using migrate_upgrades [of 0 empty_file] by auto
qed

section \<open>Interrupted migrations\<close>

text \<open>Statements only ever add names and columns, and never touch the version.\<close>

definition grows :: "sqlite_file \<Rightarrow> sqlite_file \<Rightarrow> bool" where
  "grows f f' \<longleftrightarrow> sf_version f' = sf_version f \<and> (\<forall>n. name_taken f n \<longrightarrow> name_taken f' n) \<and>
     (\<forall>n t. find_table f n = Some t \<longrightarrow>
        (\<exists>t'. find_table f' n = Some t' \<and> set (tb_columns t) \<subseteq> set (tb_columns t')))"

interpretation growth: step_rel grows
  by unfold_locales (auto simp: grows_def, meson subset_trans)

lemma find_put:
  "find_table (put_table n t f) m = (if m = n then map_option (\<lambda>_. t) (find_table f n) else find_table f m)"
proof -
  have "map_of (map (\<lambda>(k, u). (k, if k = n then t else u)) ts) m =
      (if m = n then map_option (\<lambda>_. t) (map_of ts n) else map_of ts m)" for ts
    by (induction ts) auto
  then show ?thesis by (simp add: find_table_def put_table_def)
qed

lemma exec_grows: "keeps grows (exec_stmt s)"
proof (cases s)
  case (CreateTable n cols)
  have "grows f (f\<lparr>sf_tables := sf_tables f @ [(n, t)]\<rparr>)" for f t
    by (auto simp: grows_def name_taken_def find_table_def map_add_Some_iff)
  then show ?thesis by (auto simp: CreateTable keeps_def growth.refl)
next
  case (CreateIndex n t cols)
  have "grows f (f\<lparr>sf_indexes := sf_indexes f @ [n]\<rparr>)" for f
    by (auto simp: grows_def name_taken_def find_table_def)
  then show ?thesis by (auto simp: CreateIndex keeps_def growth.refl split: option.splits)
next
  case (AddColumn t c d)
  have "grows f (put_table t \<lparr> tb_columns = tb_columns tb @ [c], tb_rows = rs \<rparr> f)" if "find_table f t = Some tb" for f tb rs
  proof -
    have "fst ` set (sf_tables (put_table t u f)) = fst ` set (sf_tables f)" for u
      by (simp add: put_table_def image_image case_prod_beta)
    then have "name_taken (put_table t u f) = name_taken f" for u
      by (simp add: fun_eq_iff name_taken_def put_table_def)
    moreover have "sf_version (put_table t u f) = sf_version f" for u by (simp add: put_table_def)
    ultimately show ?thesis using that by (auto simp: grows_def find_put)
  qed
  then show ?thesis by (auto simp: AddColumn keeps_def growth.refl split: option.splits)
qed

definition remaining_stmts :: "int \<Rightarrow> sql_stmt list" where
  "remaining_stmts v = (if v < 1 then batch_v1 else []) @ (if v < 2 then batch_v2 else []) @
     (if v < 3 then batch_v3 else [])"

text \<open>The first statement of an interrupted run has left its mark, and fails when it is run again.\<close>

lemma first_stmt_again:
  assumes "execute_batch (s # ss) f = (r, f1)" "exec_stmt s f = (Inr (), f2)"
  shows "\<exists>e. exec_stmt s f1 = (Inl e, f1)"
proof -
  have "keeps grows (forA exec_stmt ss)" by (rule growth.keeps_forA) (rule exec_grows)
  then have g: "grows f2 f1"
    using assms by (simp add: execute_batch_def bnd_def keeps_def)
  show ?thesis
  proof (cases s)
    case (CreateTable n cols)
    then have "name_taken f2 n" using assms(2) by (auto simp: name_taken_def split: if_splits)
    with g have "name_taken f1 n" by (simp add: grows_def)
    then show ?thesis by (simp add: CreateTable)
  next
    case (CreateIndex n t cols)
    then have "name_taken f2 n" using assms(2) by (auto simp: name_taken_def split: if_splits option.splits)
    with g have "name_taken f1 n" by (simp add: grows_def)
    then show ?thesis by (simp add: CreateIndex)
  next
    case (AddColumn t c d)
    then obtain tb where "find_table f2 t = Some tb" "c \<in> set (tb_columns tb)"
      using assms(2) by (auto simp: find_put split: if_splits option.splits)
    with g obtain tb' where "find_table f1 t = Some tb'" "c \<in> set (tb_columns tb')"
      unfolding grows_def by blast
    then show ?thesis by (simp add: AddColumn)
  qed
qed

lemma migrate_first:
  assumes "sf_version f \<in> {0, 1, 2}" "exec_stmt (hd (remaining_stmts (sf_version f))) f = (Inl e, f)"
  shows "migrate f = (Inl e, f)"
  using assms
  by (auto simp: migrate_def remaining_stmts_def batch_v1_def batch_v2_def batch_v3_def execute_batch_def bnd_def Let_def
      simp del: exec_stmt.simps)

text \<open>
  C40: A migration is not atomic: when the process dies after at least one of its statements and before
  the version is written, the half-migrated file can never be opened again; every later attempt fails
  at its first statement and changes nothing.
\<close>

theorem interrupted_migration_stuck:
  assumes "v \<in> {0, 1, 2}" "schema_at v f" "0 < k"
    and "execute_batch (take k (remaining_stmts v)) f = (Inr (), f1)"
  shows "\<exists>e. migrate f1 = (Inl e, f1)"
proof -
  obtain s ss where ss: "take k (remaining_stmts v) = s # ss" "s = hd (remaining_stmts v)"
    using assms(1,3) by (cases k; cases "remaining_stmts v")
      (auto simp: remaining_stmts_def batch_v1_def batch_v2_def batch_v3_def)
  have run: "execute_batch (s # ss) f = (Inr (), f1)" using assms(4) ss(1) by simp
  then obtain f2 where "exec_stmt s f = (Inr (), f2)"
    by (auto simp: execute_batch_def bnd_Inr_iff simp del: exec_stmt.simps)
  from first_stmt_again [OF run this] obtain e where e: "exec_stmt s f1 = (Inl e, f1)" by blast
  have "keeps grows (execute_batch (s # ss))"
    unfolding execute_batch_def by (rule growth.keeps_forA) (rule exec_grows)
  then have "sf_version f1 = v"
    using run assms(2) by (auto simp: keeps_def grows_def schema_at_def)
  then show ?thesis using migrate_first [of f1 e] e assms(1) ss(2) by auto
qed

theorem interrupted_migration_stuck_witness:
  "\<exists>f1 e. execute_batch (take 2 (remaining_stmts 0)) empty_file = (Inr (), f1) \<and> migrate f1 = (Inl e, f1)"
proof -
  have s: "schema_at 0 empty_file" by (simp add: empty_file_def schema_at_def tables_at_def indexes_at_def)
  obtain f1 where f1: "execute_batch (take 2 (remaining_stmts 0)) empty_file = (Inr (), f1)"
    by (simp add: remaining_stmts_def batch_v1_def execute_batch_def bnd_def name_taken_def empty_file_def)
  from interrupted_migration_stuck [OF _ s _ this] f1 show ?thesis by auto
qed

end
