(* ===== verification/Overlap.thy ===== *)
theory Overlap
  imports Send_Queue
begin

text \<open>
  Flush passes that overlap with the rest of the client.  \<open>flush_pending\<close> gives up control while a
  request is in flight, so the sync loop, the user interface and other flush passes act in between.
  Here a pass is a machine that advances from one suspension to the next; \<open>send_lock\<close> lets one pass run
  at a time, and the others start, and read the queue, after it.
\<close>

section \<open>A pass, from suspension to suspension\<close>

text \<open>The messages still to be handled; a request whose answer has not been handled; the result.\<close>

datatype pass =
    Running "pending_send list" bool
  | InFlight pending_send "api_error + string" "pending_send list" bool
  | Finished "core_error + bool"

text \<open>What a step of the system shows: a transmission, a message that left the queue, one that joined it.\<close>

datatype event_label =
    Silent
  | Sent pending_send "string \<times> json"
  | Acked string
  | Refusal string
  | Queued string

definition refuse_next ::
  "pigeon_client \<Rightarrow> pending_send \<Rightarrow> pending_send list \<Rightarrow> ('w, 'd, 'k, 't) world \<Rightarrow>
   event_label \<times> pass \<times> ('w, 'd, 'k, 't) world" where
  "refuse_next cl ps sends w =
     (case store_update cl (\<lambda>db. fail_send db (ps_txn_id ps)) w of
        (Inl e, w') \<Rightarrow> (Silent, Finished (Inl e), w')
      | (Inr _, w') \<Rightarrow> (Refusal (ps_txn_id ps), Running sends True, w'))"

fun pass_next ::
  "('w, 'd, 'g, 'k, 't) client_env \<Rightarrow> pigeon_client \<Rightarrow> pass \<Rightarrow> ('w, 'd, 'k, 't) world \<Rightarrow>
   event_label \<times> pass \<times> ('w, 'd, 'k, 't) world" where
  "pass_next env cl (Running [] changed) w = (Silent, Finished (Inr changed), w)"
| "pass_next env cl (Running (ps # sends) changed) w =
     (case plan_send env cl ps w of
        (Inl e, w1) \<Rightarrow> (Silent, Finished (Inl e), w1)
      | (Inr Held, w1) \<Rightarrow> (Silent, Running sends changed, w1)
      | (Inr Unencryptable, w1) \<Rightarrow> refuse_next cl ps sends w1
      | (Inr (Transmit event_type content), w1) \<Rightarrow>
          (case on_net (send_event (ce_server env) (cl_api cl) (ps_room_id ps) event_type
                  (ps_txn_id ps) content) w1 of
             (r, w2) \<Rightarrow> (Sent ps (event_type, content), InFlight ps r sends changed, w2)))"
| "pass_next env cl (InFlight ps (Inr event_id) sends changed) w =
     (case store_write cl (\<lambda>db. then_ok (resolve_send (ce_codec env) db (ps_txn_id ps) event_id)
             (\<lambda>db'. Inr (db', ()))) w of
        (Inl e, w') \<Rightarrow> (Silent, Finished (Inl e), w')
      | (Inr _, w') \<Rightarrow> (Acked (ps_txn_id ps), Running sends True, w'))"
| "pass_next env cl (InFlight ps (Inl err) sends changed) w =
     (if is_transient err then (Silent, Finished (Inr changed), w) else refuse_next cl ps sends w)"
| "pass_next env cl (Finished r) w = (Silent, Finished r, w)"

section \<open>The system\<close>

text \<open>What other tasks do to the store meanwhile; the rest of the world they may change at will.\<close>

inductive other_step :: "'t codec \<Rightarrow> 't db \<Rightarrow> event_label \<Rightarrow> 't db \<Rightarrow> bool" for cx where
  other_none: "other_step cx db Silent db"
| other_sync: "apply_events cx db evs = Inr (db', n) \<Longrightarrow> other_step cx db Silent db'"
| other_token: "other_step cx db Silent (save_sync_token db token)"
| other_queue: "queue_send cx db c id_ts ts room sender body = Inr (db', txn) \<Longrightarrow> other_step cx db (Queued txn) db'"
| other_decrypted: "other_step cx db Silent (set_decrypted db eid plaintext)"
| other_undecryptable: "other_step cx db Silent (set_decrypt_failed db eid)"
| other_commit: "other_step cx db Silent (set_commit_processed db eid)"

text \<open>The pass that holds \<open>send_lock\<close>, if any: \<open>None\<close> when the lock is free.\<close>

inductive sys_step ::
  "('w, 'd, 'g, 'k, 't) client_env \<Rightarrow> pigeon_client \<Rightarrow> ('w, 'd, 'k, 't) world \<times> pass option \<Rightarrow> event_label \<Rightarrow>
   ('w, 'd, 'k, 't) world \<times> pass option \<Rightarrow> bool" for env cl where
  sys_acquire: "sys_step env cl (w, None) Silent
     (w, Some (Running (pending_sends (wd_stores w (cl_store cl))) False))"
| sys_pass: "pass_next env cl p w = (l, p', w') \<Longrightarrow> sys_step env cl (w, Some p) l (w', Some p')"
| sys_release: "sys_step env cl (w, Some (Finished r)) Silent (w, None)"
| sys_other: "other_step (ce_codec env) (wd_stores w (cl_store cl)) l (wd_stores w' (cl_store cl)) \<Longrightarrow>
     sys_step env cl (w, p) l (w', p)"

inductive sys_run ::
  "('w, 'd, 'g, 'k, 't) client_env \<Rightarrow> pigeon_client \<Rightarrow> ('w, 'd, 'k, 't) world \<times> pass option \<Rightarrow> event_label list \<Rightarrow>
   ('w, 'd, 'k, 't) world \<times> pass option \<Rightarrow> bool" for env cl where
  run_nil: "sys_run env cl s [] s"
| run_step: "sys_step env cl s l s' \<Longrightarrow> sys_run env cl s' ls s'' \<Longrightarrow> sys_run env cl s (l # ls) s''"

inductive_cases sys_stepE: "sys_step env cl s l s'"
inductive_cases other_stepE: "other_step cx db l db'"
inductive_cases run_nilE: "sys_run env cl s [] s'"
inductive_cases run_consE: "sys_run env cl s (l # ls) s'"

section \<open>The queue under a pass\<close>

definition queue_txns :: "'t db \<Rightarrow> string set" where
  "queue_txns db = p_txn_id ` set (pending_sends_tab db)"

fun pass_sends :: "pass \<Rightarrow> pending_send list" where
  "pass_sends (Running sends _) = sends"
| "pass_sends (InFlight ps _ sends _) = ps # sends"
| "pass_sends (Finished _) = []"

text \<open>The messages a pass still has to handle are distinct and all still queued.\<close>

definition lock_inv :: "pigeon_client \<Rightarrow> ('w, 'd, 'k, 't) world \<times> pass option \<Rightarrow> bool" where
  "lock_inv cl s \<longleftrightarrow> (let db = wd_stores (fst s) (cl_store cl)
     in distinct (map p_txn_id (pending_sends_tab db)) \<and>
        (case snd s of None \<Rightarrow> True
         | Some p \<Rightarrow> distinct (map ps_txn_id (pass_sends p)) \<and> ps_txn_id ` set (pass_sends p) \<subseteq> queue_txns db))"

text \<open>How a label bears on the queue.\<close>

fun label_queue :: "event_label \<Rightarrow> string set \<Rightarrow> string set" where
  "label_queue (Acked t) q = q - {t}"
| "label_queue (Refusal t) q = q - {t}"
| "label_queue (Queued t) q = insert t q"
| "label_queue _ q = q"

lemma apply_events_tab: "apply_events cx db evs = Inr (db', n) \<Longrightarrow> pending_sends_tab db' = pending_sends_tab db"
  by (auto simp: apply_events_Inr foldl_apply_frame)

lemma other_step_tab:
  assumes "other_step cx db l db'" "distinct (map p_txn_id (pending_sends_tab db))"
  shows "distinct (map p_txn_id (pending_sends_tab db')) \<and> queue_txns db' = label_queue l (queue_txns db) \<and>
    queue_txns db \<subseteq> queue_txns db' \<and> (\<forall>ps out. l \<noteq> Sent ps out)"
  using assms(1)
proof cases
  case (other_queue c id_ts ts room sender body txn)
  then show ?thesis
    using assms(2) by (auto simp: queue_send_Inr Let_def queue_txns_def has_key_iff)
qed (use assms(2) in \<open>auto simp: queue_txns_def apply_events_tab save_sync_token_def set_decrypted_def
    set_decrypt_failed_def set_commit_processed_def\<close>)

lemma refuse_next_run:
  "refuse_next cl ps sends w = (Refusal (ps_txn_id ps), Running sends True,
     w\<lparr>wd_stores := (wd_stores w)(cl_store cl := fail_send (wd_stores w (cl_store cl)) (ps_txn_id ps))\<rparr>)"
  by (simp add: refuse_next_def store_update_def store_write_def)

lemma fail_send_tab: "pending_sends_tab (fail_send db txn) = filter (\<lambda>p. p_txn_id p \<noteq> txn) (pending_sends_tab db)"
  by (simp add: fail_send_def dequeue_def split: option.split)

lemma distinct_key_filter: "distinct (map f xs) \<Longrightarrow> distinct (map f (filter P xs))"
  by (induction xs) auto

text \<open>One step of a pass: the invariant, the queue, and what may be transmitted.\<close>

definition pass_step_ok ::
  "('w, 'd, 'g, 'k, 't) client_env \<Rightarrow> pigeon_client \<Rightarrow> ('w, 'd, 'k, 't) world \<Rightarrow> event_label \<Rightarrow> ('w, 'd, 'k, 't) world \<times> pass option \<Rightarrow> bool" where
  "pass_step_ok env cl w l s' \<longleftrightarrow> (let db = wd_stores w (cl_store cl); db' = wd_stores (fst s') (cl_store cl)
     in lock_inv cl s' \<and> queue_txns db' = label_queue l (queue_txns db) \<and>
        (\<forall>ps out. l = Sent ps out \<longrightarrow> ps_txn_id ps \<in> queue_txns db \<and>
           may_transmit (ce_crypto env) (vt_device (wd_vault w)) db ps out))"

lemma leave_queue_ok:
  assumes "lock_inv cl (w, Some (InFlight ps r sends changed)) \<or> lock_inv cl (w, Some (Running (ps # sends) changed))"
    and "pending_sends_tab (wd_stores w' (cl_store cl)) =
      filter (\<lambda>p. p_txn_id p \<noteq> ps_txn_id ps) (pending_sends_tab (wd_stores w (cl_store cl)))"
    and "l = Acked (ps_txn_id ps) \<or> l = Refusal (ps_txn_id ps)"
  shows "pass_step_ok env cl w l (w', Some (Running sends True))"
proof -
  let ?db = "wd_stores w (cl_store cl)" and ?db' = "wd_stores w' (cl_store cl)"
  have q: "queue_txns ?db' = queue_txns ?db - {ps_txn_id ps}"
    using assms(2) by (auto simp: queue_txns_def)
  have "distinct (map p_txn_id (pending_sends_tab ?db)) \<and> distinct (map ps_txn_id (ps # sends)) \<and>
      ps_txn_id ` set (ps # sends) \<subseteq> queue_txns ?db"
    using assms(1) unfolding lock_inv_def Let_def fst_conv snd_conv option.case pass_sends.simps by blast
  then have d: "distinct (map p_txn_id (pending_sends_tab ?db))" "distinct (map ps_txn_id sends)"
      "ps_txn_id ps \<notin> ps_txn_id ` set sends" "ps_txn_id ` set sends \<subseteq> queue_txns ?db"
    by simp_all
  then have "ps_txn_id ` set sends \<subseteq> queue_txns ?db'" unfolding q by blast
  moreover have "distinct (map p_txn_id (pending_sends_tab ?db'))"
    unfolding assms(2) by (rule distinct_key_filter [OF d(1)])
  ultimately have "lock_inv cl (w', Some (Running sends True))"
    using d(2) by (simp add: lock_inv_def Let_def)
  then show ?thesis
    using assms(3) unfolding pass_step_ok_def Let_def fst_conv by (elim disjE) (simp_all add: q)
qed

lemma same_queue_ok:
  assumes "lock_inv cl (w, Some p)" "wd_stores w' = wd_stores w" "set (pass_sends p') \<subseteq> set (pass_sends p)"
    and "distinct (map ps_txn_id (pass_sends p'))" "l = Silent"
  shows "pass_step_ok env cl w l (w', Some p')"
  using assms by (auto simp: pass_step_ok_def lock_inv_def Let_def)

lemma pass_running_ok:
  assumes "lock_inv cl (w, Some (Running (ps # rest) changed))"
    and "pass_next env cl (Running (ps # rest) changed) w = (l, p', w')"
  shows "pass_step_ok env cl w l (w', Some p')"
proof -
  obtain plan w1 where plan: "plan_send env cl ps w = (Inr plan, w1)" using plan_send_run by metis
  note frame = plan_frame [OF plan]
  show ?thesis
  proof (cases plan)
    case Held
    then show ?thesis
      using assms plan frame by (intro same_queue_ok [OF assms(1)]) (auto simp: lock_inv_def Let_def)
  next
    case Unencryptable
    then have "l = Refusal (ps_txn_id ps)" "p' = Running rest True"
        "wd_stores w' = (wd_stores w)(cl_store cl := fail_send (wd_stores w (cl_store cl)) (ps_txn_id ps))"
      using assms(2) plan frame by (auto simp: refuse_next_run)
    then show ?thesis
      using assms(1) leave_queue_ok [of cl w ps _ rest changed w'] by (auto simp: fail_send_tab)
  next
    case (Transmit ty content)
    obtain r w2 where sent: "on_net (send_event (ce_server env) (cl_api cl) (ps_room_id ps) ty (ps_txn_id ps) content) w1
        = (r, w2)" by fastforce
    have st: "wd_stores w2 = wd_stores w" using send_event_log [OF sent] frame by simp
    have leaves: "leaves (ce_crypto env) (wd_stores w (cl_store cl)) ps (vt_device (wd_vault w)) (ty, content)
        (vt_device (wd_vault w1))"
      using frame(3) by (simp add: planned_def Transmit)
    have "l = Sent ps (ty, content)" "p' = InFlight ps r rest changed" "w' = w2"
      using assms(2) plan sent by (auto simp: Transmit)
    then show ?thesis
      using assms(1) leaves st by (auto simp: pass_step_ok_def lock_inv_def Let_def may_transmit_def)
  qed
qed

lemma pass_in_flight_ok:
  assumes "lock_inv cl (w, Some (InFlight ps r sends changed))"
    and "pass_next env cl (InFlight ps r sends changed) w = (l, p', w')"
  shows "pass_step_ok env cl w l (w', Some p')"
proof (cases r)
  case (Inl err)
  show ?thesis
  proof (cases "is_transient err")
    case True
    then show ?thesis using assms by (intro same_queue_ok [OF assms(1)]) (auto simp: Inl)
  next
    case False
    then have "l = Refusal (ps_txn_id ps)" "p' = Running sends True"
        "wd_stores w' = (wd_stores w)(cl_store cl := fail_send (wd_stores w (cl_store cl)) (ps_txn_id ps))"
      using assms(2) by (auto simp: Inl refuse_next_run)
    then show ?thesis
      using assms(1) leave_queue_ok [of cl w ps r sends changed w'] by (auto simp: fail_send_tab)
  qed
next
  case (Inr eid)
  show ?thesis
  proof (cases "resolve_send (ce_codec env) (wd_stores w (cl_store cl)) (ps_txn_id ps) eid")
    case (Inl e)
    then have "l = Silent" "p' = Finished (Inl (core_of_store e))" "w' = w"
      using assms(2) by (auto simp: \<open>r = Inr eid\<close> store_write_def)
    then show ?thesis by (intro same_queue_ok [OF assms(1)]) auto
  next
    case (Inr db')
    then have "l = Acked (ps_txn_id ps)" "p' = Running sends True" "wd_stores w' = (wd_stores w)(cl_store cl := db')"
      using assms(2) by (auto simp: \<open>r = Inr eid\<close> store_write_def)
    then show ?thesis
      using assms(1) leave_queue_ok [of cl w ps r sends changed w'] resolve_send_queue [OF Inr] by auto
  qed
qed

lemma pass_next_ok:
  assumes "lock_inv cl (w, Some p)" "pass_next env cl p w = (l, p', w')"
  shows "pass_step_ok env cl w l (w', Some p')"
proof (cases p)
  case (Running sends changed)
  show ?thesis
  proof (cases sends)
    case Nil
    then show ?thesis using assms Running by (intro same_queue_ok [OF assms(1)]) auto
  next
    case (Cons ps rest)
    then show ?thesis using assms unfolding Running by (intro pass_running_ok) simp_all
  qed
next
  case (InFlight ps r sends changed)
  then show ?thesis using assms pass_in_flight_ok by blast
next
  case (Finished r)
  then show ?thesis using assms by (intro same_queue_ok [OF assms(1)]) auto
qed

section \<open>Runs\<close>

lemma sys_step_ok:
  assumes "sys_step env cl s l s'" "lock_inv cl s"
  shows "lock_inv cl s' \<and>
    queue_txns (wd_stores (fst s') (cl_store cl)) = label_queue l (queue_txns (wd_stores (fst s) (cl_store cl))) \<and>
    (\<forall>ps out. l = Sent ps out \<longrightarrow> ps_txn_id ps \<in> queue_txns (wd_stores (fst s) (cl_store cl)) \<and>
       may_transmit (ce_crypto env) (vt_device (wd_vault (fst s))) (wd_stores (fst s) (cl_store cl)) ps out)"
  using assms(1)
proof cases
  case (sys_acquire w)
  let ?db = "wd_stores w (cl_store cl)"
  have m: "map ps_txn_id (pending_sends ?db) =
      map p_txn_id (sort_key (\<lambda>p. (p_created_ts p, p_txn_id p)) (pending_sends_tab ?db))"
    by (simp add: pending_sends_def send_of_row_def comp_def)
  have "distinct (map p_txn_id (pending_sends_tab ?db))"
    using assms(2) sys_acquire by (simp add: lock_inv_def Let_def)
  then have "distinct (map ps_txn_id (pending_sends ?db))" unfolding m by (simp add: distinct_map)
  moreover have "ps_txn_id ` set (pending_sends ?db) = queue_txns ?db"
    by (simp add: pending_sends_def send_of_row_def image_image queue_txns_def)
  ultimately show ?thesis using assms(2) sys_acquire by (simp add: lock_inv_def Let_def)
next
  case (sys_pass p w p' w')
  then show ?thesis using pass_next_ok [of cl w p env l p' w'] assms(2) by (simp add: pass_step_ok_def Let_def)
next
  case (sys_release w r)
  then show ?thesis using assms(2) by (simp add: lock_inv_def Let_def)
next
  case (sys_other w w' p)
  have "distinct (map p_txn_id (pending_sends_tab (wd_stores w (cl_store cl))))"
    using assms(2) sys_other by (simp add: lock_inv_def Let_def)
  note tab = other_step_tab [OF sys_other(3) this]
  then show ?thesis using assms(2) sys_other by (auto simp: lock_inv_def Let_def split: option.splits)
qed

lemma unqueued_stays_silent:
  "sys_run env cl s ls s' \<Longrightarrow> lock_inv cl s \<Longrightarrow> t \<notin> queue_txns (wd_stores (fst s) (cl_store cl)) \<Longrightarrow>
     Queued t \<notin> set ls \<Longrightarrow> Sent ps out \<in> set ls \<Longrightarrow> ps_txn_id ps \<noteq> t"
proof (induction rule: sys_run.induct)
  case (run_step s l s' ls s'')
  note ok = sys_step_ok [OF run_step.hyps(1) run_step.prems(1)]
  have "t \<notin> queue_txns (wd_stores (fst s') (cl_store cl))"
    using ok run_step.prems(2,3) by (cases l) auto
  then have "Sent ps out \<in> set ls \<Longrightarrow> ps_txn_id ps \<noteq> t" using ok run_step.IH run_step.prems by auto
  moreover have "Sent ps out = l \<Longrightarrow> ps_txn_id ps \<noteq> t" using ok run_step.prems(2) by metis
  moreover have "Sent ps out = l \<or> Sent ps out \<in> set ls" using run_step.prems(4) by simp
  ultimately show ?case by blast
qed simp

lemma run_split:
  "sys_run env cl s (as @ bs) s'' \<Longrightarrow> \<exists>s'. sys_run env cl s as s' \<and> sys_run env cl s' bs s''"
proof (induction as arbitrary: s)
  case Nil
  then show ?case by (intro exI [of _ s] conjI) (rule run_nil, simp)
next
  case (Cons a as)
  then show ?case by (fastforce elim: run_consE intro: run_step)
qed

lemma run_inv: "sys_run env cl s ls s' \<Longrightarrow> lock_inv cl s \<Longrightarrow> lock_inv cl s'"
  by (induction rule: sys_run.induct) (auto dest: sys_step_ok)

text \<open>
  C10: Overlapping flush passes do not repeat a message: in any interleaving of passes with the rest of
  the client, once a message has been acknowledged or refused it is not transmitted again, as long as
  no message is queued under its transaction id anew.
\<close>

theorem overlapping_passes_send_once:
  assumes "db_inv cx (wd_stores w (cl_store cl))"
    and "sys_run env cl (w, None) (before @ settled_label # between) s"
    and "settled_label = Acked t \<or> settled_label = Refusal t" "Queued t \<notin> set between"
  shows "\<forall>ps out. Sent ps out \<in> set between \<longrightarrow> ps_txn_id ps \<noteq> t"
proof (intro allI impI)
  fix ps out assume sent: "Sent ps out \<in> set between"
  have "lock_inv cl (w, None)" using assms(1) by (simp add: lock_inv_def db_inv_def keys_inv_def)
  moreover obtain s1 where s1: "sys_run env cl (w, None) before s1" "sys_run env cl s1 (settled_label # between) s"
    using run_split [OF assms(2)] by blast
  ultimately have i1: "lock_inv cl s1" using run_inv by blast
  obtain s2 where s2: "sys_step env cl s1 settled_label s2" "sys_run env cl s2 between s"
    using s1(2) by (auto elim: run_consE)
  note ok = sys_step_ok [OF s2(1) i1]
  then have "t \<notin> queue_txns (wd_stores (fst s2) (cl_store cl))" using assms(3) by auto
  then show "ps_txn_id ps \<noteq> t" using unqueued_stays_silent [OF s2(2)] ok assms(4) sent by blast
qed

lemma run_passes:
  "pass_next env cl p w = (l, p', w') \<Longrightarrow> sys_run env cl (w', Some p') ls s \<Longrightarrow> sys_run env cl (w, Some p) (l # ls) s"
  by (rule run_step [OF sys_pass])

theorem overlapping_passes_send_once_witness:
  "\<exists>out s. sys_run (toy_env accept_server) toy_client (toy_world None db_sent, None)
       ([Silent, Sent (hd (pending_sends db_sent)) out] @ Acked ''m7-1'' # [Silent]) s \<and>
     (\<forall>ps out. Sent ps out \<in> set [Silent] \<longrightarrow> ps_txn_id ps \<noteq> ''m7-1'')"
proof -
  let ?env = "toy_env accept_server" and ?w = "toy_world None db_sent"
  let ?x = "pass_next ?env toy_client (Running (pending_sends db_sent) False) ?w"
  let ?y = "pass_next ?env toy_client (fst (snd ?x)) (snd (snd ?x))"
  let ?z = "pass_next ?env toy_client (fst (snd ?y)) (snd (snd ?y))"
  have "case fst ?x of Sent ps out \<Rightarrow> ps = hd (pending_sends db_sent) | _ \<Rightarrow> False" by code_simp
  then obtain out where x: "fst ?x = Sent (hd (pending_sends db_sent)) out" by (auto split: event_label.splits)
  have y: "fst ?y = Acked ''m7-1''" by code_simp
  have z: "fst ?z = Silent" by code_simp
  have st: "wd_stores ?w (cl_store toy_client) = db_sent" by (simp add: toy_world_def)
  have "sys_run ?env toy_client (snd (snd ?x), Some (fst (snd ?x))) [Acked ''m7-1'', Silent]
      (snd (snd ?z), Some (fst (snd ?z)))"
    by (rule run_passes, rule prod_eqI, simp only: y fst_conv, simp only: snd_conv, rule surjective_pairing,
        rule run_passes, rule prod_eqI, simp only: z fst_conv, simp only: snd_conv, rule surjective_pairing, rule run_nil)
  then have "sys_run ?env toy_client (?w, Some (Running (pending_sends db_sent) False))
      [Sent (hd (pending_sends db_sent)) out, Acked ''m7-1'', Silent] (snd (snd ?z), Some (fst (snd ?z)))"
    by (rule run_passes [rotated]) (simp only: x [symmetric] prod.collapse)
  then have r: "sys_run ?env toy_client (?w, None) ([Silent, Sent (hd (pending_sends db_sent)) out] @ Acked ''m7-1'' # [Silent])
      (snd (snd ?z), Some (fst (snd ?z)))"
    using run_step [OF sys_acquire [of ?env toy_client ?w]] st by simp
  have "db_inv id_codec (wd_stores ?w (cl_store toy_client))"
    unfolding st by (rule reachable_inv [OF reach_db_sent])
  from overlapping_passes_send_once [OF this r] have
      "\<forall>ps out. Sent ps out \<in> set [Silent] \<longrightarrow> ps_txn_id ps \<noteq> ''m7-1''" by simp
  with r show ?thesis by blast
qed

section \<open>The method is the uninterrupted pass\<close>

text \<open>The first \<open>n\<close> steps of a pass with nothing in between.\<close>

fun pass_run ::
  "('w, 'd, 'g, 'k, 't) client_env \<Rightarrow> pigeon_client \<Rightarrow> nat \<Rightarrow> pass \<Rightarrow> ('w, 'd, 'k, 't) world \<Rightarrow>
   pass \<times> ('w, 'd, 'k, 't) world" where
  "pass_run env cl 0 p w = (p, w)"
| "pass_run env cl (Suc n) p w = (case pass_next env cl p w of (_, p', w') \<Rightarrow> pass_run env cl n p' w')"

lemma pass_run_finished [simp]: "pass_run env cl n (Finished r) w = (Finished r, w)"
  by (induction n) simp_all

text \<open>Such a run is one of the system's, from the free lock on.\<close>

lemma pass_run_is_sys_run: "\<exists>ls. sys_run env cl (w, Some p) ls (snd (pass_run env cl n p w), Some (fst (pass_run env cl n p w)))"
proof (induction n arbitrary: p w)
  case 0
  then show ?case by (intro exI [of _ "[]"]) (simp add: run_nil)
next
  case (Suc n)
  obtain l p' w' where s: "pass_next env cl p w = (l, p', w')" using prod_cases3 by blast
  obtain ls where "sys_run env cl (w', Some p') ls (snd (pass_run env cl n p' w'), Some (fst (pass_run env cl n p' w')))"
    using Suc.IH by blast
  from run_passes [OF s this] show ?case using s by auto
qed

lemma pass_run_step:
  assumes "pass_next env cl p w = (l, p', w')" "k < n" "\<And>m. k \<le> m \<Longrightarrow> pass_run env cl m p' w' = s"
  shows "pass_run env cl n p w = s"
  using assms(1,2) assms(3) [of "n - 1"] by (cases n) simp_all

text \<open>At most two steps per message, and one to finish.\<close>

lemma loop_run:
  "flush_loop env cl sends changed w = (r, w') \<Longrightarrow> 2 * length sends < n \<Longrightarrow>
     pass_run env cl n (Running sends changed) w = (Finished r, w')"
proof (induction sends arbitrary: changed w n)
  case Nil
  then show ?case by (cases n) (simp_all add: ret_def)
next
  case (Cons ps sends)
  let ?k = "2 * length sends"
  have rest: "pass_run env cl m p w2 = (Finished r, w')"
    if "pass_next env cl p w2 = (l, Running sends c, w3)" "flush_loop env cl sends c w3 = (r, w')" "Suc ?k < m" for p w2 l c w3 m
    using Cons.IH [OF that(2)] that(3) by (intro pass_run_step [OF that(1), of "Suc ?k"]) simp_all
  have stop: "pass_run env cl m p w2 = (Finished r, w')"
    if "pass_next env cl p w2 = (l, Finished r, w')" "Suc ?k < m" for p w2 l m
    using that(2) by (intro pass_run_step [OF that(1), of "Suc ?k"]) simp_all
  have first: "pass_run env cl n (Running (ps # sends) changed) w = (Finished r, w')"
    if "plan_send env cl ps w = (Inr (Transmit ty content), w1)"
      "on_net (send_event (ce_server env) (cl_api cl) (ps_room_id ps) ty (ps_txn_id ps) content) w1 = (s, w2)"
      "\<And>m. Suc ?k < m \<Longrightarrow> pass_run env cl m (InFlight ps s sends changed) w2 = (Finished r, w')" for ty content w1 s w2
  proof -
    have "pass_next env cl (Running (ps # sends) changed) w = (Sent ps (ty, content), InFlight ps s sends changed, w2)"
      using that(1,2) by simp
    from pass_run_step [OF this, of "Suc (Suc ?k)" n] that(3) Cons.prems(2) show ?thesis by simp
  qed
  have n: "Suc ?k < n" using Cons.prems(2) by simp
  from Cons.prems(1) show ?case
  proof (cases rule: flush_loop_ConsE)
    case (held w1)
    then show ?thesis by (intro rest [OF _ _ n, of _ _ Silent changed w1]) simp_all
  next
    case (unencryptable w1)
    then show ?thesis by (intro rest [OF _ _ n, of _ _ _ True]) (simp_all add: refuse_next_run put_db_def)
  next
    case (lost ty content err w1)
    then show ?thesis by (intro first [OF lost(1,2)] stop [of _ _ Silent]) simp_all
  next
    case (refused ty content err w1 w2)
    then show ?thesis
      by (intro first [OF refused(1,2)] rest [of _ _ _ True]) (simp_all add: refuse_next_run put_db_def)
  next
    case (unstored ty content eid e w1)
    then show ?thesis by (intro first [OF unstored(1,2)] stop [of _ _ Silent]) (simp_all add: store_write_def)
  next
    case (acked ty content eid db w1 w2)
    then show ?thesis
      by (intro first [OF acked(1,2)] rest [of _ _ _ True]) (simp_all add: store_write_def put_db_def)
  qed
qed

text \<open>
  C33: Run without interruption, the machine is the method: a pass that starts from the queue is finished
  after two steps per message and one more, with exactly the result and the whole world (network,
  device, stores, log) of \<open>flush_pending\<close>, and stays there.
\<close>

theorem flush_is_a_schedule:
  assumes "2 * length (pending_sends (wd_stores w (cl_store cl))) < n"
  shows "pass_run env cl n (Running (pending_sends (wd_stores w (cl_store cl))) False) w =
    (Finished (fst (flush_pending env cl w)), snd (flush_pending env cl w))"
proof -
  let ?run = "flush_loop env cl (pending_sends (wd_stores w (cl_store cl))) False w"
  have "flush_pending env cl w = ?run" by (simp add: flush_pending_def bnd_def store_read_def)
  then show ?thesis using loop_run [OF surjective_pairing [of ?run] assms] by simp
qed

theorem flush_is_a_schedule_witness:
  "pass_run (toy_env accept_server) toy_client 3 (Running (pending_sends db_sent) False) (toy_world None db_sent) =
     (Finished (Inr True), snd (flush_pending (toy_env accept_server) toy_client (toy_world None db_sent)))"
proof -
  have st: "wd_stores (toy_world None db_sent) (cl_store toy_client) = db_sent" by (simp add: toy_world_def)
  have "2 * length (pending_sends db_sent) < 3" by code_simp
  from flush_is_a_schedule [of "toy_world None db_sent" toy_client 3 "toy_env accept_server", unfolded st, OF this]
  show ?thesis by (simp only: accept_flush)
qed

end
