(* ===== verification/Host.thy ===== *)
theory Host
  imports Sync Migrate_Spec
begin

text \<open>
  What the host application calls besides the methods of a client: installing the log sink, the key
  store and the data directory (\<open>lib.rs\<close>, \<open>session.rs\<close>), opening a store (\<open>store.rs\<close>), the session's
  identity, and the self tests of \<open>lib.rs\<close>.  The three statics the host sets are the sink and the
  vault's key store of the world, and the data directory of the environment.
\<close>

section \<open>Set once at startup\<close>

text \<open>The sink is the list of records it has received, so a sink is installed with what it already has.\<close>

definition set_log_sink :: "log_record list \<Rightarrow> (('w, 'd, 'k, 't) world, 'e, unit) act" where
  "set_log_sink sink = modA (\<lambda>w. w\<lparr>wd_sink := Some sink\<rparr>)"

definition set_key_store :: "'k \<Rightarrow> (('w, 'd, 'k, 't) world, 'e, unit) act" where
  "set_key_store k = modA (\<lambda>w. w\<lparr>wd_vault := (wd_vault w)\<lparr>vt_keys := Some k\<rparr>\<rparr>)"

definition set_store_dir :: "string \<Rightarrow> ('w, 'd, 'g, 'k, 't) client_env \<Rightarrow> ('w, 'd, 'g, 'k, 't) client_env" where
  "set_store_dir dir env = env\<lparr>ce_store_dir := Some dir\<rparr>"

section \<open>Opening a store\<close>

text \<open>
  The database files by path.  \<open>Connection::open\<close> refuses a path or opens its file, created if absent;
  an in-memory database always keeps the journal mode \<open>memory\<close>.
\<close>

type_synonym disk = "string \<Rightarrow> sqlite_file option"

definition store_open :: "(string \<Rightarrow> string option) \<Rightarrow> string \<Rightarrow> (disk, store_error, unit) act" where
  "store_open refused path = (\<lambda>disk.
     (case refused path of
        Some e \<Rightarrow> (Inl (Db e), disk)
      | None \<Rightarrow>
          (case store_init (case disk path of None \<Rightarrow> empty_file | Some f \<Rightarrow> f) of
             (r, f) \<Rightarrow> (map_err Db r, disk(path := Some f)))))"

definition open_in_memory :: "string option \<Rightarrow> store_error + sqlite_file" where
  "open_in_memory refused =
     (case refused of
        Some e \<Rightarrow> Inl (Db e)
      | None \<Rightarrow>
          (case store_init empty_file of
             (Inl e, f) \<Rightarrow> Inl (Db e)
           | (Inr _, f) \<Rightarrow> Inr (f\<lparr>sf_journal := ''memory''\<rparr>)))"

section \<open>The client's identity\<close>

definition client_session :: "pigeon_client \<Rightarrow> session" where
  "client_session cl = cl_session cl"

section \<open>Self tests\<close>

definition emit_test_log :: "string \<Rightarrow> (('w, 'd, 'k, 't) world, 'e, unit) act" where
  "emit_test_log message = log_emit LInfo ''pigeon_mobile_core'' message"

definition CARGO_PKG_VERSION :: string where "CARGO_PKG_VERSION = ''0.1.0''"

definition core_version :: string where
  "core_version = ''pigeon-mobile-core '' @ CARGO_PKG_VERSION"

definition self_test_crypto ::
  "('w, 'd, 'g, 'k, 't) client_env \<Rightarrow> string \<Rightarrow> ('w, 'd, 'k, 't, 32 word) client_act" where
  "self_test_crypto env user_id =
     on_vault (bnd draw (\<lambda>seed.
       bnd (lift_res (map_err core_of_crypto (m_new (env_mls (ce_crypto env)) seed user_id))) (\<lambda>device.
       ret (word_of_nat (length (m_pubkey (env_mls (ce_crypto env)) device))))))"

section \<open>Opening and reopening\<close>

definition same_connection :: "sqlite_file \<Rightarrow> sqlite_file \<Rightarrow> bool" where
  "same_connection f f' \<longleftrightarrow> sf_journal f' = sf_journal f \<and> sf_foreign_keys f' = sf_foreign_keys f"

interpretation connection: step_rel same_connection
  by unfold_locales (auto simp: same_connection_def)

lemmas connection_rules = connection.keeps_bnd connection.keeps_pure connection.keeps_forA

lemma migrate_connection: "keeps same_connection migrate"
proof -
  have "keeps same_connection (exec_stmt st)" for st
    by (cases st) (auto simp: keeps_def same_connection_def put_table_def split: if_splits option.splits)
  then show ?thesis
    unfolding migrate_def execute_batch_def Let_def
    by (auto intro!: connection_rules simp: keeps_def [of _ "modA _"] same_connection_def)
qed

lemma store_init_pragmas:
  assumes "store_init f = (r, f')"
  shows "sf_journal f' = ''WAL'' \<and> sf_foreign_keys f'"
  using assms migrate_connection by (auto simp: store_init_def keeps_def same_connection_def)

lemma migrate_current: "schema_at 3 f \<Longrightarrow> migrate f = (Inr (), f)"
  by (simp add: migrate_def schema_at_def SCHEMA_VERSION_def)

lemma store_init_current:
  assumes "store_init f = (r, f')" "schema_at 3 f'"
  shows "store_init f' = (Inr (), f')"
proof -
  have "f'\<lparr>sf_journal := ''WAL'', sf_foreign_keys := True\<rparr> = f'"
    using store_init_pragmas [OF assms(1)] by simp
  then show ?thesis
    using migrate_current [OF assms(2)] by (simp add: store_init_def)
qed

lemma store_init_schema:
  assumes "v \<in> {0, 1, 2, 3}" "schema_at v f"
  obtains f' where "store_init f = (Inr (), f')" "schema_at 3 f'"
proof -
  let ?f = "f\<lparr>sf_journal := ''WAL'', sf_foreign_keys := True\<rparr>"
  have s: "schema_at v ?f" "store_init f = migrate ?f"
    using assms(2) by (simp_all add: schema_at_def store_init_def)
  show thesis
    using assms(1) migrate_v0 [of ?f] migrate_v1 [of ?f] migrate_v2 [of ?f] migrate_current [of ?f] s that
    by auto
qed

text \<open>
  Opening a store is idempotent and touches its own file only. Where no file exists, or one of any
  released schema version, the open succeeds; every later open succeeds too and leaves every byte of
  every file as it is. A path the system refuses is a storage error that changes nothing.
\<close>

theorem store_open_idempotent:
  assumes "refused path = None" "\<forall>f. disk path = Some f \<longrightarrow> (\<exists>v\<in>{0, 1, 2, 3}. schema_at v f)"
  shows "\<exists>f. store_open refused path disk = (Inr (), disk(path := Some f)) \<and> schema_at 3 f \<and>
    store_open refused path (disk(path := Some f)) = (Inr (), disk(path := Some f)) \<and>
    (\<forall>other e. refused other = Some e \<longrightarrow> store_open refused other disk = (Inl (Db e), disk))"
proof -
  let ?f = "case disk path of None \<Rightarrow> empty_file | Some f \<Rightarrow> f"
  have "schema_at 0 empty_file" by (simp add: empty_file_def schema_at_def tables_at_def indexes_at_def)
  then have "\<exists>v\<in>{0, 1, 2, 3}. schema_at v ?f"
    using assms(2) by (cases "disk path") simp_all
  then obtain v where "v \<in> {0, 1, 2, 3}" "schema_at v ?f" by blast
  then obtain f' where f': "store_init ?f = (Inr (), f')" "schema_at 3 f'"
    by (rule store_init_schema)
  then have "store_init f' = (Inr (), f')" by (rule store_init_current)
  with f' show ?thesis
    using assms(1) by (intro exI [of _ f']) (simp add: store_open_def)
qed

theorem store_open_idempotent_witness:
  "\<exists>f. store_open (\<lambda>p. None) ''d/pigeon.sqlite3'' (\<lambda>p. None) = (Inr (), (\<lambda>p. None)(''d/pigeon.sqlite3'' := Some f)) \<and>
     store_open (\<lambda>p. None) ''d/pigeon.sqlite3'' ((\<lambda>p. None)(''d/pigeon.sqlite3'' := Some f)) =
       (Inr (), (\<lambda>p. None)(''d/pigeon.sqlite3'' := Some f))"
  using store_open_idempotent [of "\<lambda>p. None" "''d/pigeon.sqlite3''" "\<lambda>p. None"] by auto

text \<open>
  A file of a later schema version is not refused: it is opened as it is, and its version is set back
  to the current one, so the later program would run its own migration again.
\<close>

theorem newer_schema_relabelled:
  assumes "3 < sf_version f"
  shows "store_init f = (Inr (), f\<lparr>sf_journal := ''WAL'', sf_foreign_keys := True, sf_version := 3\<rparr>)"
  using assms by (simp add: store_init_def migrate_def SCHEMA_VERSION_def)

end
