(* ===== verification/Restart.thy ===== *)
theory Restart
  imports Client_Inv Host
begin

text \<open>
  The end of the process and the next launch.  Nothing but the key store and the database files
  outlives a process; the theorem of this theory says that this is enough: whatever a client has done
  since its login, the session restored by the next process continues exactly where it stopped.
\<close>

section \<open>What the code relies on\<close>

text \<open>
  A key store that works: reading changes nothing, a value that was put is returned, and other
  entries stay.  An MLS operation that fails leaves the device as it was, and its state can be exported.
\<close>

definition durable_key_store :: "'k key_store \<Rightarrow> bool" where
  "durable_key_store ks \<longleftrightarrow>
     (\<forall>key k. snd (kp_get ks key k) = k) \<and>
     (\<forall>key v k. \<exists>k'. kp_put ks key v k = (Inr (), k') \<and> fst (kp_get ks key k') = Inr (Some v) \<and>
        (\<forall>other. other \<noteq> key \<longrightarrow> fst (kp_get ks other k') = fst (kp_get ks other k)))"

definition steady :: "('d \<Rightarrow> (string + 'a) \<times> 'd) \<Rightarrow> bool" where
  "steady f \<longleftrightarrow> (\<forall>d e d'. f d = (Inl e, d') \<longrightarrow> d' = d)"

definition steady_mls :: "('d, 'g) mls \<Rightarrow> bool" where
  "steady_mls m \<longleftrightarrow> (\<forall>d. \<exists>blob. m_export m d = Inr blob) \<and>
     (\<forall>n. steady (m_key_packages m n)) \<and> steady (m_last_resort m) \<and> (\<forall>g. steady (m_create_group m g)) \<and>
     (\<forall>g kp. steady (m_add_member m g kp)) \<and> (\<forall>g c. steady (m_process_commit m g c)) \<and>
     (\<forall>w. steady (m_join m w)) \<and> (\<forall>g p. steady (m_encrypt m g p)) \<and> (\<forall>g c. steady (m_decrypt m g c))"

definition reliable :: "('d, 'g, 'k) crypto_env \<Rightarrow> string \<Rightarrow> bool" where
  "reliable env user \<longleftrightarrow>
     crypto_laws env user \<and> durable_key_store (env_ks env) \<and> steady_mls (env_mls env)"

lemma toy_reliable: "reliable toy_crypto user"
proof -
  have "durable_key_store toy_ks" by (auto simp: durable_key_store_def toy_ks_def)
  moreover have "steady_mls toy_mls" by (simp add: steady_mls_def steady_def toy_mls_def)
  ultimately show ?thesis by (simp add: reliable_def toy_crypto_laws) (simp add: toy_crypto_def)
qed

section \<open>What the key store holds\<close>

definition session_kept :: "('d, 'g, 'k) crypto_env \<Rightarrow> session \<Rightarrow> string \<Rightarrow> ('d, 'k) vault \<Rightarrow> bool" where
  "session_kept env s token v \<longleftrightarrow>
     (\<exists>k. vt_keys v = Some k \<and>
        fst (kp_get (env_ks env) SESSION_KEY k) = Inr (Some (encode_session (env_json env) s token)))"

definition engine_saved :: "('d, 'g, 'k) crypto_env \<Rightarrow> string \<Rightarrow> ('d, 'k) vault \<Rightarrow> bool" where
  "engine_saved env user v \<longleftrightarrow>
     (\<forall>d. vt_device v = Some d \<longrightarrow> fst (e2ee_restore env user v) = Inr (Some d))"

definition resumable :: "('d, 'g, 'k) crypto_env \<Rightarrow> session \<Rightarrow> string \<Rightarrow> ('d, 'k) vault \<Rightarrow> bool" where
  "resumable env s token v \<longleftrightarrow> session_kept env s token v \<and> engine_saved env (ss_user_id s) v"

definition lasts ::
  "('d, 'g, 'k) crypto_env \<Rightarrow> session \<Rightarrow> string \<Rightarrow> ('d, 'k) vault \<Rightarrow> ('d, 'k) vault \<Rightarrow> bool" where
  "lasts env s token v v' \<longleftrightarrow> (resumable env s token v \<longrightarrow> resumable env s token v')"

interpretation lasting: step_rel "lasts env s token" for env s token
  by unfold_locales (auto simp: lasts_def)

lemma restore_reads_keys:
  assumes "durable_key_store (env_ks env)"
  shows "fst (e2ee_restore env user v) =
      (case vt_keys v of None \<Rightarrow> Inr None
       | Some k \<Rightarrow> fst (e2ee_restore env user \<lparr> vt_device = None, vt_keys = Some k, vt_seed = 0 \<rparr>))"
  by (auto simp: e2ee_restore_def ks_get_def ks_call_def bnd_def split: option.splits sum.splits prod.splits)

text \<open>Changes of the vault that the key store does not see.\<close>

lemma resumable_frame:
  assumes "durable_key_store (env_ks env)" "vt_keys v' = vt_keys v" "vt_device v' = vt_device v"
  shows "resumable env s token v' \<longleftrightarrow> resumable env s token v"
  using restore_reads_keys [OF assms(1), of "ss_user_id s" v] restore_reads_keys [OF assms(1), of "ss_user_id s" v'] assms(2,3)
  by (simp add: resumable_def session_kept_def engine_saved_def)

lemma ks_get_stays: "durable_key_store (env_ks env) \<Longrightarrow> snd (ks_get env key v) = v"
  by (cases "vt_keys v") (auto simp: ks_get_def ks_call_def bnd_def durable_key_store_def
      split: prod.split sum.split, (metis snd_conv vault.surjective vault.update_convs(2))+)

lemma lasting_frame:
  assumes "durable_key_store (env_ks env)" "\<And>v. vt_keys (snd (m v)) = vt_keys v \<and> vt_device (snd (m v)) = vt_device v"
  shows "keeps (lasts env s token) m"
  unfolding keeps_def lasts_def using resumable_frame [OF assms(1)] assms(2) by (metis snd_conv)

lemma lasting_reads:
  assumes "durable_key_store (env_ks env)"
  shows "keeps (lasts env s token) the_device" "keeps (lasts env s token) draw"
    "keeps (lasts env s token) (has_group env room)" "keeps (lasts env s token) (signature_public_key_b64 env)"
  by (rule lasting_frame [OF assms],
      simp add: the_device_def draw_def has_group_def signature_public_key_b64_def bnd_def split: option.split)+

section \<open>Operations that save the device\<close>

text \<open>From a state whose device need not be saved, the action ends with it saved.\<close>

definition settles :: "('d, 'g, 'k) crypto_env \<Rightarrow> session \<Rightarrow> string \<Rightarrow> ('d, 'k, 'a) vault_act \<Rightarrow> bool" where
  "settles env s token m \<longleftrightarrow>
     (\<forall>v. session_kept env s token v \<longrightarrow> vt_device v \<noteq> None \<longrightarrow> resumable env s token (snd (m v)))"

lemma session_key_other: "SESSION_KEY \<noteq> MLS_STATE_KEY"
  by (simp add: SESSION_KEY_def MLS_STATE_KEY_def)

lemma persist_device_run:
  assumes "reliable env (ss_user_id s)" "session_kept env s token v"
  obtains v' where "persist env d v = (Inr (), v')" "vt_device v' = vt_device v" "session_kept env s token v'"
    "fst (e2ee_restore env (ss_user_id s) v') = Inr (Some d)"
proof -
  have laws: "crypto_laws env (ss_user_id s)" "durable_key_store (env_ks env)" "steady_mls (env_mls env)"
    using assms(1) by (simp_all add: reliable_def)
  obtain k where k: "vt_keys v = Some k"
      "fst (kp_get (env_ks env) SESSION_KEY k) = Inr (Some (encode_session (env_json env) s token))"
    using assms(2) by (auto simp: session_kept_def)
  obtain blob where blob: "m_export (env_mls env) d = Inr blob"
    using laws(3) unfolding steady_mls_def by blast
  let ?bs = "str_bytes (jprint (env_json env) (stored_state env d blob))"
  obtain k' where k': "kp_put (env_ks env) MLS_STATE_KEY ?bs k = (Inr (), k')"
      "fst (kp_get (env_ks env) SESSION_KEY k') = fst (kp_get (env_ks env) SESSION_KEY k)"
    using laws(2) session_key_other unfolding durable_key_store_def by blast
  let ?v = "v\<lparr>vt_keys := Some k'\<rparr>"
  have p: "persist env d v = (Inr (), ?v)"
    using blob k(1) k'(1) by (simp add: persist_def ks_put_def ks_call_def bnd_def)
  have "fst (e2ee_restore env (ss_user_id s) ?v) = Inr (Some d)"
    using persist_saves [OF laws(1) p] k(1) by simp
  then show thesis using p k k' by (intro that [of ?v]) (simp_all add: session_kept_def)
qed

lemma persist_current_run:
  assumes "reliable env (ss_user_id s)" "session_kept env s token v" "vt_device v = Some d"
  obtains v' where "persist_current env v = (Inr (), v')" "vt_device v' = Some d" "resumable env s token v'"
proof -
  obtain v' where v': "persist env d v = (Inr (), v')" "vt_device v' = vt_device v" "session_kept env s token v'"
      "fst (e2ee_restore env (ss_user_id s) v') = Inr (Some d)"
    using persist_device_run [OF assms(1,2)] by metis
  then show thesis
    using assms(3) by (intro that [of v'])
      (simp_all add: persist_current_def the_device_def bnd_def resumable_def engine_saved_def)
qed

lemma settles_persist:
  assumes "reliable env (ss_user_id s)"
  shows "settles env s token (persist_current env)"
  unfolding settles_def
proof (intro allI impI)
  fix v assume v: "session_kept env s token v" "vt_device v \<noteq> None"
  then obtain d where "vt_device v = Some d" by blast
  with persist_current_run [OF assms v(1)] show "resumable env s token (snd (persist_current env v))"
    by (metis snd_conv)
qed

lemma settles_bnd:
  assumes "settles env s token m" "\<And>a. keeps (lasts env s token) (g a)"
  shows "settles env s token (bnd m g)"
  unfolding settles_def
proof (intro allI impI)
  fix v assume v: "session_kept env s token v" "vt_device v \<noteq> None"
  obtain r v1 where m: "m v = (r, v1)" by (cases "m v")
  have 1: "resumable env s token v1" using assms(1) v m unfolding settles_def by (metis snd_conv)
  show "resumable env s token (snd (bnd m g v))"
  proof (cases r)
    case (Inl e)
    then show ?thesis using m 1 by (simp add: bnd_def)
  next
    case (Inr a)
    then have "bnd m g v = g a v1" using m by (simp add: bnd_def)
    then show ?thesis using 1 assms(2) [of a] unfolding keeps_def lasts_def by (metis prod.collapse)
  qed
qed

lemma lasting_op:
  assumes "durable_key_store (env_ks env)" "steady f" "\<And>a. settles env s token (h a)"
  shows "keeps (lasts env s token) (bnd (on_device f) h)"
  unfolding keeps_def lasts_def
proof (intro allI impI)
  fix v r v' assume run: "bnd (on_device f) h v = (r, v')" and v: "resumable env s token v"
  show "resumable env s token v'"
  proof (cases "vt_device v")
    case None
    then show ?thesis using run v by (simp add: on_device_def the_device_def bnd_def)
  next
    case (Some d)
    obtain x d' where f: "f d = (x, d')" by (cases "f d")
    let ?v = "v\<lparr>vt_device := Some d'\<rparr>"
    have dev: "on_device f v = (map_err core_of_crypto x, ?v)"
      using Some f by (simp add: on_device_def the_device_def set_device_def bnd_def)
    show ?thesis
    proof (cases x)
      case (Inl e)
      then have "d' = d" using assms(2) f unfolding steady_def by blast
      then have "resumable env s token ?v"
        using v Some resumable_frame [OF assms(1), of ?v v] by simp
      then show ?thesis using run dev Inl by (simp add: bnd_def)
    next
      case (Inr a)
      have "session_kept env s token ?v" using v by (simp add: resumable_def session_kept_def)
      then have "resumable env s token (snd (h a ?v))"
        using assms(3) [of a] unfolding settles_def by simp
      then show ?thesis using run dev Inr by (simp add: bnd_def)
    qed
  qed
qed

lemma lasting_replace:
  assumes "settles env s token (h ())"
  shows "keeps (lasts env s token) (bnd (set_device d) h)"
  unfolding keeps_def lasts_def
proof (intro allI impI)
  fix v r v' assume run: "bnd (set_device d) h v = (r, v')" and v: "resumable env s token v"
  let ?v = "v\<lparr>vt_device := Some d\<rparr>"
  have "session_kept env s token ?v" using v by (simp add: resumable_def session_kept_def)
  then have "resumable env s token (snd (h () ?v))" using assms unfolding settles_def by simp
  then show "resumable env s token v'" using run by (simp add: set_device_def)
qed

lemmas lasting_rules = lasting.keeps_bnd lasting.keeps_catch lasting.keeps_pure

lemma reliable_store: "reliable env user \<Longrightarrow> durable_key_store (env_ks env)"
  by (simp add: reliable_def)

text \<open>The shapes the methods of the engine have.\<close>

lemma lasting_saves_last:
  assumes "reliable env (ss_user_id s)" "steady f"
  shows "keeps (lasts env s token) (bnd (on_device f) (\<lambda>_. persist_current env))"
  by (rule lasting_op [OF reliable_store [OF assms(1)] assms(2) settles_persist [OF assms(1)]])

lemma lasting_saves:
  assumes "reliable env (ss_user_id s)" "steady f" "\<And>a. keeps (lasts env s token) (g a)"
  shows "keeps (lasts env s token) (bnd (on_device f) (\<lambda>a. bnd (persist_current env) (\<lambda>_. g a)))"
  by (rule lasting_op [OF reliable_store [OF assms(1)] assms(2) settles_bnd [OF settles_persist [OF assms(1)] assms(3)]])

lemma lasting_saves_pair:
  assumes "reliable env (ss_user_id s)" "steady f" "\<And>a b. keeps (lasts env s token) (g a b)"
  shows "keeps (lasts env s token) (bnd (on_device f) (\<lambda>(a, b). bnd (persist_current env) (\<lambda>_. g a b)))"
  using lasting_saves [OF assms(1,2), of token "\<lambda>(a, b). g a b"] assms(3) by (simp add: case_prod_unfold)

lemma lasting_engine:
  assumes "reliable env (ss_user_id s)"
  shows "keeps (lasts env s token) (key_packages env n)" "keeps (lasts env s token) (last_resort_key_package env)"
    "keeps (lasts env s token) (create_group env room)" "keeps (lasts env s token) (add_member env room kp)"
    "keeps (lasts env s token) (process_commit env room c)" "keeps (lasts env s token) (join_from_welcome env w)"
    "keeps (lasts env s token) (encrypt env room pt)" "keeps (lasts env s token) (decrypt env room ct)"
    "keeps (lasts env s token) (restore_from_backup env key blob)" "keeps (lasts env s token) (create_backup env)"
    "keeps (lasts env s token) (encrypt_media env bs)"
proof -
  have laws: "durable_key_store (env_ks env)" "steady_mls (env_mls env)" using assms by (simp_all add: reliable_def)
  note steady = laws(2) [unfolded steady_mls_def]
  note rules = lasting_saves [OF assms] lasting_saves_pair [OF assms] lasting_saves_last [OF assms]
    lasting_replace [OF settles_persist [OF assms]]
  note reads = lasting_reads [OF laws(1)] lasting_rules
  show "keeps (lasts env s token) (key_packages env n)" "keeps (lasts env s token) (last_resort_key_package env)"
    "keeps (lasts env s token) (create_group env room)" "keeps (lasts env s token) (join_from_welcome env w)"
    "keeps (lasts env s token) (add_member env room kp)" "keeps (lasts env s token) (process_commit env room c)"
    "keeps (lasts env s token) (encrypt env room pt)" "keeps (lasts env s token) (decrypt env room ct)"
    "keeps (lasts env s token) (restore_from_backup env key blob)"
    unfolding key_packages_def last_resort_key_package_def create_group_def join_from_welcome_def
      add_member_def process_commit_def encrypt_def decrypt_def restore_from_backup_def
    using steady by - (((rule rules | rule reads); blast?)+)
  show "keeps (lasts env s token) (create_backup env)" "keeps (lasts env s token) (encrypt_media env bs)"
    unfolding create_backup_def encrypt_media_def by (auto intro!: reads)
qed

section \<open>The methods of a client\<close>

definition wlasts ::
  "('w, 'd, 'g, 'k, 't) client_env \<Rightarrow> session \<Rightarrow> string \<Rightarrow> ('w, 'd, 'k, 't) world \<Rightarrow> ('w, 'd, 'k, 't) world \<Rightarrow> bool" where
  "wlasts env s token w w' \<longleftrightarrow> lasts (ce_crypto env) s token (wd_vault w) (wd_vault w')"

interpretation wlasting: step_rel "wlasts env s token" for env s token
  by unfold_locales (auto simp: wlasts_def lasting.refl intro: lasting.trans)

lemma wlasts_same_vault: "(\<And>w. wd_vault (snd (m w)) = wd_vault w) \<Longrightarrow> keeps (wlasts env s token) m"
  unfolding keeps_def wlasts_def by (metis lasting.refl snd_conv)

lemma wlasts_vault: "keeps (lasts (ce_crypto env) s token) m \<Longrightarrow> keeps (wlasts env s token) (on_vault m)"
  unfolding keeps_def wlasts_def on_vault_def by (auto split: prod.splits)

lemma wlasts_basic [simp]:
  "keeps (wlasts env s token) (on_net m)" "keeps (wlasts env s token) (on_core_net c)"
  "keeps (wlasts env s token) (log_emit l t msg)" "keeps (wlasts env s token) (tick env')"
  "keeps (wlasts env s token) has_engine" "keeps (wlasts env s token) (store_read cl f)"
  "keeps (wlasts env s token) (store_write cl g)" "keeps (wlasts env s token) (store_update cl h)"
  "keeps (wlasts env s token) (notify ob)" "keeps (wlasts env s token) (sleep_secs n)"
  by (rule wlasts_same_vault, simp add: on_net_def on_core_net_def log_emit_def tick_def has_engine_def
        store_read_def store_write_def store_update_def notify_def sleep_secs_def split: prod.split sum.split)+

lemma wlasts_call [simp]: "keeps (wlasts env s token) (call_api m)"
  unfolding call_api_def by (rule wlasting.keeps_map_errA) simp

lemmas wlasting_rules = wlasting.keeps_bnd wlasting.keeps_catch wlasting.keeps_pure wlasting.keeps_forA

lemma wlasts_txn [simp]: "keeps (wlasts env s token) (next_txn_id env')"
  unfolding next_txn_id_def
  by (rule wlasting.keeps_bnd, simp) (rule wlasts_same_vault, simp)

lemma wlasts_queue [simp]: "keeps (wlasts env s token) (queue_message env' cl room body)"
  unfolding queue_message_def
  by (rule wlasts_same_vault)
    (simp add: tick_def store_write_def bnd_def split: prod.split sum.split)

lemma wlasts_engine:
  assumes "reliable (ce_crypto env) (ss_user_id s)"
  shows "keeps (wlasts env s token) (on_vault (key_packages (ce_crypto env) n))"
    "keeps (wlasts env s token) (on_vault (last_resort_key_package (ce_crypto env)))"
    "keeps (wlasts env s token) (on_vault (create_group (ce_crypto env) room))"
    "keeps (wlasts env s token) (on_vault (add_member (ce_crypto env) room kp))"
    "keeps (wlasts env s token) (on_vault (process_commit (ce_crypto env) room c))"
    "keeps (wlasts env s token) (on_vault (join_from_welcome (ce_crypto env) wl))"
    "keeps (wlasts env s token) (on_vault (encrypt (ce_crypto env) room pt))"
    "keeps (wlasts env s token) (on_vault (decrypt (ce_crypto env) room ct))"
    "keeps (wlasts env s token) (on_vault (encrypt_media (ce_crypto env) bs))"
    "keeps (wlasts env s token) (on_vault (has_group (ce_crypto env) room))"
    "keeps (wlasts env s token) (on_vault (signature_public_key_b64 (ce_crypto env)))"
    "keeps (wlasts env s token) (on_vault (bnd the_device (\<lambda>_. create_backup (ce_crypto env))))"
    "keeps (wlasts env s token) (on_vault (bnd the_device (\<lambda>_. restore_from_backup (ce_crypto env) key blob)))"
    "keeps (wlasts env s token) (on_vault (bnd the_device (\<lambda>_. lift_res x)))"
  using lasting_engine [OF assms] lasting_reads [OF reliable_store [OF assms]]
  by (auto intro!: wlasts_vault lasting_rules)

lemma wlasts_holds_group:
  assumes "reliable (ce_crypto env) (ss_user_id s)"
  shows "keeps (wlasts env s token) (holds_group env room)"
  unfolding holds_group_def by (auto intro!: wlasting_rules wlasts_engine [OF assms])

lemma wlasts_publish:
  assumes "reliable (ce_crypto env) (ss_user_id s)"
  shows "keeps (wlasts env s token) (publish_device_keys env cl)"
  unfolding publish_device_keys_def
  by (auto intro!: wlasting_rules wlasts_engine [OF assms] split: sum.splits)

lemma wlasts_flush:
  assumes "reliable (ce_crypto env) (ss_user_id s)"
  shows "keeps (wlasts env s token) (flush_pending env cl)"
proof -
  have plan: "keeps (wlasts env s token) (plan_send env cl ps)" for ps
    unfolding plan_send_def encrypt_for_send_def
    by (auto intro!: wlasting_rules wlasts_engine [OF assms] split: sum.splits option.splits)
  have "keeps (wlasts env s token) (flush_loop env cl sends changed)" for sends changed
  proof (induction sends arbitrary: changed)
    case Nil
    then show ?case unfolding flush_loop.simps by (rule wlasting.keeps_pure)
  next
    case (Cons ps sends)
    then show ?case
      unfolding flush_loop.simps by (auto intro!: wlasting_rules plan split: outgoing.splits sum.splits)
  qed
  then show ?thesis unfolding flush_pending_def by (auto intro!: wlasting_rules)
qed

lemma wlasts_inbound:
  assumes "reliable (ce_crypto env) (ss_user_id s)"
  shows "keeps (wlasts env s token) (process_inbound_mls env cl)"
proof -
  have commit: "keeps (wlasts env s token) (inbound_commit env cl c b)" for c b
    unfolding inbound_commit_def by (auto intro!: wlasting_rules wlasts_engine [OF assms] split: sum.splits)
  have message: "keeps (wlasts env s token) (inbound_message env cl m b)" for m b
    unfolding inbound_message_def by (auto intro!: wlasting_rules wlasts_engine [OF assms] split: sum.splits)
  have "keeps (wlasts env s token) (inbound_loop env cl items changed)" for items changed
  proof (induction items arbitrary: changed)
    case Nil
    then show ?case unfolding inbound_loop.simps by (rule wlasting.keeps_pure)
  next
    case (Cons item items)
    then show ?case by (cases item) (simp_all add: wlasting.keeps_bnd commit message)
  qed
  then show ?thesis unfolding process_inbound_mls_def by (auto intro!: wlasting_rules)
qed

lemma wlasts_to_device:
  assumes "reliable (ce_crypto env) (ss_user_id s)"
  shows "keeps (wlasts env s token) (apply_to_device env resp)"
proof -
  have event: "keeps (wlasts env s token) (to_device_event env ev j)" for ev j
    unfolding to_device_event_def join_welcome_def
    by (auto intro!: wlasting_rules wlasts_engine [OF assms] split: sum.splits option.splits bool.splits)
  have "keeps (wlasts env s token) (to_device_loop env evs j)" for evs j
  proof (induction evs arbitrary: j)
    case Nil
    then show ?case unfolding to_device_loop.simps by (rule wlasting.keeps_pure)
  next
    case (Cons ev evs)
    then show ?case by (simp add: wlasting.keeps_bnd event)
  qed
  then show ?thesis unfolding apply_to_device_def by (auto intro!: wlasting_rules split: option.splits)
qed

lemma wlasts_sync:
  assumes "reliable (ce_crypto env) (ss_user_id s)"
  shows "keeps (wlasts env s token) (run_sync env cl n)"
proof -
  have batch: "keeps (wlasts env s token) (handle_batch env cl resp)" for resp
    unfolding handle_batch_def apply_sync_def persist_sync_token_def
    by (auto intro!: wlasting_rules wlasts_to_device [OF assms] wlasts_inbound [OF assms] wlasts_flush [OF assms]
        split: option.splits)
  have cycle: "keeps (wlasts env s token) (sync_cycle env cl b)" for b
    unfolding sync_cycle_def back_off_def by (auto intro!: wlasting_rules batch split: sum.splits)
  have "keeps (wlasts env s token) (sync_cycles env cl n b)" for b
  proof (induction n arbitrary: b)
    case 0
    then show ?case unfolding sync_cycles.simps by (rule wlasting.keeps_pure)
  next
    case (Suc n)
    then show ?case by (simp add: wlasting.keeps_bnd cycle)
  qed
  then show ?thesis by (simp add: run_sync_def)
qed

lemma wlasts_rooms:
  assumes "reliable (ce_crypto env) (ss_user_id s)"
  shows "keeps (wlasts env s token) (client_send_message env cl room body)"
    "keeps (wlasts env s token) (fetch_messages env cl room limit)"
    "keeps (wlasts env s token) (create_encrypted_room env cl nm topic)"
    "keeps (wlasts env s token) (client_invite env cl room user)"
    "keeps (wlasts env s token) (client_upload_media env cl bs ct)"
    "keeps (wlasts env s token) (client_download_media env cl uri)"
    "keeps (wlasts env s token) (download_image env cl img)"
    "keeps (wlasts env s token) (send_image env cl room bs mime width height caption)"
proof -
  note engine = wlasts_engine [OF assms] wlasts_holds_group [OF assms]
  have upload: "keeps (wlasts env s token) (client_upload_media env cl bs ct)" for bs ct
    by (simp add: client_upload_media_def wlasting.keeps_pure)
  show "keeps (wlasts env s token) (client_upload_media env cl bs ct)" by (rule upload)
  show "keeps (wlasts env s token) (client_send_message env cl room body)"
    "keeps (wlasts env s token) (fetch_messages env cl room limit)"
    unfolding client_send_message_def fetch_messages_def Let_def
    by (auto intro!: wlasting_rules wlasts_flush [OF assms] wlasts_inbound [OF assms])
  show "keeps (wlasts env s token) (create_encrypted_room env cl nm topic)"
    "keeps (wlasts env s token) (client_invite env cl room user)"
    unfolding create_encrypted_room_def client_invite_def welcome_to_group_def welcome_device_def
    by (auto intro!: wlasting_rules engine)
  show download: "keeps (wlasts env s token) (client_download_media env cl uri)" for uri
    unfolding client_download_media_def by (auto intro!: wlasting_rules)
  show "keeps (wlasts env s token) (download_image env cl img)"
    unfolding download_image_def by (auto intro!: wlasting_rules download engine split: option.splits)
  show "keeps (wlasts env s token) (send_image env cl room bs mime width height caption)"
    unfolding send_image_def Let_def by (auto intro!: wlasting_rules engine upload)
qed

lemma wlasts_session:
  assumes "reliable (ce_crypto env) (ss_user_id s)"
  shows "keeps (wlasts env s token) (backup env cl)" "keeps (wlasts env s token) (restore_backup env cl key)"
    "keeps (wlasts env s token) (client_list_rooms env cl)" "keeps (wlasts env s token) (client_join_room env cl room)"
    "keeps (wlasts env s token) (client_timeline env cl room limit before)"
    "keeps (wlasts env s token) (client_create_room env cl nm topic)"
  unfolding backup_def restore_backup_def client_list_rooms_def client_timeline_def client_create_room_def
    client_join_room_def
  by (auto intro!: wlasting_rules wlasts_engine [OF assms] wlasts_publish [OF assms] split: option.splits)

lemma app_call_resumable:
  assumes "reliable (ce_crypto env) (ss_user_id s)" "app_call env cl w w'"
    and "resumable (ce_crypto env) s token (wd_vault w)"
  shows "resumable (ce_crypto env) s token (wd_vault w')"
proof -
  note methods = wlasts_sync [OF assms(1)] wlasts_flush [OF assms(1)] wlasts_inbound [OF assms(1)]
    wlasts_rooms [OF assms(1)] wlasts_session [OF assms(1)]
  from assms(2) have "wlasts env s token w w'"
    by cases (erule methods [unfolded keeps_def, rule_format])+
  with assms(3) show ?thesis by (simp add: wlasts_def lasts_def)
qed

section \<open>Logging in\<close>

text \<open>With a key store installed, a login leaves a session that the next process can resume.\<close>

lemma session_put:
  assumes "reliable env (ss_user_id s)" "ks_put env SESSION_KEY (encode_session (env_json env) s token) v = (r, v')"
    and "vt_keys v \<noteq> None"
  shows "r = Inr True \<and> session_kept env s token v'"
proof -
  obtain k where k: "vt_keys v = Some k" using assms(3) by blast
  obtain k' where "kp_put (env_ks env) SESSION_KEY (encode_session (env_json env) s token) k = (Inr (), k')"
      "fst (kp_get (env_ks env) SESSION_KEY k') = Inr (Some (encode_session (env_json env) s token))"
    using reliable_store [OF assms(1)] unfolding durable_key_store_def by blast
  then show ?thesis
    using assms(2) k by (auto simp: ks_put_def ks_call_def bnd_def session_kept_def)
qed

lemma create_engine_run:
  assumes "reliable (ce_crypto env) (ss_user_id s)" "session_kept (ce_crypto env) s token (wd_vault w)"
  obtains e w' where "create_engine env (ss_user_id s) w = (Inr e, w')"
    "session_kept (ce_crypto env) s token (wd_vault w')"
    "\<And>d. e = Some d \<Longrightarrow> fst (e2ee_restore (ce_crypto env) (ss_user_id s) (wd_vault w')) = Inr (Some d)"
proof -
  let ?v = "(wd_vault w)\<lparr>vt_seed := Suc (vt_seed (wd_vault w))\<rparr>"
  have kept: "session_kept (ce_crypto env) s token ?v"
    using assms(2) by (simp add: session_kept_def)
  show thesis
  proof (cases "m_new (env_mls (ce_crypto env)) (vt_seed (wd_vault w)) (ss_user_id s)")
    case (Inl err)
    then show thesis
      using kept by (intro that)
        (auto simp: create_engine_def e2ee_create_def draw_def on_vault_def catch_def bnd_def log_emit_def)
  next
    case (Inr d)
    obtain v' where "persist (ce_crypto env) d ?v = (Inr (), v')" "session_kept (ce_crypto env) s token v'"
        "fst (e2ee_restore (ce_crypto env) (ss_user_id s) v') = Inr (Some d)"
      using persist_device_run [OF assms(1) kept] by metis
    then show thesis
      using Inr by (intro that [of "Some d" "w\<lparr>wd_vault := v'\<rparr>"])
        (auto simp: create_engine_def e2ee_create_def draw_def on_vault_def catch_def bnd_def)
  qed
qed

lemma open_store_keeps_vault: "open_store env w = (r, w') \<Longrightarrow> wd_vault w' = wd_vault w"
  by (auto simp: open_store_def bnd_def log_emit_def split: option.splits sum.splits prod.splits)

lemma install_run: "on_vault (install_engine e) w = (Inr (), w\<lparr>wd_vault := (wd_vault w)\<lparr>vt_device := e\<rparr>\<rparr>)"
  by (simp add: on_vault_def install_engine_def)

lemma finish_login_resumable:
  assumes "reliable (ce_crypto env) (ar_user_id auth)" "vt_keys (wd_vault w) \<noteq> None"
    and "finish_login env server a auth w = (Inr cl, w')"
  shows "cl_session cl = \<lparr> ss_user_id = ar_user_id auth, ss_device_id = ar_device_id auth, ss_server = server \<rparr>"
    "cl_api cl = set_token a (Some (ar_access_token auth))"
    "resumable (ce_crypto env) (cl_session cl) (ar_access_token auth) (wd_vault w')"
proof -
  let ?s = "\<lparr> ss_user_id = ar_user_id auth, ss_device_id = ar_device_id auth, ss_server = server \<rparr>"
  let ?blob = "encode_session (env_json (ce_crypto env)) ?s (ar_access_token auth)"
  have rel: "reliable (ce_crypto env) (ss_user_id ?s)" using assms(1) by simp
  obtain stored w1 w2 w3 w4 store engine where
      put: "on_vault (ks_put (ce_crypto env) SESSION_KEY ?blob) w = (Inr stored, w1)"
    and warn: "(if stored then ret ()
              else log_emit LWarn ''session''
                     ''no key store installed; session will not survive restart'') w1 = (Inr () :: core_error + unit, w2)"
    and op: "open_store env w2 = (Inr store, w3)"
    and eng: "create_engine env (ss_user_id ?s) w3 = (Inr engine, w4)"
    and inst: "on_vault (install_engine engine) w4 = (Inr (), w')"
    and cl: "cl = \<lparr> cl_api = set_token a (Some (ar_access_token auth)), cl_session = ?s, cl_store = store \<rparr>"
    using assms(3) unfolding finish_login_def Let_def
    by (auto simp: bnd_Inr_iff ret_def)
  have fin: "w' = w4\<lparr>wd_vault := (wd_vault w4)\<lparr>vt_device := engine\<rparr>\<rparr>"
    using inst by (simp add: install_run)
  have kept1: "stored" "session_kept (ce_crypto env) ?s (ar_access_token auth) (wd_vault w1)"
    using put session_put [OF rel, of "ar_access_token auth" "wd_vault w"] assms(2)
    by (auto simp: on_vault_def split: prod.splits)
  have "wd_vault w3 = wd_vault w1"
    using warn kept1(1) open_store_keeps_vault [OF op] by (simp add: ret_def)
  then have kept3: "session_kept (ce_crypto env) ?s (ar_access_token auth) (wd_vault w3)"
    using kept1(2) by simp
  obtain e w5 where e: "create_engine env (ss_user_id ?s) w3 = (Inr e, w5)"
    "session_kept (ce_crypto env) ?s (ar_access_token auth) (wd_vault w5)"
    "\<And>d. e = Some d \<Longrightarrow> fst (e2ee_restore (ce_crypto env) (ss_user_id ?s) (wd_vault w5)) = Inr (Some d)"
    by (rule create_engine_run [OF rel kept3]) (rule that)
  have w: "e = engine" "w5 = w4" using e(1) eng by simp_all
  have read: "fst (e2ee_restore (ce_crypto env) u (wd_vault w')) = fst (e2ee_restore (ce_crypto env) u (wd_vault w4))" for u
    using restore_reads_keys [OF reliable_store [OF rel], of u "wd_vault w'"]
      restore_reads_keys [OF reliable_store [OF rel], of u "wd_vault w4"] fin by simp
  have "resumable (ce_crypto env) ?s (ar_access_token auth) (wd_vault w')"
    using e(2,3) w fin read [of "ss_user_id ?s"]
    by (auto simp: resumable_def session_kept_def engine_saved_def)
  then show "cl_session cl = ?s" "cl_api cl = set_token a (Some (ar_access_token auth))"
    "resumable (ce_crypto env) (cl_session cl) (ar_access_token auth) (wd_vault w')"
    using cl by simp_all
qed

text \<open>A sign-in, by login or registration, through the publication of the device's keys.\<close>

definition sign_in ::
  "('w, 'd, 'g, 'k, 't) client_env \<Rightarrow> string \<Rightarrow> string \<Rightarrow> string \<Rightarrow> ('w, 'd, 'k, 't) world \<Rightarrow>
   pigeon_client \<Rightarrow> ('w, 'd, 'k, 't) world \<Rightarrow> bool" where
  "sign_in env server user password w cl w' \<longleftrightarrow>
     client_login env server user password w = (Inr cl, w') \<or>
     client_register env server user password w = (Inr cl, w')"

lemma sign_in_steps:
  assumes "sign_in env server user password w cl w'"
  obtains a auth w1 w2 where "api_new (ce_http env) server None = Inr a" "wd_vault w1 = wd_vault w"
    "finish_login env server a auth w1 = (Inr cl, w2)" "publish_device_keys env cl w2 = (Inr (), w')"
proof -
  have "\<exists>a auth w1 w2 m. api_new (ce_http env) server None = Inr a \<and> call_api m w = (Inr auth, w1) \<and>
      finish_login env server a auth w1 = (Inr cl, w2) \<and> publish_device_keys env cl w2 = (Inr (), w')"
    using assms unfolding sign_in_def client_login_def client_register_def
    by (auto simp: bnd_Inr_iff ret_def map_err_def split: sum.splits)
  then obtain a auth w1 w2 m where s: "api_new (ce_http env) server None = Inr a" "call_api m w = (Inr auth, w1)"
      "finish_login env server a auth w1 = (Inr cl, w2)" "publish_device_keys env cl w2 = (Inr (), w')"
    by blast
  have "wd_vault w1 = wd_vault w"
    using s(2) by (auto simp: call_api_def map_errA_def on_net_def split: prod.splits)
  with s show thesis by (intro that) auto
qed

lemma sign_in_resumable:
  assumes "sign_in env server user password w cl w'" "vt_keys (wd_vault w) \<noteq> None"
    and "reliable (ce_crypto env) (ss_user_id (cl_session cl))"
  obtains token where "resumable (ce_crypto env) (cl_session cl) token (wd_vault w')"
    "api_new (ce_http env) (ss_server (cl_session cl)) (Some token) = Inr (cl_api cl)"
proof -
  obtain a auth w1 w2 where a: "api_new (ce_http env) server None = Inr a"
    and v: "wd_vault w1 = wd_vault w"
    and f: "finish_login env server a auth w1 = (Inr cl, w2)"
    and p: "publish_device_keys env cl w2 = (Inr (), w')"
    using assms(1) by (rule sign_in_steps)
  have keys: "vt_keys (wd_vault w1) \<noteq> None" using assms(2) v by simp
  have user: "ss_user_id (cl_session cl) = ar_user_id auth"
    using f unfolding finish_login_def Let_def by (auto simp: bnd_Inr_iff ret_def)
  note fin = finish_login_resumable [OF assms(3) [unfolded user] keys f]
  have "resumable (ce_crypto env) (cl_session cl) (ar_access_token auth) (wd_vault w')"
    using wlasts_publish [OF assms(3), of "ar_access_token auth" cl] p fin(3)
    unfolding keeps_def wlasts_def lasts_def by blast
  moreover have "api_new (ce_http env) (ss_server (cl_session cl)) (Some (ar_access_token auth)) = Inr (cl_api cl)"
    using a fin(1,2) by (auto simp: api_new_def set_token_def then_ok_Inr_iff)
  ultimately show thesis by (rule that)
qed

lemma sign_in_store:
  assumes "ce_store_dir env = Some dir" "sign_in env server user password w cl w'"
  shows "cl_store cl = StoreFile (path_join dir STORE_FILE)"
  using sign_in_steps [OF assms(2)] finish_login_file(2) [OF assms(1)] by metis

section \<open>The next process\<close>

text \<open>What is left when a process ends: the server, the database files and, in the host, the key store.\<close>

definition process_end :: "('w, 'd, 'k, 't) world \<Rightarrow> ('w, 'd, 'k, 't) world" where
  "process_end w = w\<lparr>wd_vault := \<lparr> vt_device = None, vt_keys = None, vt_seed = vt_seed (wd_vault w) \<rparr>,
     wd_stores := (\<lambda>ref. case ref of StoreFile path \<Rightarrow> wd_stores w (StoreFile path) | InMemory n \<Rightarrow> empty_db),
     wd_memory_stores := 0, wd_sink := None, wd_send_counter := 0, wd_txn_counter := 0,
     wd_observer := [], wd_sleeps := []\<rparr>"

lemma restore_engine:
  assumes "durable_key_store (env_ks env)"
  shows "e2ee_restore env user v = (fst (e2ee_restore env user v), v)"
proof -
  have "snd (ks_get env MLS_STATE_KEY v) = v" by (rule ks_get_stays [OF assms])
  then show ?thesis
    by (auto simp: e2ee_restore_def bnd_def prod_eq_iff split: prod.splits sum.splits option.splits)
qed

lemma restored_client_engine:
  assumes "durable_key_store (env_ks (ce_crypto env))" "ce_store_dir env = Some dir"
    and "ce_open env (path_join dir STORE_FILE) = Inr ()"
    and "fst (e2ee_restore (ce_crypto env) (ss_user_id s) (wd_vault w)) = Inr (Some d)"
  shows "restored_client env a s w =
     (Inr (\<lparr> cl_api = a, cl_session = s, cl_store = StoreFile (path_join dir STORE_FILE) \<rparr>, False),
      w\<lparr>wd_vault := (wd_vault w)\<lparr>vt_device := Some d\<rparr>\<rparr>)"
proof -
  have "restore_or_mint_e2ee env (ss_user_id s) w = (Inr (Some d, False), w)"
    using restore_engine [OF assms(1), of "ss_user_id s" "wd_vault w"] assms(4)
    by (simp add: restore_or_mint_e2ee_def catch_def on_vault_def)
  then show ?thesis
    using assms(2,3) by (simp add: restored_client_def open_store_def bnd_def install_run)
qed

lemma restored_client_file:
  assumes "ce_store_dir env = Some dir" "restored_client env a s w = (Inr (cl, m), w')"
  shows "cl = \<lparr> cl_api = a, cl_session = s, cl_store = StoreFile (path_join dir STORE_FILE) \<rparr> \<and>
    wd_stores w' = wd_stores w"
proof -
  have "keeps same_stores (restored_client env a s)"
    unfolding restored_client_def
    by (auto intro!: stores_rules restore_or_mint_frames open_store_file(1) [OF assms(1)])
  then have "wd_stores w' = wd_stores w"
    using assms(2) unfolding keeps_def same_stores_def by blast
  moreover have "cl = \<lparr> cl_api = a, cl_session = s, cl_store = StoreFile (path_join dir STORE_FILE) \<rparr>"
    using assms(2) unfolding restored_client_def
    by (auto simp: bnd_Inr_iff ret_def dest: open_store_file(2) [OF assms(1)])
  ultimately show ?thesis by simp
qed

lemma app_calls_resumable:
  assumes "reliable (ce_crypto env) (ss_user_id s)" "(app_call env cl)\<^sup>*\<^sup>* w w'"
    and "resumable (ce_crypto env) s token (wd_vault w)"
  shows "resumable (ce_crypto env) s token (wd_vault w')"
  using assms(2,3) by (induction rule: rtranclp_induct) (auto intro: app_call_resumable [OF assms(1)])

text \<open>The world of the new process, once the host has installed the key store.\<close>

definition next_process :: "'k \<Rightarrow> ('w, 'd, 'k, 't) world \<Rightarrow> ('w, 'd, 'k, 't) world" where
  "next_process k w = snd ((set_key_store k :: ('w, 'd, 'k, 't, unit) client_act) (process_end w))"

lemma next_process_parts:
  "wd_vault (next_process k w) = \<lparr> vt_device = None, vt_keys = Some k, vt_seed = vt_seed (wd_vault w) \<rparr>"
  "wd_net (next_process k w) = wd_net w"
  "wd_stores (next_process k w) (StoreFile path) = wd_stores w (StoreFile path)"
  by (simp_all add: next_process_def set_key_store_def process_end_def)

lemma next_process_reads:
  assumes "durable_key_store (env_ks (ce_crypto env))" "vt_keys (wd_vault w) = Some k"
    and "resumable (ce_crypto env) s token (wd_vault w)"
  shows "ks_get (ce_crypto env) SESSION_KEY (wd_vault (next_process k w)) =
      (Inr (Some (encode_session (env_json (ce_crypto env)) s token)), wd_vault (next_process k w))"
    "vt_device (wd_vault w) = Some d \<Longrightarrow>
      fst (e2ee_restore (ce_crypto env) (ss_user_id s) (wd_vault (next_process k w))) = Inr (Some d)"
proof -
  have "fst (kp_get (env_ks (ce_crypto env)) SESSION_KEY k) =
      Inr (Some (encode_session (env_json (ce_crypto env)) s token))"
    using assms(2,3) by (auto simp: resumable_def session_kept_def)
  moreover have "snd (kp_get (env_ks (ce_crypto env)) SESSION_KEY k) = k"
    using assms(1) by (simp add: durable_key_store_def)
  ultimately have "kp_get (env_ks (ce_crypto env)) SESSION_KEY k =
      (Inr (Some (encode_session (env_json (ce_crypto env)) s token)), k)"
    by (simp add: prod_eq_iff)
  then show "ks_get (ce_crypto env) SESSION_KEY (wd_vault (next_process k w)) =
      (Inr (Some (encode_session (env_json (ce_crypto env)) s token)), wd_vault (next_process k w))"
    by (simp add: ks_get_def ks_call_def bnd_def next_process_parts)
  assume "vt_device (wd_vault w) = Some d"
  then have "fst (e2ee_restore (ce_crypto env) (ss_user_id s) (wd_vault w)) = Inr (Some d)"
    using assms(3) by (simp add: resumable_def engine_saved_def)
  then show "fst (e2ee_restore (ce_crypto env) (ss_user_id s) (wd_vault (next_process k w))) = Inr (Some d)"
    using restore_reads_keys [OF assms(1), of "ss_user_id s" "wd_vault w"] assms(2)
      restore_reads_keys [OF assms(1), of "ss_user_id s" "wd_vault (next_process k w)"]
    by (simp add: next_process_parts)
qed

text \<open>The client of a restored session, online or offline, in a world where it can be built.\<close>

lemma restore_session_live:
  assumes "ks_get (ce_crypto env) SESSION_KEY (wd_vault w) =
      (Inr (Some (encode_session (env_json (ce_crypto env)) s token)), wd_vault w)"
    and "reliable (ce_crypto env) (ss_user_id s)" "api_new (ce_http env) (ss_server s) (Some token) = Inr a"
    and "whoami (ce_server env) a (wd_net w) = (r, n)" "(\<exists>v. r = Inr v) \<or> (\<exists>e. r = Inl (NetworkErr e))"
    and "ce_store_dir env = Some dir" "ce_open env (path_join dir STORE_FILE) = Inr ()"
  shows "\<exists>w'. restore_session env w =
      (Inr (Some \<lparr> cl_api = a, cl_session = s, cl_store = StoreFile (path_join dir STORE_FILE) \<rparr>), w') \<and>
    wd_stores w' = wd_stores w \<and>
    (\<forall>d. fst (e2ee_restore (ce_crypto env) (ss_user_id s) (wd_vault w)) = Inr (Some d) \<longrightarrow>
       vt_device (wd_vault w') = Some d \<and> wd_net w' = n)"
proof -
  let ?cl = "\<lparr> cl_api = a, cl_session = s, cl_store = StoreFile (path_join dir STORE_FILE) \<rparr>"
  have "decode_session (env_json (ce_crypto env)) (encode_session (env_json (ce_crypto env)) s token) = Inr (s, token)"
    using assms(2) by (intro decode_encode_session) (simp add: reliable_def crypto_laws_def)
  note run = restore_session_run [OF assms(1) this assms(3,4)]
  have opens: "store_opens env" using assms(6,7) by (simp add: store_opens_def)
  have built: "\<exists>m w1. restored_client env a s w0 = (Inr (?cl, m), w1) \<and> wd_stores w1 = wd_stores w0 \<and>
      (\<forall>d. fst (e2ee_restore (ce_crypto env) (ss_user_id s) (wd_vault w0)) = Inr (Some d) \<longrightarrow>
         \<not> m \<and> vt_device (wd_vault w1) = Some d \<and> wd_net w1 = wd_net w0)" for w0
  proof -
    obtain cl m w1 where 1: "restored_client env a s w0 = (Inr (cl, m), w1)"
      using restored_client_run [OF opens, of a s w0] by blast
    then have "cl = ?cl" "wd_stores w1 = wd_stores w0" using restored_client_file [OF assms(6)] by blast+
    with 1 show ?thesis
      using restored_client_engine [OF reliable_store [OF assms(2)] assms(6,7), where w = w0 and a = a] by auto
  qed
  consider v where "r = Inr v" | e where "r = Inl (NetworkErr e)" using assms(5) by blast
  then show ?thesis
  proof cases
    case 1
    let ?w = "w\<lparr>wd_net := n\<rparr>"
    obtain m w1 where b: "restored_client env a s ?w = (Inr (?cl, m), w1)" "wd_stores w1 = wd_stores w"
      "\<And>d. fst (e2ee_restore (ce_crypto env) (ss_user_id s) (wd_vault w)) = Inr (Some d) \<Longrightarrow>
         \<not> m \<and> vt_device (wd_vault w1) = Some d \<and> wd_net w1 = n"
      using built [of ?w] by auto
    obtain w2 where p: "publish_device_keys env ?cl w1 = (Inr (), w2)" using publish_total by blast
    have "wd_stores w2 = wd_stores w1"
      using publish_keeps_stores [of env ?cl] p unfolding keeps_def same_stores_def by blast
    then show ?thesis
      using run 1 b p by (cases m) (auto simp: bnd_def ret_def)
  next
    case 2
    let ?w = "(w\<lparr>wd_net := n\<rparr>)\<lparr>wd_sink := emit LInfo ''session''
        ''restored session without server validation (offline)'' (wd_sink w)\<rparr>"
    obtain m w1 where b: "restored_client env a s ?w = (Inr (?cl, m), w1)" "wd_stores w1 = wd_stores w"
      "\<And>d. fst (e2ee_restore (ce_crypto env) (ss_user_id s) (wd_vault w)) = Inr (Some d) \<Longrightarrow>
         \<not> m \<and> vt_device (wd_vault w1) = Some d \<and> wd_net w1 = n"
      using built [of ?w] by auto
    then show ?thesis
      using run 2 by (auto simp: log_emit_def bnd_def ret_def)
  qed
qed

text \<open>
  C3: A session survives the end of its process. After a sign-in with a key store and a data directory, and
  any calls of the client other than \<open>logout\<close>, the next process restores the same client with the same
  store, so rooms, sync token and unsent messages are all there; if the client had an engine, the
  restored one is the device that was in memory, and the only request made is the token check. The
  server may accept the token or be unreachable. This is for a key store that never refuses a write
  and an MLS engine whose state can always be exported and whose failed operations leave the device
  as it was (C37 shows what a refused write costs).
\<close>

theorem relaunch_resumes_session:
  assumes "reliable (ce_crypto env) (ss_user_id (cl_session cl))"
    and "ce_store_dir env = Some dir" "ce_open env (path_join dir STORE_FILE) = Inr ()"
    and "sign_in env server user password w0 cl w1" "vt_keys (wd_vault w0) \<noteq> None"
    and "(app_call env cl)\<^sup>*\<^sup>* w1 w2" "vt_keys (wd_vault w2) = Some k"
    and "whoami (ce_server env) (cl_api cl) (wd_net w2) = (r, n)"
    and "(\<exists>v. r = Inr v) \<or> (\<exists>e. r = Inl (NetworkErr e))"
  shows "\<exists>w3. restore_session env (next_process k w2) = (Inr (Some cl), w3) \<and>
    wd_stores w3 (cl_store cl) = wd_stores w2 (cl_store cl) \<and>
    (\<forall>d. vt_device (wd_vault w2) = Some d \<longrightarrow> vt_device (wd_vault w3) = Some d \<and> wd_net w3 = n)"
proof -
  obtain token where token: "resumable (ce_crypto env) (cl_session cl) token (wd_vault w1)"
      "api_new (ce_http env) (ss_server (cl_session cl)) (Some token) = Inr (cl_api cl)"
    using sign_in_resumable [OF assms(4,5,1)] by blast
  note reads = next_process_reads [OF reliable_store [OF assms(1)] assms(7)
      app_calls_resumable [OF assms(1,6) token(1)]]
  have store: "cl_store cl = StoreFile (path_join dir STORE_FILE)" by (rule sign_in_store [OF assms(2,4)])
  then have cl: "\<lparr> cl_api = cl_api cl, cl_session = cl_session cl, cl_store = StoreFile (path_join dir STORE_FILE) \<rparr> = cl"
    by simp
  show ?thesis
    using restore_session_live [OF reads(1) assms(1) token(2) _ assms(9,2,3)] assms(8) reads(2)
    unfolding cl by (auto simp: next_process_parts store)
qed

lemma auth_server_signs_in:
  "ok (fst (client_login (toy_env auth_server) ''h'' ''b'' ''pw'' (toy_world None db_name)))"
  by code_simp

lemma auth_server_whoami: "\<exists>v. fst (whoami auth_server a n) = Inr v"
  by (cases n) (simp add: whoami_def api_get_def send_def exchange_def auth_server_def reply_server_def
      is_success_def bnd_def ret_def Let_def)

theorem relaunch_resumes_session_witness:
  "\<exists>cl w1 k w3. client_login (toy_env auth_server) ''h'' ''b'' ''pw'' (toy_world None db_name) = (Inr cl, w1) \<and>
     (let w2 = snd (client_send_message (toy_env auth_server) cl ''!r'' ''hi'' w1)
      in vt_keys (wd_vault w2) = Some k \<and>
         restore_session (toy_env auth_server) (next_process k w2) = (Inr (Some cl), w3) \<and>
         wd_stores w3 (cl_store cl) = wd_stores w2 (cl_store cl))"
proof -
  let ?env = "toy_env auth_server" and ?w = "toy_world None db_name"
  obtain cl w1 where l: "client_login ?env ''h'' ''b'' ''pw'' ?w = (Inr cl, w1)"
    using auth_server_signs_in by (auto elim: okE)
  let ?w2 = "snd (client_send_message ?env cl ''!r'' ''hi'' w1)"
  have s: "sign_in ?env ''h'' ''b'' ''pw'' ?w cl w1" using l by (simp add: sign_in_def)
  have rel: "reliable (ce_crypto ?env) (ss_user_id (cl_session cl))"
    using toy_reliable by (simp add: toy_env_def)
  have keys: "vt_keys (wd_vault ?w) \<noteq> None" by (simp add: toy_world_def)
  have call: "(app_call ?env cl)\<^sup>*\<^sup>* w1 ?w2"
    by (rule r_into_rtranclp) (rule app_call.intros(2), rule surjective_pairing)
  obtain token where "resumable (ce_crypto ?env) (cl_session cl) token (wd_vault w1)"
    using sign_in_resumable [OF s keys rel] by blast
  then have "resumable (ce_crypto ?env) (cl_session cl) token (wd_vault ?w2)"
    by (rule app_calls_resumable [OF rel call])
  then obtain k where k: "vt_keys (wd_vault ?w2) = Some k" by (auto simp: resumable_def session_kept_def)
  obtain r n where r: "whoami (ce_server ?env) (cl_api cl) (wd_net ?w2) = (r, n)"
    by (cases "whoami (ce_server ?env) (cl_api cl) (wd_net ?w2)")
  have "(\<exists>v. r = Inr v) \<or> (\<exists>e. r = Inl (NetworkErr e))"
    using auth_server_whoami [of "cl_api cl" "wd_net ?w2"] r by (simp add: toy_env_def)
  moreover have "ce_store_dir ?env = Some ''d''" "ce_open ?env (path_join ''d'' STORE_FILE) = Inr ()"
    by (simp_all add: toy_env_def)
  ultimately show ?thesis
    using relaunch_resumes_session [OF rel _ _ s keys call k r] l k unfolding Let_def by metis
qed

end
