(* ===== verification/Error_Types.thy ===== *)
theory Error_Types
  imports Client_Inv
begin

text \<open>
  Which kinds of error the methods of a client can end with.  \<open>raises K m\<close> types an action with the set
  \<open>K\<close> of error kinds it may raise; the rules below follow the combinators, so the type of a method
  comes from its text.  The types are what the user interface relies on: local reads fail with storage
  errors only, sending and syncing never report the network.
\<close>

section \<open>Kinds of error\<close>

datatype error_kind = KCrypto | KApi | KRateLimit | KNetwork | KProtocol | KStorage

fun kind_of :: "core_error \<Rightarrow> error_kind" where
  "kind_of (Crypto r) = KCrypto"
| "kind_of (Api code r) = (if code = LimitExceeded then KRateLimit else KApi)"
| "kind_of (Network r) = KNetwork"
| "kind_of (Protocol r) = KProtocol"
| "kind_of (Storage r) = KStorage"

definition raises :: "error_kind set \<Rightarrow> ('s, core_error, 'a) act \<Rightarrow> bool" where
  "raises K m \<longleftrightarrow> (\<forall>s e s'. m s = (Inl e, s') \<longrightarrow> kind_of e \<in> K)"

definition remote_kinds :: "error_kind set" where
  "remote_kinds = {KApi, KRateLimit, KNetwork, KProtocol}"

section \<open>Typing rules\<close>

named_theorems effect \<open>error types of actions\<close>

lemma raises_mono: "raises K m \<Longrightarrow> K \<subseteq> K' \<Longrightarrow> raises K' m"
  by (auto simp: raises_def)

lemma raises_ret [effect]: "raises K (ret a)"
  by (simp add: raises_def)

lemma raises_value: "raises K (\<lambda>s. (Inr (f s), g s))"
  by (simp add: raises_def)

lemma raises_raise: "kind_of e \<in> K \<Longrightarrow> raises K (raise e)"
  by (simp add: raises_def)

lemma raises_lift: "(\<And>e. r = Inl e \<Longrightarrow> kind_of e \<in> K) \<Longrightarrow> raises K (lift_res r)"
  by (simp add: raises_def)

lemma raises_mod [effect]: "raises K (modA f)" "raises K getA"
  by (simp_all add: raises_def)

lemma raises_bnd [effect]: "raises K m \<Longrightarrow> (\<And>a. raises K (f a)) \<Longrightarrow> raises K (bnd m f)"
  unfolding raises_def bnd_Inl_iff by blast

lemma raises_catch [effect]: "(\<And>r. raises K (f r)) \<Longrightarrow> raises K (catch m f)"
  by (auto simp: raises_def catch_def split: prod.splits)

lemma raises_for [effect]: "(\<And>x. raises K (f x)) \<Longrightarrow> raises K (forA f xs)"
  by (induction xs) (auto intro: effect simp: raises_ret raises_bnd)

lemma raises_never: "(\<And>s. \<exists>a s'. m s = (Inr a, s')) \<Longrightarrow> raises K m"
  unfolding raises_def by (metis Inl_Inr_False fst_conv)

lemma raises_on_vault: "raises K m \<Longrightarrow> raises K (on_vault m)"
  by (auto simp: raises_def on_vault_def split: prod.splits)

lemma raises_on_core_net: "raises K m \<Longrightarrow> raises K (on_core_net m)"
  by (auto simp: raises_def on_core_net_def split: prod.splits)

lemma kind_of_api: "kind_of (core_of_api e) \<in> remote_kinds"
  by (cases e) (simp_all add: remote_kinds_def)

lemma kind_of_lasting: "\<not> is_transient e \<Longrightarrow> kind_of (core_of_api e) \<in> {KApi, KProtocol}"
  by (cases e) (simp_all add: is_transient_def)

lemma raises_map_api: "remote_kinds \<subseteq> K \<Longrightarrow> raises K (map_errA core_of_api m)"
  unfolding raises_def map_errA_def map_err_def
  using kind_of_api by (fastforce split: prod.splits sum.splits)

lemma raises_call_api: "remote_kinds \<subseteq> K \<Longrightarrow> raises K (call_api m)"
  unfolding call_api_def by (rule raises_map_api)

lemma raises_log [effect]: "raises K (log_emit l t s)"
  by (simp add: log_emit_def raises_mod)

lemma raises_world [effect]:
  "raises K has_engine" "raises K (tick env)" "raises K (notify ob)" "raises K (sleep_secs n)"
  by (auto simp: raises_def has_engine_def tick_def notify_def sleep_secs_def)

lemma raises_txn [effect]: "raises K (next_txn_id env)"
  unfolding next_txn_id_def by (rule raises_bnd, rule raises_world) (simp add: raises_def)

lemma raises_store_read: "KStorage \<in> K \<Longrightarrow> raises K (store_read cl f)"
  by (auto simp: raises_def store_read_def map_err_def core_of_store_def split: sum.splits)

lemma raises_store_pure [effect]: "raises K (store_read cl (\<lambda>db. Inr (g db)))"
  by (simp add: raises_def store_read_def)

lemma raises_store_write: "KStorage \<in> K \<Longrightarrow> raises K (store_write cl f)"
  by (auto simp: raises_def store_write_def core_of_store_def split: sum.splits)

lemma raises_store_update [effect]: "raises K (store_update cl f)"
  by (simp add: raises_def store_update_def store_write_def)

section \<open>The engine\<close>

lemma raises_keys:
  "KStorage \<in> K \<Longrightarrow> raises K (ks_put env key v)" "KStorage \<in> K \<Longrightarrow> raises K (ks_get env key)"
  "KStorage \<in> K \<Longrightarrow> raises K (ks_delete env key)"
proof -
  have core: "kind_of (core_of_key_store x) = KStorage" for x by (cases x) simp
  show "KStorage \<in> K \<Longrightarrow> raises K (ks_put env key v)" "KStorage \<in> K \<Longrightarrow> raises K (ks_get env key)"
    "KStorage \<in> K \<Longrightarrow> raises K (ks_delete env key)"
    by (auto simp: raises_def ks_put_def ks_get_def ks_delete_def ks_call_def bnd_def core
        split: option.splits prod.splits sum.splits)
qed

lemma raises_device:
  assumes "KCrypto \<in> K"
  shows "raises K the_device" "raises K (on_device f)" "raises K (lift_res (map_err core_of_crypto x))"
    "raises K (lift_res (load_group env d room))" "raises K (lift_res (decode_wire env s what))"
    "raises K (lift_res (decrypt_media env key bs))" "raises K (has_group env room)"
    "raises K (encrypt_media env bs)" "raises K (create_backup env)"
  using assms
  by (auto simp: raises_def the_device_def on_device_def set_device_def bnd_def map_err_def core_of_crypto_def
      load_group_def decode_wire_def decrypt_media_def then_ok_def ok_or_def has_group_def encrypt_media_def
      create_backup_def draw_def split: option.splits sum.splits prod.splits)

lemma raises_persist:
  assumes "KCrypto \<in> K" "KStorage \<in> K"
  shows "raises K (persist_current env)"
  unfolding persist_current_def persist_def
  by (intro effect raises_device [OF assms(1)] raises_keys assms(2))

lemma raises_engine:
  assumes "KCrypto \<in> K" "KStorage \<in> K"
  shows "raises K (create_group env room)" "raises K (add_member env room kp)" "raises K (encrypt env room pt)"
    "raises K (restore_from_backup env key blob)"
proof -
  note rules = effect raises_device [OF assms(1)] raises_persist [OF assms]
  show "raises K (create_group env room)" "raises K (add_member env room kp)" "raises K (encrypt env room pt)"
    unfolding create_group_def add_member_def encrypt_def by (auto intro!: rules)
  show "raises K (restore_from_backup env key blob)"
    unfolding restore_from_backup_def set_device_def by (auto intro!: rules)
qed

section \<open>Local reads, sending, and the inbound pass\<close>

lemma raises_reads:
  "raises {KStorage} (client_list_rooms env cl)" "raises {KStorage} (client_timeline env cl room limit before)"
  unfolding client_list_rooms_def client_timeline_def
  by (auto intro!: effect raises_store_read)

lemma raises_plan [effect]: "raises K (plan_send env cl ps)"
  unfolding plan_send_def by (auto intro!: effect split: sum.split option.split)

lemma raises_flush: "KStorage \<in> K \<Longrightarrow> raises K (flush_pending env cl)"
proof -
  assume K: "KStorage \<in> K"
  have "raises K (flush_loop env cl sends changed)" for sends changed
  proof (induction sends arbitrary: changed)
    case (Cons ps sends)
    then show ?case
      unfolding flush_loop.simps
      by (auto intro!: effect raises_store_write [OF K] split: outgoing.split sum.split)
  qed (simp add: raises_ret)
  then show ?thesis unfolding flush_pending_def by (auto intro!: effect)
qed

lemma raises_send_message: "raises {KStorage} (client_send_message env cl room body)"
proof -
  have "raises {KStorage} (bnd (modA (\<lambda>w. w\<lparr>wd_send_counter := wd_send_counter w + 1\<rparr>)) (\<lambda>_.
     bnd (tick env) (\<lambda>id_reading. bnd (tick env) (\<lambda>reading.
     store_write cl (\<lambda>db. queue_send (ce_codec env) db n (now_millis id_reading) (now_millis reading)
       room (ss_user_id (cl_session cl)) body)))))" for n
    by (intro effect raises_store_write) simp
  then have "raises {KStorage} (queue_message env cl room body)"
    unfolding queue_message_def raises_def by blast
  then show ?thesis
    unfolding client_send_message_def by (auto intro!: effect raises_flush)
qed

lemma raises_inbound:
  assumes "KCrypto \<in> K" "KStorage \<in> K"
  shows "raises K (process_inbound_mls env cl)"
proof -
  note rules = effect raises_on_vault raises_device(7) [OF assms(1)] raises_store_read [OF assms(2)]
  have commit: "raises K (inbound_commit env cl c b)" for c b
    unfolding inbound_commit_def by (auto intro!: rules split: sum.split)
  have message: "raises K (inbound_message env cl m b)" for m b
    unfolding inbound_message_def by (auto intro!: rules split: sum.split)
  have "raises K (inbound_loop env cl items b)" for items b
  proof (induction items arbitrary: b)
    case (Cons item items)
    then show ?case by (cases item) (simp_all add: raises_bnd commit message)
  qed (simp add: raises_ret)
  then show ?thesis
    unfolding process_inbound_mls_def by (auto intro!: rules)
qed

section \<open>The sync loop\<close>

lemma raises_to_device [effect]: "raises K (apply_to_device env resp)"
proof -
  have event: "raises K (to_device_event env ev j)" for ev j
    unfolding to_device_event_def join_welcome_def
    by (auto intro!: effect split: option.split sum.split bool.split)
  have "raises K (to_device_loop env evs j)" for evs j
  proof (induction evs arbitrary: j)
    case (Cons ev evs)
    then show ?case by (simp add: raises_bnd event)
  qed (simp add: raises_ret)
  then show ?thesis unfolding apply_to_device_def by (auto intro!: effect split: option.split)
qed

lemma raises_sync: "raises {KStorage, KCrypto, KApi, KProtocol} (run_sync env cl n)"
proof -
  let ?K = "{KStorage, KCrypto, KApi, KProtocol}"
  have batch: "raises ?K (handle_batch env cl resp)" for resp
    unfolding handle_batch_def apply_sync_def persist_sync_token_def
    by (auto intro!: effect raises_store_write raises_inbound raises_flush split: option.split)
  have fatal: "raises ?K (raise (core_of_api e))" if "\<not> is_transient e" for e
    using kind_of_lasting [OF that] by (auto intro: raises_raise)
  have "raises ?K (sync_cycle env cl b)" for b
    unfolding sync_cycle_def back_off_def
    by (auto intro!: effect batch fatal split: sum.split)
  then have "raises ?K (sync_cycles env cl n b)" for b
    by (induction n arbitrary: b) (simp_all add: raises_ret raises_bnd)
  then show ?thesis by (simp add: run_sync_def)
qed

section \<open>The session and the rooms\<close>

lemma raises_logout: "raises {KStorage} (client_logout env cl)"
  unfolding client_logout_def e2ee_clear_def
  by (auto intro!: effect raises_on_vault raises_keys split: sum.split)

lemma raises_publish [effect]: "raises K (publish_device_keys env cl)"
  using publish_total by (intro raises_never) blast

lemma raises_open_store:
  assumes "KStorage \<in> K"
  shows "raises K (open_store env)"
proof (cases "ce_store_dir env")
  case None
  then have "open_store env = bnd (log_emit LWarn ''session''
        ''no store dir set; using in-memory store (data will not survive restart)'')
      (\<lambda>_. (\<lambda>w. (Inr (InMemory (wd_memory_stores w)),
         w\<lparr>wd_stores := (wd_stores w)(InMemory (wd_memory_stores w) := empty_db),
           wd_memory_stores := Suc (wd_memory_stores w)\<rparr>)))"
    by (simp add: open_store_def)
  then show ?thesis
    by (simp only:) (intro raises_bnd raises_log raises_value)
next
  case (Some dir)
  have "raises K (lift_res (map_err (\<lambda>e. core_of_store (Db e)) (ce_open env (path_join dir STORE_FILE))))"
    using assms by (intro raises_lift) (auto simp: map_err_def core_of_store_def split: sum.splits)
  then show ?thesis
    using Some unfolding open_store_def by (simp only: option.case) (rule raises_bnd, assumption, rule raises_ret)
qed

lemma raises_engine_setup [effect]:
  "raises K (create_engine env user)" "raises K (restore_or_mint_e2ee env user)"
  "raises K (on_vault (install_engine d))"
proof -
  show "raises K (create_engine env user)"
    unfolding create_engine_def by (auto intro!: effect split: sum.split)
  then show "raises K (restore_or_mint_e2ee env user)"
    unfolding restore_or_mint_e2ee_def mint_e2ee_def by (auto intro!: effect split: sum.split option.split)
  show "raises K (on_vault (install_engine d))"
    unfolding install_engine_def by (intro raises_on_vault effect)
qed

lemma raises_api_new: "KNetwork \<in> K \<Longrightarrow> raises K (lift_res (map_err core_of_api (api_new built base token)))"
  by (auto intro!: raises_lift simp: api_new_def then_ok_def map_err_def split: sum.splits)

lemma raises_sign_in:
  "raises (insert KStorage remote_kinds) (client_login env server user password)"
  "raises (insert KStorage remote_kinds) (client_register env server user password)"
proof -
  have "raises (insert KStorage remote_kinds) (finish_login env server a auth)" for a auth
    unfolding finish_login_def Let_def
    by (auto intro!: effect raises_on_vault [of _ "ks_put _ _ _"] raises_keys raises_open_store)
  then show "raises (insert KStorage remote_kinds) (client_login env server user password)"
    "raises (insert KStorage remote_kinds) (client_register env server user password)"
    unfolding client_login_def client_register_def
    by (auto intro!: effect raises_call_api raises_api_new) (auto simp: remote_kinds_def)
qed

lemma raises_restore:
  assumes "{KStorage, KApi, KRateLimit, KProtocol} \<subseteq> K" "ce_http env \<noteq> Inr () \<Longrightarrow> KNetwork \<in> K"
  shows "raises K (restore_session env)"
proof -
  have K: "KStorage \<in> K" "KApi \<in> K" "KRateLimit \<in> K" "KProtocol \<in> K" using assms(1) by simp_all
  have decode: "raises K (lift_res (decode_session jt bs))" for jt bs
    using K(1) by (auto intro!: raises_lift simp: decode_session_def Let_def then_ok_def map_err_def ok_or_def
        split: sum.splits option.splits)
  have new: "raises K (lift_res (map_err core_of_api (api_new (ce_http env) base token)))" for base token
    using assms(2)
    by (cases "ce_http env") (auto intro!: raises_lift simp: api_new_def then_ok_def map_err_def split: sum.splits)
  have client: "raises K (restored_client env a s)" for a s
    unfolding restored_client_def by (auto intro!: effect raises_open_store K)
  have get: "raises K (on_vault (ks_get (ce_crypto env) SESSION_KEY))"
    "raises K (on_vault (ks_delete (ce_crypto env) SESSION_KEY))"
    by (intro raises_on_vault raises_keys K)+
  show ?thesis
    unfolding restore_session_def
    using K by (auto intro!: effect decode new get client raises_raise split: option.split sum.split api_error.split)
qed

lemma raises_remote:
  "raises remote_kinds (client_create_room env cl nm topic)" "raises remote_kinds (client_join_room env cl room)"
  "raises remote_kinds (client_upload_media env cl bs ct)" "raises remote_kinds (client_download_media env cl uri)"
proof -
  have parse: "raises remote_kinds (lift_res (parse_content_uri uri))" for uri
    by (intro raises_lift) (auto dest: parse_content_uri_error simp: remote_kinds_def)
  have too_large: "raises remote_kinds (raise (Api LimitExceeded m))" for m
    by (intro raises_raise) (simp add: remote_kinds_def)
  show "raises remote_kinds (client_create_room env cl nm topic)" "raises remote_kinds (client_join_room env cl room)"
    "raises remote_kinds (client_upload_media env cl bs ct)" "raises remote_kinds (client_download_media env cl uri)"
    unfolding client_create_room_def client_join_room_def client_upload_media_def client_download_media_def
    by (auto intro!: effect raises_call_api parse too_large)
qed

lemma raises_with_crypto:
  "raises (insert KCrypto remote_kinds) (download_image env cl img)"
  "raises (insert KCrypto remote_kinds) (backup env cl)"
proof -
  have download: "raises (insert KCrypto remote_kinds) (client_download_media env cl uri)" for uri
    by (rule raises_mono [OF raises_remote(4)]) auto
  show "raises (insert KCrypto remote_kinds) (download_image env cl img)"
    unfolding download_image_def
    by (auto intro!: effect download raises_on_vault raises_device split: option.split)
  show "raises (insert KCrypto remote_kinds) (backup env cl)"
    unfolding backup_def by (auto intro!: effect raises_on_vault raises_device raises_call_api)
qed

text \<open>
  C20: The errors of a method have the kinds its documentation promises, whatever the server, the
  cryptography and the host do. Local reads, sending a message and logging out fail with storage
  errors only, so being offline or rate limited is never an error of a send; the sync loop ends neither
  with a network error nor with a rate limit; a failure of the cryptography never fails a login or the
  restoring of a session; restoring is never a network error unless the HTTP client cannot be built.
\<close>

theorem methods_error_types:
  "raises {KStorage} (client_list_rooms env cl) \<and> raises {KStorage} (client_timeline env cl room limit before) \<and>
   raises {KStorage} (client_send_message env cl room body) \<and> raises {KStorage} (flush_pending env cl) \<and>
   raises {KStorage} (client_logout env cl) \<and>
   raises {KStorage, KCrypto} (process_inbound_mls env cl) \<and>
   raises {KStorage, KCrypto, KApi, KProtocol} (run_sync env cl n) \<and>
   raises {KStorage, KApi, KRateLimit, KNetwork, KProtocol} (client_login env server user password) \<and>
   raises {KStorage, KApi, KRateLimit, KNetwork, KProtocol} (client_register env server user password) \<and>
   raises ({KStorage, KApi, KRateLimit, KProtocol} \<union> (if ce_http env = Inr () then {} else {KNetwork}))
     (restore_session env) \<and>
   raises {KApi, KRateLimit, KNetwork, KProtocol} (client_create_room env cl nm topic) \<and>
   raises {KApi, KRateLimit, KNetwork, KProtocol} (client_upload_media env cl bs ct) \<and>
   raises {KCrypto, KApi, KRateLimit, KNetwork, KProtocol} (download_image env cl img) \<and>
   raises {KCrypto, KApi, KRateLimit, KNetwork, KProtocol} (backup env cl)"
  using raises_sign_in raises_remote raises_with_crypto unfolding remote_kinds_def
  by (intro conjI raises_reads raises_send_message raises_flush raises_logout raises_inbound raises_sync raises_restore)
    simp_all

end
