(* ===== verification/Sync_Loop.thy ===== *)
theory Sync_Loop
  imports Sync_Spec Overlap
begin

text \<open>
  \<open>run_sync\<close> as the endless loop it is in \<open>core/src/sync.rs\<close>: a partial function whose value is \<open>None\<close> when the
  loop never ends.  The counted form of the theory of the sync loop is its run up to a cancellation;
  the two are related cycle by cycle.
\<close>

partial_function (option) sync_loop ::
  "('w, 'd, 'g, 'k, 't) client_env \<Rightarrow> pigeon_client \<Rightarrow> nat \<Rightarrow> ('w, 'd, 'k, 't) world \<Rightarrow>
   (core_error \<times> ('w, 'd, 'k, 't) world) option" where
  "sync_loop env cl backoff w =
     (case sync_cycle env cl backoff w of
        (Inl e, w') \<Rightarrow> Some (e, w')
      | (Inr backoff', w') \<Rightarrow> sync_loop env cl backoff' w')"

definition run_sync_forever ::
  "('w, 'd, 'g, 'k, 't) client_env \<Rightarrow> pigeon_client \<Rightarrow> ('w, 'd, 'k, 't) world \<Rightarrow>
   (core_error \<times> ('w, 'd, 'k, 't) world) option" where
  "run_sync_forever env cl w = sync_loop env cl BACKOFF_START w"

lemma sync_loop_step:
  "sync_cycle env cl b w = (Inl e, w') \<Longrightarrow> sync_loop env cl b w = Some (e, w')"
  "sync_cycle env cl b w = (Inr b', w') \<Longrightarrow> sync_loop env cl b w = sync_loop env cl b' w'"
  by (subst sync_loop.simps, simp)+

lemma sync_loop_returned:
  assumes "sync_loop env cl b w = Some r"
  shows "\<exists>n. sync_cycles env cl n b w = (Inl (fst r), snd r)"
proof (rule sync_loop.raw_induct [where P = "\<lambda>env cl b w r. \<exists>n. sync_cycles env cl n b w = (Inl (fst r), snd r)",
      OF _ assms])
  fix f env cl b w r
  assume ih: "\<And>env cl b w r. f env cl b w = Some r \<Longrightarrow> \<exists>n. sync_cycles env cl n b w = (Inl (fst r), snd r)"
    and run: "(case sync_cycle env cl b w of (Inl e, w') \<Rightarrow> Some (e, w') | (Inr b', w') \<Rightarrow> f env cl b' w') = Some r"
  obtain x w1 where c: "sync_cycle env cl b w = (x, w1)" by (cases "sync_cycle env cl b w")
  show "\<exists>n. sync_cycles env cl n b w = (Inl (fst r), snd r)"
  proof (cases x)
    case (Inl e)
    with run c have "sync_cycles env cl (Suc 0) b w = (Inl (fst r), snd r)"
      by (auto simp: bnd_eval(1) [of "sync_cycle env cl b" w])
    then show ?thesis by blast
  next
    case (Inr b')
    with run c ih obtain n where "sync_cycles env cl n b' w1 = (Inl (fst r), snd r)" by fastforce
    then have "sync_cycles env cl (Suc n) b w = (Inl (fst r), snd r)"
      using c Inr by (simp add: bnd_eval(2) [of "sync_cycle env cl b" w])
    then show ?thesis by blast
  qed
qed

lemma sync_loop_ended:
  "sync_cycles env cl n b w = (Inl e, w') \<Longrightarrow> sync_loop env cl b w = Some (e, w')"
proof (induction n arbitrary: b w)
  case (Suc n)
  obtain x w1 where c: "sync_cycle env cl b w = (x, w1)" by (cases "sync_cycle env cl b w")
  show ?case
  proof (cases x)
    case (Inl e')
    with Suc.prems c show ?thesis
      by (simp add: bnd_eval(1) [of "sync_cycle env cl b" w] sync_loop_step(1))
  next
    case (Inr b')
    with Suc c show ?thesis
      by (simp add: bnd_eval(2) [of "sync_cycle env cl b" w] sync_loop_step(2))
  qed
qed simp

lemma sync_loop_iff: "sync_loop env cl b w = Some (e, w') \<longleftrightarrow> (\<exists>n. sync_cycles env cl n b w = (Inl e, w'))"
  using sync_loop_returned [of env cl b w "(e, w')"] sync_loop_ended by fastforce

lemma sync_loop_None:
  "sync_loop env cl b w = None \<longleftrightarrow> (\<forall>n. \<exists>b' w'. sync_cycles env cl n b w = (Inr b', w'))"
proof
  assume none: "sync_loop env cl b w = None"
  show "\<forall>n. \<exists>b' w'. sync_cycles env cl n b w = (Inr b', w')"
  proof
    fix n
    show "\<exists>b' w'. sync_cycles env cl n b w = (Inr b', w')"
      using none sync_loop_ended [of env cl n b w]
      by (cases "sync_cycles env cl n b w"; cases "fst (sync_cycles env cl n b w)") auto
  qed
next
  assume runs: "\<forall>n. \<exists>b' w'. sync_cycles env cl n b w = (Inr b', w')"
  show "sync_loop env cl b w = None"
  proof (rule ccontr)
    assume "sync_loop env cl b w \<noteq> None"
    then obtain e w' where "sync_loop env cl b w = Some (e, w')" by auto
    then obtain n where "sync_cycles env cl n b w = (Inl e, w')" unfolding sync_loop_iff by blast
    with runs [rule_format, of n] show False by auto
  qed
qed

text \<open>
  C17: The sync loop returns exactly when one of its turns fails, and then with that turn's error: it
  never returns normally, and a run that the host cancels after any number of turns is a prefix of it.
  While the server cannot be reached it does not return at all, from any state; and it ends in the
  turn in which the server gives an answer that retrying cannot cure, without sleeping again.
\<close>

theorem sync_loop_termination:
  "(run_sync_forever env cl w = Some (e, w') \<longleftrightarrow> (\<exists>n. run_sync env cl n w = (Inl e, w'))) \<and>
   (run_sync_forever env cl w = None \<longleftrightarrow> (\<forall>n. \<exists>b w'. run_sync env cl n w = (Inr b, w'))) \<and>
   (unreachable (ce_server env) \<longrightarrow> run_sync_forever env cl w = None) \<and>
   (\<forall>n b w1 err w2. run_sync env cl n w = (Inr b, w1) \<and> \<not> is_transient err \<and>
      on_net (sync (ce_server env) (cl_api cl) (load_sync_token (wd_stores w1 (cl_store cl)))
        SYNC_TIMEOUT_MS SYNC_LIMIT) w1 = (Inl err, w2) \<longrightarrow>
      run_sync_forever env cl w = Some (core_of_api err, w2))"
proof (intro conjI impI allI)
  show "run_sync_forever env cl w = Some (e, w') \<longleftrightarrow> (\<exists>n. run_sync env cl n w = (Inl e, w'))"
    "run_sync_forever env cl w = None \<longleftrightarrow> (\<forall>n. \<exists>b w'. run_sync env cl n w = (Inr b, w'))"
    by (simp_all add: run_sync_forever_def run_sync_def sync_loop_iff sync_loop_None)
next
  assume "unreachable (ce_server env)"
  from cycles_offline [OF this, of cl _ 0 w] show "run_sync_forever env cl w = None"
    by (simp add: run_sync_forever_def sync_loop_None BACKOFF_START_def BACKOFF_MAX_def) blast
next
  fix n b w1 err w2
  assume a: "run_sync env cl n w = (Inr b, w1) \<and> \<not> is_transient err \<and>
      on_net (sync (ce_server env) (cl_api cl) (load_sync_token (wd_stores w1 (cl_store cl)))
        SYNC_TIMEOUT_MS SYNC_LIMIT) w1 = (Inl err, w2)"
  then have last: "sync_cycle env cl b w1 = (Inl (core_of_api err), w2)"
    by (simp add: sync_cycle_def bnd_def store_read_def catch_def raise_def)
  have "sync_cycles env cl (n + 1) b0 w0 = (Inl (core_of_api err), w2)"
    if "sync_cycles env cl n b0 w0 = (Inr b, w1)" for n b0 w0
    using that
  proof (induction n arbitrary: b0 w0)
    case 0
    then show ?case using last by (simp add: bnd_eval(1) [of "sync_cycle env cl b" w1])
  next
    case (Suc n)
    then obtain b1 w' where "sync_cycle env cl b0 w0 = (Inr b1, w')" "sync_cycles env cl n b1 w' = (Inr b, w1)"
      by (auto simp: bnd_Inr_iff)
    with Suc.IH show ?case by (simp add: bnd_eval(2) [of "sync_cycle env cl b0" w0])
  qed
  from this [of n BACKOFF_START w] a show "run_sync_forever env cl w = Some (core_of_api err, w2)"
    unfolding run_sync_forever_def run_sync_def using sync_loop_ended by blast
qed

lemma unknown_token_fatal: "\<not> is_transient (ServerErr st UnknownToken m)"
  by (simp add: is_transient_def)

theorem sync_loop_termination_witness:
  "run_sync_forever (toy_env down_server) toy_client (toy_world None db_name) = None \<and>
   (\<exists>w2. run_sync_forever (toy_env revoked_server) toy_client (toy_world None db_name) =
      Some (Api UnknownToken ''gone'', w2))"
proof -
  let ?env = "toy_env revoked_server" and ?w = "toy_world None db_name"
  let ?body = "JObj [(''errcode'', JStr ''P_UNKNOWN_TOKEN''), (''error'', JStr ''gone'')]"
  have e: "parse_error 401 ?body = ServerErr 401 UnknownToken ''gone''" by code_simp
  obtain n where r: "on_net (sync (ce_server ?env) (cl_api toy_client) (load_sync_token (wd_stores ?w (cl_store toy_client)))
      SYNC_TIMEOUT_MS SYNC_LIMIT) ?w = (Inl (ServerErr 401 UnknownToken ''gone''), ?w\<lparr>wd_net := n\<rparr>)"
    by (simp add: toy_env_def revoked_server_def on_net_def sync_def reply_send e is_success_def)
  have start: "run_sync ?env toy_client 0 ?w = (Inr BACKOFF_START, ?w)" by (simp add: run_sync_def)
  have "run_sync_forever ?env toy_client ?w = Some (core_of_api (ServerErr 401 UnknownToken ''gone''), ?w\<lparr>wd_net := n\<rparr>)"
    using sync_loop_termination [of ?env toy_client ?w] start r
    by (metis (no_types, lifting) unknown_token_fatal)
  moreover have "run_sync_forever (toy_env down_server) toy_client ?w = None"
    using sync_loop_termination [of "toy_env down_server" toy_client ?w] down_unreachable by blast
  ultimately show ?thesis by simp
qed

section \<open>Outages\<close>

text \<open>
  A server, or a proxy in front of it, that answers every request with a failure status and no error
  code of the protocol: an overloaded gateway, say.
\<close>

definition outage :: "'w server \<Rightarrow> bool" where
  "outage srv \<longleftrightarrow> (\<forall>rq s. \<exists>rp s'. srv rq s = (Inr rp, s') \<and> \<not> is_success (rp_status rp) \<and>
     (case rp_json rp of None \<Rightarrow> True | Some v \<Rightarrow> as_str (jindex v ''errcode'') = None))"

lemma send_outage:
  assumes "outage srv"
  obtains st m n where "on_net (send srv rq) w = (Inl (ServerErr st Unknown m), w\<lparr>wd_net := n\<rparr>)"
proof -
  obtain rp s where "srv rq (net_remote (wd_net w)) = (Inr rp, s)" "\<not> is_success (rp_status rp)"
      "case rp_json rp of None \<Rightarrow> True | Some v \<Rightarrow> as_str (jindex v ''errcode'') = None"
    using assms unfolding outage_def by blast
  then show thesis
    using that by (cases "rp_json rp") (simp_all add: on_net_def send_def exchange_def bnd_def Let_def parse_error_def)
qed

lemma send_event_outage:
  assumes "outage srv"
  obtains st m n where "on_net (send_event srv a room ty txn content) w = (Inl (ServerErr st Unknown m), w\<lparr>wd_net := n\<rparr>)"
proof -
  obtain rq st m n where "on_net (send srv rq) w = (Inl (ServerErr st Unknown m), w\<lparr>wd_net := n\<rparr>)"
      "send_event srv a room ty txn content = bnd (send srv rq) (\<lambda>body. lift_res (json_string body ''event_id''))"
    using send_outage [OF assms] unfolding send_event_def put_def by metis
  then show thesis
    using that by (simp add: on_net_def bnd_def split: prod.splits sum.splits)
qed

lemma unknown_fatal: "\<not> is_transient (ServerErr st Unknown m)"
  by (simp add: is_transient_def)

text \<open>The queue after every message of a pass was refused.\<close>

definition refuse_all :: "'t db \<Rightarrow> pending_send list \<Rightarrow> 't db" where
  "refuse_all db sends = foldl (\<lambda>db ps. fail_send db (ps_txn_id ps)) db sends"

lemma refuse_all_frame:
  "room_state (refuse_all db sends) = room_state db"
  "pending_sends_tab (refuse_all db sends) =
     filter (\<lambda>p. p_txn_id p \<notin> ps_txn_id ` set sends) (pending_sends_tab db)"
proof -
  show "room_state (refuse_all db sends) = room_state db"
    unfolding refuse_all_def by (induction sends arbitrary: db) simp_all
  show "pending_sends_tab (refuse_all db sends) =
      filter (\<lambda>p. p_txn_id p \<notin> ps_txn_id ` set sends) (pending_sends_tab db)"
    unfolding refuse_all_def
    by (induction sends arbitrary: db) (auto simp: fail_send_tab intro!: filter_cong)
qed

definition shown_failed :: "'t db \<Rightarrow> string \<Rightarrow> bool" where
  "shown_failed db eid \<longleftrightarrow> (\<forall>r\<in>set (events db). r_event_id r = eid \<longrightarrow> r_local r = 2)"

lemma fail_send_events:
  "events (fail_send db txn) =
     (case find_row p_txn_id txn (pending_sends_tab db) of None \<Rightarrow> events db
      | Some p \<Rightarrow> upd_rows (\<lambda>r. r_event_id r = p_event_id p) (\<lambda>r. r\<lparr>r_local := 2\<rparr>) (events db))"
  by (simp add: fail_send_def dequeue_def split: option.split)

lemma shown_failed_stays: "shown_failed db eid \<Longrightarrow> shown_failed (fail_send db txn) eid"
  by (auto simp: shown_failed_def fail_send_events upd_rows_def split: option.splits if_splits)

lemma refuse_all_stays: "shown_failed db eid \<Longrightarrow> shown_failed (refuse_all db sends) eid"
  unfolding refuse_all_def by (induction sends arbitrary: db) (simp_all add: shown_failed_stays)

lemma refuse_all_fails:
  assumes "distinct (map p_txn_id (pending_sends_tab db))" "p \<in> set (pending_sends_tab db)"
    and "p_txn_id p \<in> ps_txn_id ` set sends"
  shows "shown_failed (refuse_all db sends) (p_event_id p)"
  using assms
proof (induction sends arbitrary: db)
  case (Cons ps sends)
  let ?db = "fail_send db (ps_txn_id ps)"
  have step: "refuse_all db (ps # sends) = refuse_all ?db sends" by (simp add: refuse_all_def)
  show ?case
  proof (cases "p_txn_id p = ps_txn_id ps")
    case True
    have "find_row p_txn_id (p_txn_id p) (pending_sends_tab db) = Some p"
      using Cons.prems(1,2) by (rule find_row_distinct)
    then have "shown_failed ?db (p_event_id p)"
      using True by (auto simp: shown_failed_def fail_send_events upd_rows_def)
    then show ?thesis unfolding step by (rule refuse_all_stays)
  next
    case False
    then show ?thesis
      unfolding step using Cons by (intro Cons.IH) (auto simp: fail_send_tab distinct_key_filter)
  qed
qed simp

text \<open>In an outage every message of a pass is refused or held back for its encrypted room.\<close>

lemma refuse_loop:
  assumes "outage (ce_server env)"
  shows "\<exists>refused w'. flush_loop env cl sends changed w = (Inr (changed \<or> refused \<noteq> []), w') \<and>
      wd_stores w' (cl_store cl) = refuse_all (wd_stores w (cl_store cl)) refused \<and> set refused \<subseteq> set sends \<and>
      (\<forall>ps\<in>set sends. ps \<in> set refused \<or> is_room_encrypted (wd_stores w (cl_store cl)) (ps_room_id ps))"
proof (induction sends arbitrary: w changed)
  case Nil
  then show ?case by (intro exI [of _ "[]"]) (simp add: refuse_all_def)
next
  case (Cons ps sends)
  let ?db = "wd_stores w (cl_store cl)"
  obtain plan w1 where w1: "plan_send env cl ps w = (Inr plan, w1)" "wd_stores w1 = wd_stores w"
      "planned (ce_crypto env) ?db ps (vt_device (wd_vault w)) plan (vt_device (wd_vault w1))"
    using plan_send_run by metis
  note run = flush_loop.simps bnd_eval(2) [of "plan_send env cl ps" w, OF w1(1)]
  have enc: "is_room_encrypted (fail_send ?db (ps_txn_id ps)) = is_room_encrypted ?db"
    by (intro ext) (simp add: is_room_encrypted_def)
  have refuse: ?case
    if "flush_loop env cl (ps # sends) changed w =
        flush_loop env cl sends True (put_db cl w2 (fail_send ?db (ps_txn_id ps)))" for w2
  proof -
    obtain refused w' where r: "flush_loop env cl sends True (put_db cl w2 (fail_send ?db (ps_txn_id ps))) =
        (Inr (True \<or> refused \<noteq> []), w')"
        "wd_stores w' (cl_store cl) = refuse_all (fail_send ?db (ps_txn_id ps)) refused" "set refused \<subseteq> set sends"
        "\<forall>ps\<in>set sends. ps \<in> set refused \<or> is_room_encrypted ?db (ps_room_id ps)"
      using Cons.IH [of True "put_db cl w2 (fail_send ?db (ps_txn_id ps))"] by (auto simp: put_db_def enc)
    then show ?thesis
      unfolding that by (intro exI [of _ "ps # refused"] exI [of _ w']) (auto simp: refuse_all_def)
  qed
  show ?case
  proof (cases plan)
    case Held
    then have "is_room_encrypted ?db (ps_room_id ps)" using w1(3) by (simp add: planned_def)
    moreover have "flush_loop env cl (ps # sends) changed w = flush_loop env cl sends changed w1"
      unfolding run by (simp add: Held)
    ultimately show ?thesis using Cons.IH [of changed w1] w1(2) by auto
  next
    case Unencryptable
    have "flush_loop env cl (ps # sends) changed w = flush_loop env cl sends True (put_db cl w1 (fail_send ?db (ps_txn_id ps)))"
      unfolding run by (simp add: Unencryptable bnd_def store_update_def store_write_def put_db_def w1(2))
    then show ?thesis by (rule refuse)
  next
    case (Transmit ty content)
    obtain st m n where n: "on_net (send_event (ce_server env) (cl_api cl) (ps_room_id ps) ty (ps_txn_id ps) content) w1 =
        (Inl (ServerErr st Unknown m), w1\<lparr>wd_net := n\<rparr>)"
      using send_event_outage [OF assms] .
    have "flush_loop env cl (ps # sends) changed w =
        flush_loop env cl sends True (put_db cl (w1\<lparr>wd_net := n\<rparr>) (fail_send ?db (ps_txn_id ps)))"
      unfolding run
      by (simp add: Transmit catch_def n unknown_fatal bnd_def store_update_def store_write_def put_db_def w1(2))
    then show ?thesis by (rule refuse)
  qed
qed

lemma sends_of_tab: "ps_txn_id ` set (pending_sends db) = p_txn_id ` set (pending_sends_tab db)"
  by (auto simp: pending_sends_def send_of_row_def image_image)

lemma refused_or_held:
  assumes "db_inv cx db" "db' = refuse_all db refused"
    and "\<forall>ps\<in>set (pending_sends db). ps \<in> set refused \<or> is_room_encrypted db (ps_room_id ps)"
    and "p \<in> set (pending_sends_tab db)"
  shows "p \<notin> set (pending_sends_tab db') \<and> shown_failed db' (p_event_id p) \<or>
    p \<in> set (pending_sends_tab db') \<and> is_room_encrypted db (p_room_id p)"
proof (cases "p_txn_id p \<in> ps_txn_id ` set refused")
  case True
  have "distinct (map p_txn_id (pending_sends_tab db))" using assms(1) by (simp add: db_inv_def keys_inv_def)
  from refuse_all_fails [OF this assms(4) True] True show ?thesis by (simp add: assms(2) refuse_all_frame)
next
  case False
  have "send_of_row p \<in> set (pending_sends db)" using assms(4) by (simp add: pending_sends_def)
  moreover have "send_of_row p \<notin> set refused" using False by (auto simp: send_of_row_def image_iff)
  ultimately have "is_room_encrypted db (p_room_id p)" using assms(3) by (auto simp: send_of_row_def)
  then show ?thesis using False assms(4) by (simp add: assms(2) refuse_all_frame)
qed

text \<open>
  C31: An outage is taken for a refusal. When the answers are failures without an error code of the
  protocol (a gateway's 502, an overloaded server's 429 without the code), the sync loop returns at once
  with an API error, which the application reads as signed out, and a flush pass marks every queued
  message as failed and drops it from the queue, so that it is not retried, except those it holds
  back for an encrypted room.
\<close>

theorem outage_is_final:
  assumes "outage (ce_server env)" "reachable (ce_codec env) (wd_stores w (cl_store cl))"
  shows "(\<exists>m w'. run_sync_forever env cl w = Some (Api Unknown m, w')) \<and>
    (\<exists>changed w'. flush_pending env cl w = (Inr changed, w') \<and>
       (\<forall>p\<in>set (pending_sends_tab (wd_stores w (cl_store cl))).
          p \<notin> set (pending_sends_tab (wd_stores w' (cl_store cl))) \<and> shown_failed (wd_stores w' (cl_store cl)) (p_event_id p) \<or>
          p \<in> set (pending_sends_tab (wd_stores w' (cl_store cl))) \<and>
            is_room_encrypted (wd_stores w (cl_store cl)) (p_room_id p)))"
proof -
  let ?db = "wd_stores w (cl_store cl)"
  obtain st m n where "on_net (sync (ce_server env) (cl_api cl) (load_sync_token ?db)
      SYNC_TIMEOUT_MS SYNC_LIMIT) w = (Inl (ServerErr st Unknown m), w\<lparr>wd_net := n\<rparr>)"
    using send_outage [OF assms(1)] unfolding sync_def by metis
  then have "sync_cycle env cl BACKOFF_START w = (Inl (Api Unknown m), w\<lparr>wd_net := n\<rparr>)"
    by (simp add: sync_cycle_def bnd_def store_read_def catch_def unknown_fatal raise_def)
  then have loop: "run_sync_forever env cl w = Some (Api Unknown m, w\<lparr>wd_net := n\<rparr>)"
    unfolding run_sync_forever_def by (rule sync_loop_step(1))
  obtain refused w' where w': "flush_loop env cl (pending_sends ?db) False w = (Inr (False \<or> refused \<noteq> []), w')"
      "wd_stores w' (cl_store cl) = refuse_all ?db refused"
      "\<forall>ps\<in>set (pending_sends ?db). ps \<in> set refused \<or> is_room_encrypted ?db (ps_room_id ps)"
    using refuse_loop [OF assms(1), of cl "pending_sends ?db" False w] by blast
  have flush: "flush_pending env cl w = (Inr (False \<or> refused \<noteq> []), w')"
    using w'(1) by (simp add: flush_pending_def bnd_def store_read_def)
  note fates = refused_or_held [OF reachable_inv [OF assms(2)] w'(2,3)]
  show ?thesis
  proof (rule conjI)
    show "\<exists>m w'. run_sync_forever env cl w = Some (Api Unknown m, w')" using loop by blast
  qed (intro exI conjI, rule flush, intro ballI, rule fates)
qed

text \<open>A gateway that is down.\<close>

definition gateway_server :: "unit server" where
  "gateway_server = (\<lambda>rq w. (Inr \<lparr> rp_status = 502, rp_json = None, rp_bytes = Inr [] \<rparr>, w))"

lemma plain_db_sent: "list_all (\<lambda>ps. \<not> is_room_encrypted db_sent (ps_room_id ps)) (pending_sends db_sent)"
  by code_simp

theorem outage_is_final_witness:
  "(\<exists>m w'. run_sync_forever (toy_env gateway_server) toy_client (toy_world (Some []) db_sent) = Some (Api Unknown m, w')) \<and>
   pending_sends_tab db_sent \<noteq> [] \<and>
   (\<exists>changed w'. flush_pending (toy_env gateway_server) toy_client (toy_world (Some []) db_sent) = (Inr changed, w') \<and>
      (\<forall>p\<in>set (pending_sends_tab db_sent). p \<notin> set (pending_sends_tab (wd_stores w' (cl_store toy_client)))))"
proof -
  have "outage (ce_server (toy_env gateway_server))"
    by (simp add: outage_def toy_env_def gateway_server_def is_success_def)
  moreover have "reachable (ce_codec (toy_env gateway_server)) (wd_stores (toy_world (Some []) db_sent) (cl_store toy_client))"
    using reach_db_sent by (simp add: toy_env_def toy_world_def)
  moreover have "p \<in> set (pending_sends_tab db_sent) \<Longrightarrow> \<not> is_room_encrypted db_sent (p_room_id p)" for p
    using plain_db_sent by (auto simp: list_all_iff pending_sends_def send_of_row_def)
  moreover have "pending_sends_tab db_sent \<noteq> []" by (simp add: db_sent_def)
  moreover have "wd_stores (toy_world (Some []) db_sent) (cl_store toy_client) = db_sent" by (simp add: toy_world_def)
  ultimately show ?thesis
    using outage_is_final [of "toy_env gateway_server" "toy_world (Some []) db_sent" toy_client] by metis
qed

end
