(* ===== verification/Inbound_Spec.thy ===== *)
theory Inbound_Spec
  imports Client_Inv
begin

text \<open>
  The pass over inbound MLS events, \<open>process_inbound_mls\<close>: every pending event it can handle is decided
  once, in the order of the list, and exactly the ones that have to wait are still pending afterwards.
\<close>

section \<open>Deciding pending events\<close>

fun item_id :: "pending_mls_item \<Rightarrow> string" where
  "item_id (MlsMessage m) = pd_event_id m"
| "item_id (MlsCommit c) = pc_event_id c"

fun item_room :: "pending_mls_item \<Rightarrow> string" where
  "item_room (MlsMessage m) = pd_room_id m"
| "item_room (MlsCommit c) = pc_room_id c"

text \<open>What a decision may change of a row.\<close>

definition erase_mls :: "'t event_row \<Rightarrow> 't event_row" where
  "erase_mls r = r\<lparr>r_decrypted := None, r_decrypt_state := 0\<rparr>"

lemma erase_mls_fields:
  "erase_mls r = erase_mls r' \<Longrightarrow> r_event_id r = r_event_id r' \<and> r_type r = r_type r'"
  unfolding erase_mls_def
  by (metis event_row.select_convs(1,4) event_row.surjective event_row.update_convs(10,11))

text \<open>
  The store after the events \<open>ids\<close> were decided: their rows have a decryption state and perhaps a
  plaintext, and nothing else has changed.
\<close>

definition decides :: "string set \<Rightarrow> ('t event_row \<Rightarrow> 't event_row) \<Rightarrow> bool" where
  "decides ids g \<longleftrightarrow> (\<forall>r. r_event_id r \<notin> ids \<longrightarrow> g r = r) \<and>
     (\<forall>r. r_event_id r \<in> ids \<longrightarrow> erase_mls (g r) = erase_mls r \<and> r_decrypt_state (g r) \<noteq> 0)"

definition decided :: "'t db \<Rightarrow> string set \<Rightarrow> 't db \<Rightarrow> bool" where
  "decided db ids db' \<longleftrightarrow> sync_token db' = sync_token db \<and> room_state db' = room_state db \<and>
     pending_sends_tab db' = pending_sends_tab db \<and> (\<exists>g. events db' = map g (events db) \<and> decides ids g)"

lemma decides_keeps: "decides ids g \<Longrightarrow> r_event_id (g r) = r_event_id r \<and> r_type (g r) = r_type r"
  by (cases "r_event_id r \<in> ids") (auto simp: decides_def dest: erase_mls_fields)

lemma decides_comp:
  assumes "decides ids g" "decides ids' h"
  shows "decides (ids \<union> ids') (h \<circ> g)"
  unfolding decides_def
proof (intro conjI allI impI)
  fix r :: "'a event_row"
  have id: "r_event_id (g r) = r_event_id r" using decides_keeps [OF assms(1)] by blast
  have erase: "erase_mls (g r) = erase_mls r" "erase_mls (h (g r)) = erase_mls (g r)"
    using assms unfolding decides_def by metis+
  show "r_event_id r \<notin> ids \<union> ids' \<Longrightarrow> (h \<circ> g) r = r"
    using assms by (simp add: decides_def)
  assume r: "r_event_id r \<in> ids \<union> ids'"
  show "erase_mls ((h \<circ> g) r) = erase_mls r" using erase by simp
  show "r_decrypt_state ((h \<circ> g) r) \<noteq> 0"
    using r id assms unfolding decides_def by (metis Un_iff comp_apply)
qed

lemma decided_none: "decided db {} db"
  unfolding decided_def decides_def by (auto intro: exI [of _ id])

lemma decided_trans:
  assumes "decided db ids db1" "decided db1 ids' db2"
  shows "decided db (ids \<union> ids') db2"
proof -
  obtain g h where "events db1 = map g (events db)" "decides ids g" "events db2 = map h (events db1)" "decides ids' h"
    using assms unfolding decided_def by blast
  then have "events db2 = map (h \<circ> g) (events db)" "decides (ids \<union> ids') (h \<circ> g)"
    by (simp_all add: decides_comp)
  then show ?thesis using assms unfolding decided_def by metis
qed

lemma decided_marks:
  "decided db {eid} (set_decrypted db eid plaintext)" "decided db {eid} (set_decrypt_failed db eid)"
  "decided db {eid} (set_commit_processed db eid)"
proof -
  have upd: "decided db {eid} (upd_event db eid f)" if "\<And>r. erase_mls (f r) = erase_mls r \<and> r_decrypt_state (f r) \<noteq> 0"
    for f :: "'t event_row \<Rightarrow> 't event_row" and db
    using that unfolding decided_def decides_def upd_event_def upd_rows_def
    by (auto intro!: exI [of _ "\<lambda>r. if r_event_id r = eid then f r else r"])
  show "decided db {eid} (set_decrypted db eid plaintext)" "decided db {eid} (set_decrypt_failed db eid)"
    "decided db {eid} (set_commit_processed db eid)"
    unfolding set_decrypted_def set_decrypt_failed_def set_commit_processed_def
    by (rule upd; simp add: erase_mls_def DECRYPT_OK_def DECRYPT_FAILED_def)+
qed

section \<open>What is pending afterwards\<close>

lemma collect_res_filter:
  assumes "collect_res f xs = Inr ys"
  shows "ys = map (\<lambda>x. projr (f x)) xs" "collect_res f (filter P xs) = Inr (map (\<lambda>x. projr (f x)) (filter P xs))"
proof -
  have l: "list_all2 (\<lambda>x y. f x = Inr y) xs ys" using assms by (simp add: collect_res_Inr_iff)
  then show "ys = map (\<lambda>x. projr (f x)) xs"
    by (induction rule: list_all2_induct) auto
  have "\<exists>y. f x = Inr y" if "x \<in> set xs" for x
    using l that by (auto simp: list_all2_conv_all_nth in_set_conv_nth)
  then show "collect_res f (filter P xs) = Inr (map (\<lambda>x. projr (f x)) (filter P xs))"
    by (intro collect_res_all_ok) (auto, metis sum.sel(2))
qed

lemma read_mls_row_id: "read_mls_row cx r = Inr (Some i) \<Longrightarrow> item_id i = r_event_id r"
  by (auto simp: read_mls_row_def mls_item_def then_ok_Inr_iff split: if_splits)

lemma map_filter_ids:
  assumes "\<And>x i. x \<in> set xs \<Longrightarrow> h x = Some i \<Longrightarrow> item_id i = key x"
  shows "List.map_filter id (map h (filter (\<lambda>x. key x \<notin> ids) xs)) =
    filter (\<lambda>i. item_id i \<notin> ids) (List.map_filter id (map h xs))"
  using assms
proof (induction xs)
  case (Cons x xs)
  have ih: "List.map_filter id (map h (filter (\<lambda>x. key x \<notin> ids) xs)) =
      filter (\<lambda>i. item_id i \<notin> ids) (List.map_filter id (map h xs))"
    by (rule Cons.IH) (rule Cons.prems, simp_all)
  show ?case
  proof (cases "h x")
    case None
    with ih show ?thesis by (simp add: map_filter_simps id_def)
  next
    case (Some i)
    then have "item_id i = key x" by (intro Cons.prems) simp_all
    with ih Some show ?thesis by (simp add: map_filter_simps id_def)
  qed
qed (simp add: map_filter_simps)

lemma pending_after:
  assumes "decided db ids db'" "pending_mls cx db = Inr items"
  shows "pending_mls cx db' = Inr (filter (\<lambda>i. item_id i \<notin> ids) items)"
proof -
  obtain g where g: "events db' = map g (events db)" "decides ids g"
    using assms(1) unfolding decided_def by blast
  have one: "filter awaits_mls [g r] = filter (\<lambda>r. r_event_id r \<notin> ids) (filter awaits_mls [r])" for r
    using g(2) by (cases "r_event_id r \<in> ids") (auto simp: awaits_mls_def decides_def)
  have "filter awaits_mls (map g rs) = filter (\<lambda>r. r_event_id r \<notin> ids) (filter awaits_mls rs)" for rs
  proof (induction rs)
    case (Cons r rs)
    have "filter awaits_mls (map g (r # rs)) = filter awaits_mls [g r] @ filter awaits_mls (map g rs)" by simp
    also have "... = filter (\<lambda>r. r_event_id r \<notin> ids) (filter awaits_mls [r] @ filter awaits_mls rs)"
      unfolding one Cons.IH by simp
    finally show ?case by simp
  qed simp
  then have rows: "sort_key row_pos (filter awaits_mls (events db')) =
      filter (\<lambda>r. r_event_id r \<notin> ids) (sort_key row_pos (filter awaits_mls (events db)))"
    by (simp add: g(1) filter_sort)
  let ?rows = "sort_key row_pos (filter awaits_mls (events db))"
  obtain ys where ys: "collect_res (read_mls_row cx) ?rows = Inr ys" "items = List.map_filter id ys"
    using assms(2) by (auto simp: pending_mls_def then_ok_Inr_iff)
  let ?h = "\<lambda>r. projr (read_mls_row cx r)"
  note cf = collect_res_filter [OF ys(1)]
  have "item_id i = r_event_id r" if "r \<in> set ?rows" "?h r = Some i" for r i
  proof -
    have "list_all2 (\<lambda>x y. read_mls_row cx x = Inr y) ?rows ys" using ys(1) by (simp add: collect_res_Inr_iff)
    then have "\<exists>y. read_mls_row cx r = Inr y"
      using that(1) by (auto simp: list_all2_conv_all_nth in_set_conv_nth simp del: set_sort)
    then show ?thesis using that(2) read_mls_row_id by auto
  qed
  then have "List.map_filter id (map ?h (filter (\<lambda>r. r_event_id r \<notin> ids) ?rows)) =
      filter (\<lambda>i. item_id i \<notin> ids) (List.map_filter id (map ?h ?rows))"
    by (rule map_filter_ids)
  then show ?thesis
    unfolding pending_mls_def rows cf(2) then_ok_simps ys(2) using cf(1) by metis
qed

section \<open>Which groups the device holds\<close>

text \<open>
  What the pass relies on: looking a group up does not fail, and processing a commit or a message
  changes the keys of its group, not which groups the device holds.
\<close>

definition groups_stable :: "('d, 'g) mls \<Rightarrow> bool" where
  "groups_stable M \<longleftrightarrow> (\<forall>h d. \<exists>r. m_load_group M h d = Inr r) \<and>
     (\<forall>g c d h. (m_load_group M h (snd (m_process_commit M g c d)) = Inr None) = (m_load_group M h d = Inr None)) \<and>
     (\<forall>g c d h. (m_load_group M h (snd (m_decrypt M g c d)) = Inr None) = (m_load_group M h d = Inr None))"

definition lacks :: "('d, 'g, 'k) crypto_env \<Rightarrow> ('d, 'k) vault \<Rightarrow> string \<Rightarrow> bool" where
  "lacks E v room \<longleftrightarrow> (\<exists>d. vt_device v = Some d \<and> m_load_group (env_mls E) (str_bytes room) d = Inr None)"

definition same_groups :: "('d, 'g, 'k) crypto_env \<Rightarrow> ('d, 'k) vault \<Rightarrow> ('d, 'k) vault \<Rightarrow> bool" where
  "same_groups E v v' \<longleftrightarrow> (vt_device v' = None) = (vt_device v = None) \<and> (\<forall>room. lacks E v' room = lacks E v room)"

interpretation groups_kept: step_rel "same_groups E" for E
  by unfold_locales (simp_all add: same_groups_def)

lemma same_groups_device:
  fixes E :: "('d, 'g, 'k) crypto_env"
  assumes "\<And>d h. (m_load_group (env_mls E) h (snd (f d)) = Inr None) = (m_load_group (env_mls E) h d = Inr None)"
  shows "keeps (same_groups E) (on_device f)"
  unfolding keeps_def
proof (intro allI impI)
  fix v v' :: "('d, 'k) vault" and r
  assume run: "on_device f v = (r, v')"
  show "same_groups E v v'"
  proof (cases "vt_device v")
    case None
    then show ?thesis using run by (simp add: on_device_def the_device_def bnd_def groups_kept.refl)
  next
    case (Some d)
    then have "v' = v\<lparr>vt_device := Some (snd (f d))\<rparr>"
      using run by (cases "f d") (simp add: on_device_def the_device_def set_device_def bnd_def)
    then show ?thesis using Some assms by (simp add: same_groups_def lacks_def)
  qed
qed

lemma same_groups_basic:
  "keeps (same_groups E) the_device" "keeps (same_groups E) (persist_current E')"
  by (auto simp: keeps_def same_groups_def lacks_def the_device_def persist_current_def persist_def ks_put_def
      ks_call_def bnd_def split: option.splits prod.splits sum.splits)

lemmas groups_kept_rules = groups_kept.keeps_bnd groups_kept.keeps_pure same_groups_basic same_groups_device

lemma inbound_crypto_keeps:
  assumes "groups_stable (env_mls E)"
  shows "keeps (same_groups E) (process_commit E room c)" "keeps (same_groups E) (decrypt E room c)"
  using assms unfolding process_commit_def decrypt_def groups_stable_def
  by (auto intro!: groups_kept_rules)

lemma has_group_run:
  assumes "groups_stable (env_mls E)" "vt_device v = Some d"
  shows "has_group E room v = (Inr (\<not> lacks E v room), v)"
proof -
  obtain r where "m_load_group (env_mls E) (str_bytes room) d = Inr r"
    using assms(1) unfolding groups_stable_def by blast
  then show ?thesis using assms(2) by (simp add: has_group_def the_device_def lacks_def bnd_def)
qed

section \<open>Handling one event\<close>

text \<open>
  An event waits when the device has no group for its room yet, or when it is this user's own message
  while a message of that room is still queued (the acknowledgement will bring its plaintext).
\<close>

fun waits ::
  "('w, 'd, 'g, 'k, 't) client_env \<Rightarrow> pigeon_client \<Rightarrow> ('w, 'd, 'k, 't) world \<Rightarrow> pending_mls_item \<Rightarrow> bool" where
  "waits env cl w (MlsMessage m) \<longleftrightarrow> lacks (ce_crypto env) (wd_vault w) (pd_room_id m) \<or>
     pd_sender m = ss_user_id (cl_session cl) \<and> has_pending_send (wd_stores w (cl_store cl)) (pd_room_id m)"
| "waits env cl w (MlsCommit c) \<longleftrightarrow> lacks (ce_crypto env) (wd_vault w) (pc_room_id c)"

text \<open>What the pass does to the world when it decides the events \<open>ids\<close>.\<close>

definition decides_in ::
  "('w, 'd, 'g, 'k, 't) client_env \<Rightarrow> pigeon_client \<Rightarrow> string set \<Rightarrow> ('w, 'd, 'k, 't) world \<Rightarrow>
   ('w, 'd, 'k, 't) world \<Rightarrow> bool" where
  "decides_in env cl ids w w' \<longleftrightarrow> same_groups (ce_crypto env) (wd_vault w) (wd_vault w') \<and>
     (\<exists>db'. wd_stores w' = (wd_stores w)(cl_store cl := db') \<and> decided (wd_stores w (cl_store cl)) ids db')"

lemma decides_in_none: "decides_in env cl {} w w"
  unfolding decides_in_def by (metis decided_none fun_upd_triv groups_kept.refl)

lemma decides_in_trans:
  assumes "decides_in env cl ids w w1" "decides_in env cl ids' w1 w2"
  shows "decides_in env cl (ids \<union> ids') w w2"
proof -
  obtain db1 db2 where db: "wd_stores w1 = (wd_stores w)(cl_store cl := db1)"
      "decided (wd_stores w (cl_store cl)) ids db1"
      "wd_stores w2 = (wd_stores w1)(cl_store cl := db2)" "decided db1 ids' db2"
    using assms unfolding decides_in_def by (auto simp: fun_upd_same)
  then have "decided (wd_stores w (cl_store cl)) (ids \<union> ids') db2" by (metis decided_trans)
  moreover have "wd_stores w2 = (wd_stores w)(cl_store cl := db2)" using db by simp
  moreover have "same_groups (ce_crypto env) (wd_vault w) (wd_vault w2)"
    using assms unfolding decides_in_def by (blast intro: groups_kept.trans)
  ultimately show ?thesis unfolding decides_in_def by blast
qed

lemma decides_in_waits:
  assumes "decides_in env cl ids w w'"
  shows "waits env cl w' i = waits env cl w i"
  using assms
  by (cases i) (auto simp: decides_in_def same_groups_def decided_def has_pending_send_def)

lemma decides_in_device:
  "decides_in env cl ids w w' \<Longrightarrow> vt_device (wd_vault w) \<noteq> None \<Longrightarrow> vt_device (wd_vault w') \<noteq> None"
  by (simp add: decides_in_def same_groups_def)

text \<open>The steps that handle an event: cryptography, the log and one write.\<close>

lemma decides_in_vault:
  "keeps (same_groups (ce_crypto env)) m \<Longrightarrow> on_vault m w = (r, w') \<Longrightarrow> decides_in env cl {} w w'"
  unfolding decides_in_def keeps_def on_vault_def
  by (auto split: prod.splits intro!: exI [of _ "wd_stores w (cl_store cl)"] decided_none)

lemma decides_in_log:
  "decides_in env cl ids w (w1\<lparr>wd_sink := s\<rparr>) = decides_in env cl ids w w1"
  by (simp add: decides_in_def)

lemma decides_in_write:
  "decided (wd_stores w (cl_store cl)) ids (f (wd_stores w (cl_store cl))) \<Longrightarrow>
   store_update cl f w = (Inr (), w') \<Longrightarrow> decides_in env cl ids w w'"
  by (auto simp: decides_in_def store_update_def store_write_def groups_kept.refl)

definition decided_ids ::
  "('w, 'd, 'g, 'k, 't) client_env \<Rightarrow> pigeon_client \<Rightarrow> ('w, 'd, 'k, 't) world \<Rightarrow> pending_mls_item list \<Rightarrow>
   string set" where
  "decided_ids env cl w items = item_id ` set (filter (\<lambda>i. \<not> waits env cl w i) items)"

lemma held_run:
  assumes "groups_stable (env_mls (ce_crypto env))" "vt_device (wd_vault w) \<noteq> None"
  shows "bnd (on_vault (has_group (ce_crypto env) room)) f w =
    f (\<not> lacks (ce_crypto env) (wd_vault w) room) w"
  using assms by (auto simp: bnd_def on_vault_def has_group_run)

lemma inbound_commit_run:
  assumes "groups_stable (env_mls (ce_crypto env))" "vt_device (wd_vault w) \<noteq> None"
    and run: "inbound_commit env cl c changed w = (r, w')"
  shows "r = Inr (changed \<or> \<not> waits env cl w (MlsCommit c)) \<and>
    decides_in env cl (decided_ids env cl w [MlsCommit c]) w w'"
proof (cases "lacks (ce_crypto env) (wd_vault w) (pc_room_id c)")
  case True
  then show ?thesis
    using run by (simp add: inbound_commit_def held_run [OF assms(1,2)] decided_ids_def decides_in_none)
next
  case False
  let ?apply = "if pc_sender c \<noteq> ss_user_id (cl_session cl) then
      catch (on_vault (process_commit (ce_crypto env) (pc_room_id c) (pc_commit_b64 c))) (\<lambda>r.
        (case r of
           Inr _ \<Rightarrow> ret ()
         | Inl err \<Rightarrow> log_emit LInfo ''e2ee''
             (''commit '' @ pc_event_id c @ '' not applied (skipped): '' @ show_core_error err)))
      else ret ()"
  obtain w1 where a: "?apply w = (Inr () :: core_error + unit, w1)" "decides_in env cl {} w w1"
  proof (cases "pc_sender c \<noteq> ss_user_id (cl_session cl)")
    case True
    obtain x v where x: "on_vault (process_commit (ce_crypto env) (pc_room_id c) (pc_commit_b64 c)) w = (x, v)"
      by fastforce
    have "decides_in env cl {} w v"
      by (rule decides_in_vault [OF inbound_crypto_keeps(1) [OF assms(1)] x])
    then show ?thesis
      using that x True by (cases x) (auto simp: catch_def log_emit_def decides_in_log)
  qed (use that decides_in_none in auto)
  obtain w2 where u: "store_update cl (\<lambda>db. set_commit_processed db (pc_event_id c)) w1 = (Inr (), w2)"
    by (simp add: store_update_def store_write_def)
  have "decides_in env cl ({} \<union> {pc_event_id c}) w w2"
    by (rule decides_in_trans [OF a(2) decides_in_write [OF decided_marks(3) u]])
  moreover have "(r, w') = (Inr True, w2)"
    unfolding run [symmetric] inbound_commit_def held_run [OF assms(1,2)]
    using False by (simp add: bnd_eval(2) [of ?apply w, OF a(1)] del: if_not_P)
      (simp add: bnd_eval(2) [of "store_update cl (\<lambda>db. set_commit_processed db (pc_event_id c))" w1, OF u])
  ultimately show ?thesis using False by (simp add: decided_ids_def)
qed

lemma inbound_message_run:
  assumes "groups_stable (env_mls (ce_crypto env))" "vt_device (wd_vault w) \<noteq> None"
    and run: "inbound_message env cl m changed w = (r, w')"
  shows "r = Inr (changed \<or> \<not> waits env cl w (MlsMessage m)) \<and>
    decides_in env cl (decided_ids env cl w [MlsMessage m]) w w'"
proof (cases "waits env cl w (MlsMessage m)")
  case True
  then show ?thesis
    using run unfolding inbound_message_def held_run [OF assms(1,2)]
    by (auto simp: decided_ids_def decides_in_none bnd_def store_read_def split: if_splits)
next
  case False
  let ?decrypt = "on_vault (decrypt (ce_crypto env) (pd_room_id m) (pd_ciphertext_b64 m))"
  obtain x w1 where x: "?decrypt w = (x, w1)" by fastforce
  have d: "decides_in env cl {} w w1"
    by (rule decides_in_vault [OF inbound_crypto_keeps(2) [OF assms(1)] x])
  obtain w2 where w2: "r = Inr True" "decides_in env cl {} w w2"
    "\<exists>f. store_update cl f w2 = (Inr (), w') \<and> (\<forall>db :: 'e db. decided db {pd_event_id m} (f db))"
  proof (cases x)
    case (Inr plaintext)
    have "r = Inr True" "store_update cl (\<lambda>db. set_decrypted db (pd_event_id m) plaintext) w1 = (Inr (), w')"
      using run False x Inr unfolding inbound_message_def held_run [OF assms(1,2)]
      by (auto simp: catch_def bnd_def store_read_def store_update_def store_write_def
          split: if_splits)
    then show ?thesis using that d decided_marks(1) by blast
  next
    case (Inl err)
    let ?w2 = "snd (log_emit LWarn ''e2ee''
      (''failed to decrypt '' @ pd_event_id m @ '': '' @ show_core_error err) w1 :: (core_error + unit) \<times> _)"
    have "r = Inr True" "store_update cl (\<lambda>db. set_decrypt_failed db (pd_event_id m)) ?w2 = (Inr (), w')"
      using run False x Inl unfolding inbound_message_def held_run [OF assms(1,2)]
      by (auto simp: catch_def bnd_def store_read_def store_update_def store_write_def
          log_emit_def split: if_splits)
    moreover have "decides_in env cl {} w ?w2" using d by (simp add: log_emit_def decides_in_log)
    ultimately show ?thesis using that decided_marks(2) by blast
  qed
  then obtain f where "store_update cl f w2 = (Inr (), w')" "decided (wd_stores w2 (cl_store cl)) {pd_event_id m}
      (f (wd_stores w2 (cl_store cl)))" by blast
  then have "decides_in env cl ({} \<union> {pd_event_id m}) w w'"
    by (intro decides_in_trans [OF w2(2)] decides_in_write)
  then show ?thesis using False w2(1) by (simp add: decided_ids_def)
qed

lemma inbound_loop_run:
  assumes "groups_stable (env_mls (ce_crypto env))" "vt_device (wd_vault w) \<noteq> None"
    and "inbound_loop env cl items changed w = (r, w')"
  shows "r = Inr (changed \<or> (\<exists>i\<in>set items. \<not> waits env cl w i)) \<and>
    decides_in env cl (decided_ids env cl w items) w w'"
  using assms(2,3)
proof (induction items arbitrary: changed w)
  case Nil
  then show ?case by (simp add: decided_ids_def decides_in_none)
next
  case (Cons i items)
  let ?one = "case i of MlsCommit c \<Rightarrow> inbound_commit env cl c changed | MlsMessage m \<Rightarrow> inbound_message env cl m changed"
  obtain x w1 where one: "?one w = (x, w1)" by fastforce
  have i: "x = Inr (changed \<or> \<not> waits env cl w i)" "decides_in env cl (decided_ids env cl w [i]) w w1"
    using one inbound_commit_run [OF assms(1) Cons.prems(1)] inbound_message_run [OF assms(1) Cons.prems(1)]
    by (cases i; simp; blast)+
  have "inbound_loop env cl (i # items) changed w = inbound_loop env cl items (changed \<or> \<not> waits env cl w i) w1"
    using one i(1) by (cases i) (simp_all add: bnd_def)
  then have rest: "inbound_loop env cl items (changed \<or> \<not> waits env cl w i) w1 = (r, w')"
    using Cons.prems(2) by simp
  note ih = Cons.IH [OF decides_in_device [OF i(2) Cons.prems(1)] rest]
  have "decides_in env cl (decided_ids env cl w [i] \<union> decided_ids env cl w items) w w'"
    using decides_in_trans [OF i(2)] ih by (simp add: decided_ids_def decides_in_waits [OF i(2)])
  moreover have "decided_ids env cl w [i] \<union> decided_ids env cl w items = decided_ids env cl w (i # items)"
    by (auto simp: decided_ids_def)
  ultimately show ?case using ih by (auto simp: decides_in_waits [OF i(2)])
qed

section \<open>The pass\<close>

lemma inbound_loop_waiting:
  assumes "groups_stable (env_mls (ce_crypto env))" "vt_device (wd_vault w) \<noteq> None"
    and "\<forall>i\<in>set items. waits env cl w i"
  shows "inbound_loop env cl items changed w = (Inr changed, w)"
  using assms(3)
proof (induction items)
  case (Cons i items)
  show ?case
  proof (cases i)
    case (MlsMessage m)
    then have "inbound_message env cl m changed w = (Inr changed, w)"
      using Cons.prems unfolding inbound_message_def held_run [OF assms(1,2)]
      by (auto simp: bnd_def store_read_def)
    then show ?thesis using Cons MlsMessage by (simp add: bnd_def)
  next
    case (MlsCommit c)
    then have "inbound_commit env cl c changed w = (Inr changed, w)"
      using Cons.prems unfolding inbound_commit_def held_run [OF assms(1,2)] by simp
    then show ?thesis using Cons MlsCommit by (simp add: bnd_def)
  qed
qed simp

lemma pending_item_row:
  assumes "pending_mls cx db = Inr items" "i \<in> set items"
  shows "\<exists>r\<in>set (events db). read_mls_row cx r = Inr (Some i)"
proof -
  let ?rows = "sort_key row_pos (filter awaits_mls (events db))"
  obtain ys where ys: "collect_res (read_mls_row cx) (?rows) = Inr ys"
      "items = List.map_filter id ys"
    using assms(1) by (auto simp: pending_mls_def then_ok_Inr_iff)
  have "Some i \<in> set ys" using assms(2) ys(2) by (auto simp: List.map_filter_def)
  moreover have "list_all2 (\<lambda>x y. read_mls_row cx x = Inr y) (?rows) ys"
    using ys(1) by (simp add: collect_res_Inr_iff)
  ultimately obtain k where "k < length ys" "ys ! k = Some i"
      "list_all2 (\<lambda>x y. read_mls_row cx x = Inr y) (?rows) ys"
    by (auto simp: in_set_conv_nth)
  then have "read_mls_row cx (?rows ! k) = Inr (Some i)" "k < length ?rows"
    using list_all2_nthD2 [of "\<lambda>x y. read_mls_row cx x = Inr y" ?rows ys k]
      list_all2_lengthD [of "\<lambda>x y. read_mls_row cx x = Inr y" ?rows ys] by simp_all
  then show ?thesis using nth_mem [of k ?rows] by auto
qed

lemma pending_items_distinct:
  assumes "keys_inv db" "pending_mls cx db = Inr items" "i \<in> set items" "j \<in> set items" "item_id i = item_id j"
  shows "i = j"
proof -
  obtain r r' where r: "r \<in> set (events db)" "read_mls_row cx r = Inr (Some i)"
      "r' \<in> set (events db)" "read_mls_row cx r' = Inr (Some j)"
    using pending_item_row [OF assms(2)] assms(3,4) by blast
  then have "r_event_id r = r_event_id r'" using read_mls_row_id assms(5) by metis
  then have "r = r'" using assms(1) r(1,3) by (auto simp: keys_inv_def distinct_map inj_on_def)
  then show ?thesis using r(2,4) by simp
qed

lemma process_inbound_run:
  assumes "vt_device (wd_vault w) \<noteq> None" "pending_mls (ce_codec env) (wd_stores w (cl_store cl)) = Inr items"
  shows "process_inbound_mls env cl w = inbound_loop env cl items False w"
  using assms by (auto simp: process_inbound_mls_def has_engine_def store_read_def bnd_def)

text \<open>
  C14: One pass over the inbound MLS events, of a client with an engine whose list of pending events can be
  read and whose group lookups do not fail, decides every pending event except those that have to wait:
  a failed decryption and a commit that does not apply are decided too, so nothing is tried twice.  The
  events left pending are exactly the waiting ones, in the same order; no other row, no other table and
  no other store changes; the pass reports a change exactly when it decided something; and a second
  pass does nothing.
\<close>

theorem inbound_pass_settles:
  assumes "groups_stable (env_mls (ce_crypto env))" "vt_device (wd_vault w) \<noteq> None"
    and "reachable (ce_codec env) (wd_stores w (cl_store cl))"
    and "pending_mls (ce_codec env) (wd_stores w (cl_store cl)) = Inr items"
    and "process_inbound_mls env cl w = (r, w')"
  shows "r = Inr (\<exists>i\<in>set items. \<not> waits env cl w i) \<and>
    decided (wd_stores w (cl_store cl)) (item_id ` {i \<in> set items. \<not> waits env cl w i}) (wd_stores w' (cl_store cl)) \<and>
    pending_mls (ce_codec env) (wd_stores w' (cl_store cl)) = Inr (filter (waits env cl w) items) \<and>
    (\<forall>other. other \<noteq> cl_store cl \<longrightarrow> wd_stores w' other = wd_stores w other) \<and>
    process_inbound_mls env cl w' = (Inr False, w')"
proof -
  have "inbound_loop env cl items False w = (r, w')"
    using assms(5) process_inbound_run [OF assms(2,4)] by simp
  note run = inbound_loop_run [OF assms(1,2) this]
  let ?ids = "item_id ` {i \<in> set items. \<not> waits env cl w i}"
  have r: "r = Inr (\<exists>i\<in>set items. \<not> waits env cl w i)" and din: "decides_in env cl ?ids w w'"
    using run by (auto simp: decided_ids_def)
  then have d: "decided (wd_stores w (cl_store cl)) ?ids (wd_stores w' (cl_store cl))"
    and other: "\<forall>other. other \<noteq> cl_store cl \<longrightarrow> wd_stores w' other = wd_stores w other"
    by (auto simp: decides_in_def)
  have keys: "keys_inv (wd_stores w (cl_store cl))"
    using reachable_inv [OF assms(3)] by (simp add: db_inv_def)
  have "item_id i \<notin> ?ids \<longleftrightarrow> waits env cl w i" if "i \<in> set items" for i
    using pending_items_distinct [OF keys assms(4) that] that by auto
  then have p: "pending_mls (ce_codec env) (wd_stores w' (cl_store cl)) = Inr (filter (waits env cl w) items)"
    using pending_after [OF d assms(4)] by (metis (mono_tags, lifting) filter_cong)
  have "process_inbound_mls env cl w' = (Inr False, w')"
    using inbound_loop_waiting [OF assms(1) decides_in_device [OF din assms(2)]]
    unfolding process_inbound_run [OF decides_in_device [OF din assms(2)] p]
    by (simp add: decides_in_waits [OF din])
  with r d p other show ?thesis by blast
qed

text \<open>
  An engine as the sample engine but with commits that stay in their group, and a store with two
  encrypted messages: one of a room whose group the device holds, one of a room it has not joined.
\<close>

definition calm_env ::
  "unit server \<Rightarrow> (unit, string list, unit, (string \<times> bytes) list, json) client_env" where
  "calm_env srv = (toy_env srv)\<lparr>ce_crypto := toy_crypto\<lparr>env_mls := toy_mls\<lparr>m_process_commit := (\<lambda>g c d. (Inr (), d))\<rparr>\<rparr>\<rparr>"

definition sealed_event :: "string \<Rightarrow> string \<Rightarrow> json" where
  "sealed_event eid room = JObj [(''event_id'', JStr eid), (''room_id'', JStr room), (''type'', JStr ''p.room.encrypted''),
     (''sender'', JStr ''@b''), (''origin_server_ts'', json_i64 1), (''depth'', json_i64 1),
     (''content'', JObj [(''ciphertext'', JStr ''hi'')])]"

definition sealed_db :: "json db" where
  "sealed_db = (case apply_events id_codec empty_db [sealed_event ''$1'' ''!r'', sealed_event ''$2'' ''!s''] of
     Inr (db, _) \<Rightarrow> db | Inl _ \<Rightarrow> empty_db)"

lemma sealed_db_reachable: "reachable id_codec sealed_db"
proof -
  have "storable (sealed_event eid room)" for eid room
    by (simp add: storable_def sealed_event_def)
  then have "reachable id_codec db"
    if "apply_events id_codec empty_db [sealed_event ''$1'' ''!r'', sealed_event ''$2'' ''!s''] = Inr (db, n)" for db n
    using that by (intro reach_step [OF reach_empty step_sync]) auto
  then show ?thesis
    by (auto simp: sealed_db_def reach_empty split: sum.split)
qed

lemma sealed_db_pending:
  "pending_mls id_codec sealed_db = Inr
     [MlsMessage \<lparr> pd_event_id = ''$1'', pd_room_id = ''!r'', pd_sender = ''@b'', pd_ciphertext_b64 = ''hi'' \<rparr>,
      MlsMessage \<lparr> pd_event_id = ''$2'', pd_room_id = ''!s'', pd_sender = ''@b'', pd_ciphertext_b64 = ''hi'' \<rparr>]"
  by code_simp

theorem inbound_pass_settles_witness:
  "case process_inbound_mls (calm_env down_server) toy_client (toy_world (Some [''!r'']) sealed_db) of (r, w') \<Rightarrow>
     r = Inr True \<and> pending_mls id_codec (wd_stores w' (cl_store toy_client)) = Inr
       [MlsMessage \<lparr> pd_event_id = ''$2'', pd_room_id = ''!s'', pd_sender = ''@b'', pd_ciphertext_b64 = ''hi'' \<rparr>]"
proof -
  let ?env = "calm_env down_server" and ?w = "toy_world (Some [''!r'']) sealed_db"
  obtain r w' where run: "process_inbound_mls ?env toy_client ?w = (r, w')" by fastforce
  have stable: "groups_stable (env_mls (ce_crypto ?env))"
    by (simp add: groups_stable_def calm_env_def toy_env_def toy_crypto_def toy_mls_def)
  have waits: "waits ?env toy_client ?w (MlsMessage m) \<longleftrightarrow> pd_room_id m \<noteq> ''!r''" if "pd_sender m = ''@b''" for m
    using that by (simp add: calm_env_def toy_env_def toy_crypto_def toy_mls_def toy_client_def toy_world_def lacks_def)
  have codec: "ce_codec ?env = id_codec" "wd_stores ?w (cl_store toy_client) = sealed_db"
    "vt_device (wd_vault ?w) \<noteq> None"
    by (simp_all add: calm_env_def toy_env_def toy_world_def)
  show ?thesis
    using inbound_pass_settles [of ?env ?w toy_client, unfolded codec, OF stable _ sealed_db_reachable sealed_db_pending run]
    by (simp add: run codec waits del: waits.simps)
qed

end
