(* ===== verification/Crash.thy ===== *)
theory Crash
  imports Sync_Spec
begin

text \<open>
  A process that dies in the middle of a sync batch.  The token that acknowledges a batch is saved after
  its events were stored and its Welcomes were joined, so the server delivers the batch again to the
  next process; the theorem says that handling it a second time ends where one uninterrupted handling
  would have ended.
\<close>

section \<open>What a to-device event does to the device\<close>

text \<open>The Welcome an event makes the device try.\<close>

definition tries ::
  "('d, 'g, 'k) crypto_env \<Rightarrow> 'd \<Rightarrow> json \<Rightarrow> bytes option" where
  "tries E d ev =
     (if jindex ev ''type'' \<noteq> JStr ''p.mls.welcome'' then None
      else
        (case as_str (jindex (jindex ev ''content'') ''welcome'') of
           None \<Rightarrow> None
         | Some wb \<Rightarrow>
             (case decode_wire E wb ''Welcome'' of
                Inl _ \<Rightarrow> None
              | Inr wl \<Rightarrow>
                  (case as_str (jindex (jindex ev ''content'') ''room_id'') of
                     None \<Rightarrow> Some wl
                   | Some rm \<Rightarrow>
                       if m_load_group (env_mls E) (str_bytes rm) d = Inr None then Some wl else None))))"

definition device_after :: "('d, 'g, 'k) crypto_env \<Rightarrow> 'd \<Rightarrow> json \<Rightarrow> 'd" where
  "device_after E d ev = (case tries E d ev of None \<Rightarrow> d | Some wl \<Rightarrow> snd (m_join (env_mls E) wl d))"

lemma join_from_welcome_device:
  assumes "vt_device v = Some d" "join_from_welcome E wb v = (r, v')"
  shows "vt_device v' = Some (case decode_wire E wb ''Welcome'' of
     Inl _ \<Rightarrow> d | Inr wl \<Rightarrow> snd (m_join (env_mls E) wl d))"
proof (cases "decode_wire E wb ''Welcome''")
  case (Inl e)
  then show ?thesis using assms by (simp add: join_from_welcome_def raise_def)
next
  case (Inr wl)
  obtain x d' where j: "m_join (env_mls E) wl d = (x, d')" by fastforce
  have "on_device (m_join (env_mls E) wl) v = (map_err core_of_crypto x, v\<lparr>vt_device := Some d'\<rparr>)"
    using assms(1) j by (simp add: on_device_def the_device_def set_device_def bnd_def)
  moreover have "vt_device u' = vt_device u" if "persist_current E u = (y, u')" for u y u'
    using that by (auto simp: persist_current_def persist_def the_device_def ks_put_def ks_call_def bnd_def
        split: option.splits sum.splits prod.splits)
  ultimately show ?thesis
    using assms(2) Inr j by (cases x) (auto simp: join_from_welcome_def bnd_def)
qed

lemma to_device_event_device:
  assumes "vt_device (wd_vault w) = Some d" "to_device_event env ev joined w = (r, w')"
  shows "vt_device (wd_vault w') = Some (device_after (ce_crypto env) d ev)"
proof -
  let ?E = "ce_crypto env"
  have join: "vt_device (wd_vault w2) = Some (case decode_wire ?E wb ''Welcome'' of
      Inl _ \<Rightarrow> d | Inr wl \<Rightarrow> snd (m_join (env_mls ?E) wl d))"
    if "join_welcome env rm wb joined w = (x, w2)" for rm wb x w2
  proof -
    obtain y v where y: "join_from_welcome ?E wb (wd_vault w) = (y, v)" by fastforce
    have "vt_device (wd_vault w2) = vt_device v"
      using that y by (cases y) (auto simp: join_welcome_def catch_def on_vault_def log_emit_def)
    then show ?thesis using join_from_welcome_device [OF assms(1) y] by simp
  qed
  consider "jindex ev ''type'' \<noteq> JStr ''p.mls.welcome''"
    | "jindex ev ''type'' = JStr ''p.mls.welcome''" "as_str (jindex (jindex ev ''content'') ''welcome'') = None"
    | wb where "jindex ev ''type'' = JStr ''p.mls.welcome''"
        "as_str (jindex (jindex ev ''content'') ''welcome'') = Some wb"
        "as_str (jindex (jindex ev ''content'') ''room_id'') = None"
    | wb rm where "jindex ev ''type'' = JStr ''p.mls.welcome''"
        "as_str (jindex (jindex ev ''content'') ''welcome'') = Some wb"
        "as_str (jindex (jindex ev ''content'') ''room_id'') = Some rm"
    by (cases "as_str (jindex (jindex ev ''content'') ''welcome'')";
        cases "as_str (jindex (jindex ev ''content'') ''room_id'')") auto
  then show ?thesis
  proof cases
    case 3
    then show ?thesis
      using assms(2) join [of None wb] by (auto simp: to_device_event_def device_after_def tries_def split: sum.splits)
  next
    case 4
    have held: "on_vault (has_group ?E rm) w = (case look of Inl e \<Rightarrow> Inl (core_of_crypto e) | Inr g \<Rightarrow> Inr (g \<noteq> None), w)"
      if "m_load_group (env_mls ?E) (str_bytes rm) d = look" for look
      using assms(1) that by (cases look) (simp_all add: on_vault_def has_group_def the_device_def bnd_def)
    show ?thesis
    proof (cases "m_load_group (env_mls ?E) (str_bytes rm) d")
      case (Inl e)
      then show ?thesis
        using assms 4 held [OF Inl] by (auto simp: to_device_event_def catch_def log_emit_def device_after_def tries_def
            split: sum.splits)
    next
      case (Inr g)
      then show ?thesis
        using assms 4 held [OF Inr] join [of "Some rm" wb]
        by (cases g) (auto simp: to_device_event_def catch_def device_after_def tries_def split: sum.splits)
    qed
  qed (use assms in \<open>auto simp: to_device_event_def device_after_def tries_def\<close>)
qed

lemma to_device_loop_device:
  "vt_device (wd_vault w) = Some d \<Longrightarrow> to_device_loop env evs joined w = (r, w') \<Longrightarrow>
     vt_device (wd_vault w') = Some (foldl (device_after (ce_crypto env)) d evs)"
proof (induction evs arbitrary: w d joined)
  case (Cons ev evs)
  obtain j w1 where e: "to_device_event env ev joined w = (Inr j, w1)"
    using to_device_steps_total(1) unfolding never_fails_def by blast
  then have "to_device_loop env evs j w1 = (r, w')"
    using Cons.prems(2) by (simp add: bnd_eval(2) [of "to_device_event env ev joined" w])
  from Cons.IH [OF to_device_event_device [OF Cons.prems(1) e] this] show ?case by simp
qed simp

section \<open>A Welcome is joined once\<close>

text \<open>
  What the code relies on: looking a group up does not fail; joining keeps the groups already held; a
  join that fails leaves the device as it was; and a Welcome the device cannot use does not become
  usable because it joined by another one.  Nothing is said about a Welcome that was used: the device
  may be able to join by it again (it keeps its last-resort key), so it is the check for the group that
  has to prevent that.
\<close>

definition stable_joins :: "('d, 'g) mls \<Rightarrow> bool" where
  "stable_joins M \<longleftrightarrow> (\<forall>h d. \<exists>r. m_load_group M h d = Inr r) \<and>
     (\<forall>wl d h g. m_load_group M h d = Inr (Some g) \<longrightarrow> m_load_group M h (snd (m_join M wl d)) \<noteq> Inr None) \<and>
     (\<forall>wl d e d'. m_join M wl d = (Inl e, d') \<longrightarrow> d' = d) \<and>
     (\<forall>wl other d e. m_join M wl d = (Inl e, d) \<longrightarrow>
        (\<exists>e'. m_join M wl (snd (m_join M other d)) = (Inl e', snd (m_join M other d))))"

text \<open>
  A to-device event whose Welcome, if it holds one, comes with the id of the room whose group it is for,
  as \<open>welcome_device\<close> sends it: joining by it makes that room's group held.
\<close>

definition names_its_room :: "('d, 'g, 'k) crypto_env \<Rightarrow> json \<Rightarrow> bool" where
  "names_its_room E ev \<longleftrightarrow>
     (\<forall>wb wl. jindex ev ''type'' = JStr ''p.mls.welcome'' \<longrightarrow>
        as_str (jindex (jindex ev ''content'') ''welcome'') = Some wb \<longrightarrow> decode_wire E wb ''Welcome'' = Inr wl \<longrightarrow>
        (\<exists>rm. as_str (jindex (jindex ev ''content'') ''room_id'') = Some rm \<and>
           (\<forall>d d'. m_join (env_mls E) wl d = (Inr (), d') \<longrightarrow>
              m_load_group (env_mls E) (str_bytes rm) d' \<noteq> Inr None)))"

definition inert :: "('d, 'g, 'k) crypto_env \<Rightarrow> 'd \<Rightarrow> json \<Rightarrow> bool" where
  "inert E d ev \<longleftrightarrow>
     (case tries E d ev of None \<Rightarrow> True | Some wl \<Rightarrow> (\<exists>e. m_join (env_mls E) wl d = (Inl e, d)))"

lemma inert_device: "inert E d ev \<Longrightarrow> device_after E d ev = d"
  by (auto simp: inert_def device_after_def split: option.splits)

lemma tries_later:
  assumes "stable_joins (env_mls E)" "tries E (snd (m_join (env_mls E) other d)) ev = Some wl"
  shows "tries E d ev = Some wl"
proof -
  have "m_load_group (env_mls E) h d = Inr None"
    if "m_load_group (env_mls E) h (snd (m_join (env_mls E) other d)) = Inr None" for h
    using assms(1) that unfolding stable_joins_def by (metis option.exhaust)
  then show ?thesis
    using assms(2) by (auto simp: tries_def split: if_splits option.splits sum.splits)
qed

lemma joined_not_tried:
  assumes "names_its_room E ev" "tries E d ev = Some wl" "m_join (env_mls E) wl d = (Inr (), d')"
  shows "tries E d' ev = None"
proof -
  obtain wb where wb: "jindex ev ''type'' = JStr ''p.mls.welcome''"
      "as_str (jindex (jindex ev ''content'') ''welcome'') = Some wb" "decode_wire E wb ''Welcome'' = Inr wl"
    using assms(2) by (auto simp: tries_def split: if_splits option.splits sum.splits)
  with assms(1,3) obtain rm where "as_str (jindex (jindex ev ''content'') ''room_id'') = Some rm"
      "m_load_group (env_mls E) (str_bytes rm) d' \<noteq> Inr None"
    unfolding names_its_room_def by blast
  then show ?thesis using wb by (simp add: tries_def)
qed

lemma inert_after:
  assumes laws: "stable_joins (env_mls E)" and named: "names_its_room E ev"
  shows "inert E (device_after E d ev) ev"
proof (cases "tries E d ev")
  case None
  then show ?thesis by (simp add: inert_def device_after_def)
next
  case (Some wl)
  obtain x d' where j: "m_join (env_mls E) wl d = (x, d')" by fastforce
  then have d': "device_after E d ev = d'" using Some by (simp add: device_after_def)
  show ?thesis
  proof (cases x)
    case (Inl e)
    then have "d' = d" using laws j unfolding stable_joins_def by blast
    then show ?thesis using j Inl Some d' by (simp add: inert_def)
  next
    case (Inr u)
    then have "tries E d' ev = None" using joined_not_tried [OF named Some, of d'] j by simp
    then show ?thesis unfolding d' by (simp add: inert_def)
  qed
qed

lemma inert_stays:
  assumes laws: "stable_joins (env_mls E)" and inert: "inert E d ev"
  shows "inert E (device_after E d other) ev"
proof (cases "tries E d other")
  case None
  then show ?thesis using inert by (simp add: device_after_def)
next
  case (Some o_wl)
  let ?d = "snd (m_join (env_mls E) o_wl d)"
  have "inert E ?d ev"
  proof (cases "tries E ?d ev")
    case (Some wl)
    then have "tries E d ev = Some wl" by (rule tries_later [OF laws])
    then obtain e where "m_join (env_mls E) wl d = (Inl e, d)" using inert by (auto simp: inert_def)
    then have "\<exists>e'. m_join (env_mls E) wl ?d = (Inl e', ?d)" using laws unfolding stable_joins_def by blast
    then show ?thesis using Some by (simp add: inert_def)
  qed (simp add: inert_def)
  then show ?thesis using Some by (simp add: device_after_def)
qed

lemma inert_batch:
  assumes "stable_joins (env_mls E)" "names_its_room E ev" "ev \<in> set evs \<or> inert E d ev"
  shows "inert E (foldl (device_after E) d evs) ev"
  using assms(3)
proof (induction evs arbitrary: d)
  case (Cons x evs)
  then show ?case using inert_after [OF assms(1,2)] inert_stays [OF assms(1)] by (auto intro!: Cons.IH)
qed simp

lemma inert_again: "\<forall>ev\<in>set evs. inert E d ev \<Longrightarrow> foldl (device_after E) d evs = d"
  by (induction evs) (simp_all add: inert_device)

text \<open>Handling a prefix of the events first changes nothing.\<close>

lemma device_replay:
  assumes "stable_joins (env_mls E)" "\<forall>ev\<in>set evs. names_its_room E ev"
  shows "foldl (device_after E) (foldl (device_after E) d (take k evs)) evs = foldl (device_after E) d evs"
proof -
  let ?f = "foldl (device_after E)"
  have "?f (?f d (take k evs)) (take k evs) = ?f d (take k evs)"
    using assms(2) by (intro inert_again ballI inert_batch [OF assms(1)]) (auto dest: in_set_takeD)
  then have "?f (?f d (take k evs)) (take k evs @ drop k evs) = ?f (?f d (take k evs)) (drop k evs)"
    by (simp only: foldl_append)
  also have "... = ?f d (take k evs @ drop k evs)" by (simp only: foldl_append)
  finally show ?thesis by simp
qed

section \<open>A batch, interrupted and again\<close>

text \<open>The part of a batch up to its acknowledgement, and the rest of the cycle.\<close>

definition to_device_events :: "json \<Rightarrow> json list" where
  "to_device_events resp = (case as_array (jindex (jindex resp ''to_device'') ''events'') of None \<Rightarrow> [] | Some evs \<Rightarrow> evs)"

definition take_in ::
  "('w, 'd, 'g, 'k, 't) client_env \<Rightarrow> pigeon_client \<Rightarrow> json \<Rightarrow> ('w, 'd, 'k, 't, bool) client_act" where
  "take_in env cl resp =
     bnd (apply_sync env cl resp) (\<lambda>applied.
     bnd (apply_to_device env resp) (\<lambda>joined.
     bnd (persist_sync_token env cl resp) (\<lambda>_. ret (applied \<or> joined))))"

lemma bnd_assoc: "bnd (bnd m f) g = bnd m (\<lambda>a. bnd (f a) g)"
  by (auto simp: bnd_def fun_eq_iff split: prod.splits sum.splits)

lemma handle_batch_take_in:
  "handle_batch env cl resp = bnd (take_in env cl resp) (\<lambda>changed.
     bnd (process_inbound_mls env cl) (\<lambda>mls_changed.
     bnd (flush_pending env cl) (\<lambda>flushed.
     bnd (notify (OnStatus True)) (\<lambda>_.
     bnd (if changed \<or> mls_changed \<or> flushed then notify OnChange else ret ()) (\<lambda>_.
     ret BACKOFF_START)))))"
  by (simp add: handle_batch_def take_in_def bnd_assoc disj_assoc)

text \<open>The process dies when the batch is stored and the first \<open>k\<close> to-device events are handled.\<close>

definition take_in_until ::
  "('w, 'd, 'g, 'k, 't) client_env \<Rightarrow> pigeon_client \<Rightarrow> json \<Rightarrow> nat \<Rightarrow> ('w, 'd, 'k, 't, bool) client_act" where
  "take_in_until env cl resp k =
     bnd (apply_sync env cl resp) (\<lambda>_.
     bnd has_engine (\<lambda>engine.
     if engine then to_device_loop env (take k (to_device_events resp)) False else ret False))"

lemma apply_to_device_device:
  assumes "apply_to_device env resp w = (r, w')"
  shows "vt_device (wd_vault w') =
    map_option (\<lambda>d. foldl (device_after (ce_crypto env)) d (to_device_events resp)) (vt_device (wd_vault w))"
proof (cases "vt_device (wd_vault w)")
  case None
  then have "w' = w"
    using assms by (auto simp: apply_to_device_def has_engine_def bnd_def split: option.splits)
  then show ?thesis using None by simp
next
  case (Some d)
  show ?thesis
  proof (cases "as_array (jindex (jindex resp ''to_device'') ''events'')")
    case None
    then show ?thesis using assms Some by (simp add: apply_to_device_def to_device_events_def)
  next
    case (Some evs)
    then have "to_device_loop env evs False w = (r, w')"
      using assms \<open>vt_device (wd_vault w) = Some d\<close> by (simp add: apply_to_device_def has_engine_def bnd_def)
    from to_device_loop_device [OF \<open>vt_device (wd_vault w) = Some d\<close> this] Some \<open>vt_device (wd_vault w) = Some d\<close>
    show ?thesis by (simp add: to_device_events_def)
  qed
qed

lemma apply_sync_run:
  assumes "apply_sync env cl resp w = (Inr a, w1)"
  obtains db n where "apply_events (ce_codec env) (wd_stores w (cl_store cl)) (joined_events resp) = Inr (db, n)"
    "w1 = w\<lparr>wd_stores := (wd_stores w)(cl_store cl := db)\<rparr>"
  using assms by (auto simp: apply_sync_def bnd_Inr_iff store_write_def split: sum.splits)

lemma take_in_run:
  assumes "apply_events (ce_codec env) (wd_stores w (cl_store cl)) (joined_events resp) = Inr (db, n)"
  obtains changed w' where "take_in env cl resp w = (Inr changed, w')"
    "wd_stores w' (cl_store cl) = with_token resp db"
    "vt_device (wd_vault w') =
      map_option (\<lambda>d. foldl (device_after (ce_crypto env)) d (to_device_events resp)) (vt_device (wd_vault w))"
proof -
  let ?w1 = "w\<lparr>wd_stores := (wd_stores w)(cl_store cl := db)\<rparr>"
  have a: "apply_sync env cl resp w = (Inr (n > 0), ?w1)"
    using assms by (simp add: apply_sync_def store_write_def bnd_def)
  obtain j w2 where d: "apply_to_device env resp ?w1 = (Inr j, w2)" "wd_stores w2 = wd_stores ?w1"
    using to_device_total by blast
  let ?w3 = "w2\<lparr>wd_stores := (wd_stores w2)(cl_store cl := with_token resp (wd_stores w2 (cl_store cl)))\<rparr>"
  have "take_in env cl resp w = (Inr (n > 0 \<or> j), ?w3)"
    unfolding take_in_def bnd_eval(2) [of "apply_sync env cl resp" w, OF a]
      bnd_eval(2) [of "apply_to_device env resp" ?w1, OF d(1)]
      bnd_eval(2) [of "persist_sync_token env cl resp" w2, OF persist_run] by simp
  then show thesis
    using that d(2) apply_to_device_device [OF d(1)] by simp
qed

lemma take_in_until_run:
  assumes "take_in_until env cl resp k w = (r, w')"
    and "apply_events (ce_codec env) (wd_stores w (cl_store cl)) (joined_events resp) = Inr (db, n)"
  shows "wd_stores w' (cl_store cl) = db" "vt_device (wd_vault w') =
      map_option (\<lambda>d. foldl (device_after (ce_crypto env)) d (take k (to_device_events resp))) (vt_device (wd_vault w))"
proof -
  let ?w1 = "w\<lparr>wd_stores := (wd_stores w)(cl_store cl := db)\<rparr>"
  have a: "apply_sync env cl resp w = (Inr (n > 0), ?w1)"
    using assms(2) by (simp add: apply_sync_def store_write_def bnd_def)
  have run: "(if vt_device (wd_vault w) \<noteq> None then to_device_loop env (take k (to_device_events resp)) False else ret False) ?w1
      = (r, w')"
    using assms(1) unfolding take_in_until_def bnd_eval(2) [of "apply_sync env cl resp" w, OF a]
    by (simp add: bnd_def has_engine_def)
  have stores: "wd_stores w2 = wd_stores w1" if "to_device_loop env evs j w1 = (x, w2)" for evs j w1 x w2
    using that to_device_loop_quiet [of env evs j] unfolding keeps_def same_stores_def by blast
  show "wd_stores w' (cl_store cl) = db"
    using run stores [of _ _ ?w1] by (cases "vt_device (wd_vault w) = None") auto
  show "vt_device (wd_vault w') =
      map_option (\<lambda>d. foldl (device_after (ce_crypto env)) d (take k (to_device_events resp))) (vt_device (wd_vault w))"
  proof (cases "vt_device (wd_vault w)")
    case None
    then show ?thesis using run by auto
  next
    case (Some d)
    then show ?thesis using run to_device_loop_device [of ?w1 d env] by simp
  qed
qed

text \<open>
  C13: A crash before the acknowledgement loses and repeats nothing. Take a batch whose events are stored
  and whose first k to-device events are handled when the process dies. The sync token is still the old
  one, so the next process, which has the same store and the same device, gets the batch again; taking it
  in ends with the same store (token included) and the same device as if nothing had happened. A Welcome
  that was joined is not joined again, although the engine might be able to, because its room's group is
  held by then; this needs every Welcome of the batch to come with the id of its room, as the client sends
  it, and that a Welcome the device cannot use does not become usable by joining with another.
\<close>

theorem crash_before_ack_is_harmless:
  assumes "stable_joins (env_mls (ce_crypto env))" "\<forall>ev\<in>set (to_device_events resp). names_its_room (ce_crypto env) ev"
    and "reachable (ce_codec env) (wd_stores w (cl_store cl))"
    and "take_in env cl resp w = (Inr changed, w_whole)" "take_in_until env cl resp k w = (r, w_dead)"
    and "wd_stores w_next (cl_store cl) = wd_stores w_dead (cl_store cl)"
    and "vt_device (wd_vault w_next) = vt_device (wd_vault w_dead)"
  shows "load_sync_token (wd_stores w_next (cl_store cl)) = load_sync_token (wd_stores w (cl_store cl)) \<and>
    (\<exists>again w_end. take_in env cl resp w_next = (Inr again, w_end) \<and>
       wd_stores w_end (cl_store cl) = wd_stores w_whole (cl_store cl) \<and>
       vt_device (wd_vault w_end) = vt_device (wd_vault w_whole))"
proof -
  let ?db = "wd_stores w (cl_store cl)"
  obtain a w1 where "apply_sync env cl resp w = (Inr a, w1)"
    using assms(4) by (auto simp: take_in_def bnd_Inr_iff)
  then obtain db n where db: "apply_events (ce_codec env) ?db (joined_events resp) = Inr (db, n)"
    by (rule apply_sync_run)
  note dead = take_in_until_run [OF assms(5) db]
  have "distinct (map state_key_of (room_state ?db))"
    using reachable_inv [OF assms(3)] by (simp add: db_inv_def keys_inv_def)
  from apply_events_replay_eq [OF this db]
  have again: "apply_events (ce_codec env) (wd_stores w_next (cl_store cl)) (joined_events resp) = Inr (db, 0)"
    using assms(6) dead(1) by simp
  obtain b w_end where e: "take_in env cl resp w_next = (Inr b, w_end)"
      "wd_stores w_end (cl_store cl) = with_token resp db" "vt_device (wd_vault w_end) =
        map_option (\<lambda>d. foldl (device_after (ce_crypto env)) d (to_device_events resp)) (vt_device (wd_vault w_next))"
    by (rule take_in_run [OF again])
  have whole: "wd_stores w_whole (cl_store cl) = with_token resp db" "vt_device (wd_vault w_whole) =
      map_option (\<lambda>d. foldl (device_after (ce_crypto env)) d (to_device_events resp)) (vt_device (wd_vault w))"
    by (rule take_in_run [OF db]; use assms(4) in simp)+
  have "vt_device (wd_vault w_end) = vt_device (wd_vault w_whole)"
    unfolding e(3) whole(2) assms(7) dead(2) by (simp add: option.map_comp comp_def device_replay [OF assms(1,2)])
  moreover have "load_sync_token db = load_sync_token ?db"
    using db by (auto simp: apply_events_Inr load_sync_token_def foldl_apply_frame)
  ultimately show ?thesis using e(1,2) whole(1) assms(6) dead(1) by auto
qed

text \<open>A batch with two Welcomes; the sample engine can join by the same Welcome any number of times.\<close>

definition welcome_event :: "string \<Rightarrow> json" where
  "welcome_event room = JObj [(''type'', JStr ''p.mls.welcome''),
     (''content'', JObj [(''welcome'', JStr room), (''room_id'', JStr room)])]"

definition welcomes_sync :: json where
  "welcomes_sync = JObj [(''next_batch'', JStr ''s2''),
     (''to_device'', JObj [(''events'', JArr [welcome_event ''!r'', welcome_event ''!s''])])]"

theorem crash_before_ack_is_harmless_witness:
  "case take_in_until (toy_env down_server) toy_client welcomes_sync 1 (toy_world (Some []) db_name) of (_, w_dead) \<Rightarrow>
     vt_device (wd_vault w_dead) = Some [''!r''] \<and>
     (\<exists>again w_end. take_in (toy_env down_server) toy_client welcomes_sync
        (toy_world (vt_device (wd_vault w_dead)) (wd_stores w_dead (cl_store toy_client))) = (Inr again, w_end) \<and>
        vt_device (wd_vault w_end) = Some [''!s'', ''!r''] \<and>
        load_sync_token (wd_stores w_end (cl_store toy_client)) = Some ''s2'')"
proof -
  let ?env = "toy_env down_server" and ?w = "toy_world (Some []) db_name"
  obtain r w_dead where dead: "take_in_until ?env toy_client welcomes_sync 1 ?w = (r, w_dead)" by fastforce
  let ?next = "toy_world (vt_device (wd_vault w_dead)) (wd_stores w_dead (cl_store toy_client))"
  have laws: "stable_joins (env_mls (ce_crypto ?env))"
    by (auto simp: stable_joins_def toy_env_def toy_crypto_def toy_mls_def)
  have ids: "bytes_str (str_bytes ''!r'') = ''!r''" "bytes_str (str_bytes ''!s'') = ''!s''" by code_simp+
  have "names_its_room (ce_crypto ?env) (welcome_event rm)" if "rm = ''!r'' \<or> rm = ''!s''" for rm
    using that ids by (auto simp: names_its_room_def welcome_event_def decode_wire_def jindex_def toy_env_def
        toy_crypto_def toy_b64_def toy_mls_def)
  then have named: "\<forall>ev\<in>set (to_device_events welcomes_sync). names_its_room (ce_crypto ?env) ev"
    by (simp add: to_device_events_def welcomes_sync_def jindex_def)
  have reach: "reachable (ce_codec ?env) (wd_stores ?w (cl_store toy_client))"
    using reach_db_name by (simp add: toy_env_def toy_world_def)
  have batch: "apply_events (ce_codec ?env) (wd_stores ?w (cl_store toy_client)) (joined_events welcomes_sync) =
      Inr (db_name, 0)"
    by (simp add: joined_events_def welcomes_sync_def jindex_def apply_events_Inr toy_world_def)
  have devices: "to_device_events welcomes_sync = [welcome_event ''!r'', welcome_event ''!s'']"
      "device_after (ce_crypto ?env) [] (welcome_event ''!r'') = [''!r'']"
      "device_after (ce_crypto ?env) [''!r''] (welcome_event ''!s'') = [''!s'', ''!r'']"
    using ids by (simp_all add: to_device_events_def welcomes_sync_def device_after_def tries_def welcome_event_def
        decode_wire_def jindex_def toy_env_def toy_crypto_def toy_b64_def toy_mls_def)
  obtain c w_whole where whole: "take_in ?env toy_client welcomes_sync ?w = (Inr c, w_whole)"
      "wd_stores w_whole (cl_store toy_client) = with_token welcomes_sync db_name"
      "vt_device (wd_vault w_whole) = Some [''!s'', ''!r'']"
    using take_in_run [OF batch] devices by (auto simp: toy_world_def)
  have "vt_device (wd_vault w_dead) = Some [''!r'']"
    using take_in_until_run(2) [OF dead batch] devices by (simp add: toy_world_def)
  moreover have "load_sync_token (with_token welcomes_sync db_name) = Some ''s2''"
    by (simp add: with_token_def welcomes_sync_def jindex_def load_sync_token_def save_sync_token_def)
  moreover have "wd_stores ?next (cl_store toy_client) = wd_stores w_dead (cl_store toy_client)"
      "vt_device (wd_vault ?next) = vt_device (wd_vault w_dead)"
    by (simp_all add: toy_world_def)
  ultimately obtain again w_end where "take_in ?env toy_client welcomes_sync ?next = (Inr again, w_end)"
      "vt_device (wd_vault w_end) = Some [''!s'', ''!r'']"
      "load_sync_token (wd_stores w_end (cl_store toy_client)) = Some ''s2''"
      "vt_device (wd_vault w_dead) = Some [''!r'']"
    using crash_before_ack_is_harmless [OF laws named reach whole(1) dead, of ?next] whole(2,3) by auto
  then show ?thesis unfolding dead by auto
qed

end
