(* ===== verification/Json_Code.thy ===== *)
theory Json_Code
  imports Samples
begin

text \<open>
  A text form for every JSON value, for the closed instances that need nested values: a prefix code with
  one letter per constructor, strings after their length in unary, numbers as their 64 bits.
  Reading back what was written gives the value, and text written from UTF-8 strings is UTF-8.
\<close>

section \<open>Writing\<close>

definition put_word :: "64 word \<Rightarrow> string" where
  "put_word w = map (\<lambda>i. if bit w i then CHR ''1'' else CHR ''0'') [0..<64]"

definition put_text :: "string \<Rightarrow> string" where
  "put_text s = replicate (length s) CHR ''1'' @ CHR ''.'' # s"

fun put_json :: "json \<Rightarrow> string" where
  "put_json JNull = ''n''"
| "put_json (JBool b) = (if b then ''t'' else ''f'')"
| "put_json (JNum (PosInt w)) = ''p'' @ put_word w"
| "put_json (JNum (NegInt w)) = ''m'' @ put_word w"
| "put_json (JNum (Float w)) = ''d'' @ put_word w"
| "put_json (JStr s) = ''s'' @ put_text s"
| "put_json (JArr vs) = ''a'' @ concat (map (\<lambda>v. ''+'' @ put_json v) vs) @ ''.''"
| "put_json (JObj kvs) = ''o'' @ concat (map (\<lambda>(k, v). ''+'' @ put_text k @ put_json v) kvs) @ ''.''"

section \<open>Reading\<close>

definition take_word :: "string \<Rightarrow> 64 word" where
  "take_word s = horner_sum of_bool 2 (map (\<lambda>c. c = CHR ''1'') (take 64 s))"

definition take_text :: "string \<Rightarrow> string \<times> string" where
  "take_text s =
     (let n = length (takeWhile (\<lambda>c. c = CHR ''1'') s); r = drop (Suc n) s in (take n r, drop n r))"

text \<open>The readers return the rest of the text too; the fuel bounds the nesting and the length.\<close>

fun take_json :: "nat \<Rightarrow> string \<Rightarrow> (json \<times> string) option"
and take_list :: "nat \<Rightarrow> string \<Rightarrow> (json list \<times> string) option"
and take_fields :: "nat \<Rightarrow> string \<Rightarrow> ((string \<times> json) list \<times> string) option" where
  "take_json (Suc n) (c # s) =
     (if c = CHR ''n'' then Some (JNull, s)
      else if c = CHR ''t'' then Some (JBool True, s)
      else if c = CHR ''f'' then Some (JBool False, s)
      else if c = CHR ''p'' then Some (JNum (PosInt (take_word s)), drop 64 s)
      else if c = CHR ''m'' then Some (JNum (NegInt (take_word s)), drop 64 s)
      else if c = CHR ''d'' then Some (JNum (Float (take_word s)), drop 64 s)
      else if c = CHR ''s'' then (let (t, r) = take_text s in Some (JStr t, r))
      else if c = CHR ''a'' then map_option (\<lambda>(vs, r). (JArr vs, r)) (take_list n s)
      else if c = CHR ''o'' then map_option (\<lambda>(kvs, r). (JObj kvs, r)) (take_fields n s)
      else None)"
| "take_json _ _ = None"
| "take_list (Suc n) (c # s) =
     (if c = CHR ''+'' then
        Option.bind (take_json n s) (\<lambda>(v, r).
        Option.bind (take_list n r) (\<lambda>(vs, r'). Some (v # vs, r')))
      else if c = CHR ''.'' then Some ([], s) else None)"
| "take_list _ _ = None"
| "take_fields (Suc n) (c # s) =
     (if c = CHR ''+'' then
        (let (k, r) = take_text s
         in Option.bind (take_json n r) (\<lambda>(v, r').
            Option.bind (take_fields n r') (\<lambda>(kvs, r''). Some ((k, v) # kvs, r''))))
      else if c = CHR ''.'' then Some ([], s) else None)"
| "take_fields _ _ = None"

definition get_json :: "string \<Rightarrow> string + json" where
  "get_json s = (case take_json (length s) s of Some (v, []) \<Rightarrow> Inr v | _ \<Rightarrow> Inl ''invalid JSON'')"

definition code_json :: json_text where
  "code_json = \<lparr> jprint = put_json, jparse = (\<lambda>bs. get_json (bytes_str bs)) \<rparr>"

section \<open>Round trip\<close>

lemma put_word_length: "length (put_word w) = 64"
  by (simp add: put_word_def)

lemma take_put_word: "take_word (put_word w @ r) = w"
proof -
  have "map (\<lambda>c. c = CHR ''1'') (put_word w) = map (bit w) [0..<64]"
    by (simp add: put_word_def)
  then have "take_word (put_word w @ r) = horner_sum of_bool 2 (map (bit w) [0..<64])"
    by (simp add: take_word_def put_word_length)
  also have "... = take_bit 64 w" by (rule horner_sum_bit_eq_take_bit)
  also have "... = w" by (rule take_bit_word_eq_self) simp
  finally show ?thesis .
qed

lemma put_json_nonempty [simp]: "put_json v \<noteq> []"
  by (cases v rule: put_json.cases) auto

lemma take_put_text: "take_text (put_text s @ r) = (s, r)"
proof -
  have "takeWhile (\<lambda>c. c = CHR ''1'') (put_text s @ r) = replicate (length s) CHR ''1''"
    by (simp add: put_text_def takeWhile_append)
  then show ?thesis by (simp add: take_text_def put_text_def)
qed

text \<open>Reading needs fuel for the nesting and for the entries; the length of the text is enough.\<close>

definition reads :: "json \<Rightarrow> bool" where
  "reads v \<longleftrightarrow> (\<forall>n r. length (put_json v) \<le> n \<longrightarrow> take_json n (put_json v @ r) = Some (v, r))"

lemma reads_list:
  assumes "\<forall>v\<in>set vs. reads v"
    and "length (concat (map (\<lambda>v. ''+'' @ put_json v) vs) @ ''.'') \<le> n"
  shows "take_list n ((concat (map (\<lambda>v. ''+'' @ put_json v) vs) @ ''.'') @ r) = Some (vs, r)"
  using assms
proof (induction vs arbitrary: n)
  case Nil
  then obtain m where "n = Suc m" by (cases n) auto
  then show ?case by simp
next
  case (Cons v vs)
  obtain m where n: "n = Suc m" using Cons.prems(2) by (cases n) auto
  let ?rest = "(concat (map (\<lambda>v. ''+'' @ put_json v) vs) @ ''.'') @ r"
  have "take_json m (put_json v @ ?rest) = Some (v, ?rest)"
    using Cons.prems n by (auto simp: reads_def)
  moreover have "take_list m ?rest = Some (vs, r)"
    using Cons.prems n by (intro Cons.IH) auto
  ultimately show ?case by (simp add: n)
qed

lemma reads_fields:
  assumes "\<forall>kv\<in>set kvs. reads (snd kv)"
    and "length (concat (map (\<lambda>(k, v). ''+'' @ put_text k @ put_json v) kvs) @ ''.'') \<le> n"
  shows "take_fields n ((concat (map (\<lambda>(k, v). ''+'' @ put_text k @ put_json v) kvs) @ ''.'') @ r) = Some (kvs, r)"
  using assms
proof (induction kvs arbitrary: n)
  case Nil
  then obtain m where "n = Suc m" by (cases n) auto
  then show ?case by simp
next
  case (Cons kv kvs)
  obtain k v where kv: "kv = (k, v)" by (cases kv)
  obtain m where n: "n = Suc m" using Cons.prems(2) by (cases n) auto
  let ?rest = "(concat (map (\<lambda>(k, v). ''+'' @ put_text k @ put_json v) kvs) @ ''.'') @ r"
  have "take_text (put_text k @ (put_json v @ ?rest)) = (k, put_json v @ ?rest)"
    by (rule take_put_text)
  moreover have "take_json m (put_json v @ ?rest) = Some (v, ?rest)"
    using Cons.prems n kv by (auto simp: reads_def)
  moreover have "take_fields m ?rest = Some (kvs, r)"
    using Cons.prems n kv by (intro Cons.IH) auto
  ultimately show ?case by (simp add: n kv)
qed

lemma reads_all: "reads v"
proof (induction v)
  case (JNum x)
  have "take_json n (put_json (JNum x) @ r) = Some (JNum x, r)" if len: "length (put_json (JNum x)) \<le> n" for n r
  proof -
    obtain m where "n = Suc m" using len by (cases n; cases x) (auto simp: put_word_length)
    then show ?thesis by (cases x) (simp_all add: take_put_word put_word_length)
  qed
  then show ?case by (simp add: reads_def)
next
  case (JStr s)
  have "take_json n (put_json (JStr s) @ r) = Some (JStr s, r)" if len: "length (put_json (JStr s)) \<le> n" for n r
  proof -
    obtain m where "n = Suc m" using len by (cases n) auto
    then show ?thesis by (simp add: take_put_text)
  qed
  then show ?case by (simp add: reads_def)
next
  case (JArr vs)
  have "take_json n (put_json (JArr vs) @ r) = Some (JArr vs, r)" if len: "length (put_json (JArr vs)) \<le> n" for n r
  proof -
    obtain m where n: "n = Suc m" using len by (cases n) auto
    then show ?thesis using reads_list [where vs = vs and n = m and r = r] JArr len by simp
  qed
  then show ?case by (simp add: reads_def)
next
  case (JObj kvs)
  have kvs: "\<forall>kv\<in>set kvs. reads (snd kv)" using JObj by (auto simp: snds.simps)
  have "take_json n (put_json (JObj kvs) @ r) = Some (JObj kvs, r)" if len: "length (put_json (JObj kvs)) \<le> n" for n r
  proof -
    obtain m where n: "n = Suc m" using len by (cases n) auto
    then show ?thesis using reads_fields [OF kvs, where n = m and r = r] len by simp
  qed
  then show ?case by (simp add: reads_def)
qed (auto simp: reads_def neq_Nil_conv dest!: Suc_le_D)

text \<open>The law of the text form, for every value.\<close>

lemma get_put_json: "get_json (put_json v) = Inr v"
proof -
  have "take_json (length (put_json v)) (put_json v @ []) = Some (v, [])"
    using reads_all [of v] unfolding reads_def by blast
  then show ?thesis by (simp add: get_json_def)
qed

lemma code_json_roundtrip: "jparse code_json (str_bytes (jprint code_json v)) = Inr v"
  by (simp add: code_json_def get_put_json)

section \<open>UTF-8\<close>

text \<open>The strings of a value are UTF-8, as the strings of the program are.\<close>

fun utf8_json :: "json \<Rightarrow> bool" where
  "utf8_json (JStr s) = valid_utf8 (str_bytes s)"
| "utf8_json (JArr vs) = list_all utf8_json vs"
| "utf8_json (JObj kvs) = list_all (\<lambda>(k, v). valid_utf8 (str_bytes k) \<and> utf8_json v) kvs"
| "utf8_json _ = True"

lemma valid_utf8_step:
  assumes "valid_utf8 (b # bs)"
  obtains cs bs' where "bs = cs @ bs'" "valid_utf8 bs'" "\<And>ys. valid_utf8 (b # cs @ ys) \<longleftrightarrow> valid_utf8 ys"
proof (cases "b < 128")
  case True
  then show thesis using assms that [of "[]" bs] by simp
next
  case b1: False
  show thesis
  proof (cases "194 \<le> b \<and> b \<le> 223")
    case True
    then obtain c bs' where "bs = c # bs'" "utf8_cont c" "valid_utf8 bs'"
      using assms b1 by (auto split: list.splits)
    then show thesis using b1 True that [of "[c]" bs'] by simp
  next
    case b2: False
    show thesis
    proof (cases "224 \<le> b \<and> b \<le> 239")
      case True
      then obtain c d bs' where "bs = c # d # bs'" "utf8_second b c" "utf8_cont d" "valid_utf8 bs'"
        using assms b1 b2 by (simp del: de_Morgan_conj split: list.splits)
      moreover have "valid_utf8 (b # c # d # ys) \<longleftrightarrow> utf8_second b c \<and> utf8_cont d \<and> valid_utf8 ys" for ys
        using b1 b2 True by (simp only: valid_utf8.simps(2) if_False if_True list.case simp_thms)
      ultimately show thesis using that [of "[c, d]" bs'] by simp
    next
      case b3: False
      have b4: "240 \<le> b \<and> b \<le> 244"
      proof (rule ccontr)
        assume "\<not> ?thesis"
        then have "\<not> valid_utf8 (b # bs)"
          using b1 b2 b3 by (simp only: valid_utf8.simps(2) if_False simp_thms)
        then show False using assms by simp
      qed
      have "valid_utf8 (b # xs) \<longleftrightarrow> (case xs of c # d # e # bs' \<Rightarrow>
           utf8_second b c \<and> utf8_cont d \<and> utf8_cont e \<and> valid_utf8 bs' | _ \<Rightarrow> False)" for xs
        using b1 b2 b3 b4 by (simp only: valid_utf8.simps(2) if_False if_True simp_thms)
      note v = this
      then obtain c d e bs' where "bs = c # d # e # bs'" "utf8_second b c" "utf8_cont d" "utf8_cont e"
          "valid_utf8 bs'"
        using assms by (auto simp del: valid_utf8.simps split: list.splits)
      then show thesis using that [of "[c, d, e]" bs'] v by (simp del: valid_utf8.simps)
    qed
  qed
qed

lemma valid_utf8_append: "valid_utf8 a \<Longrightarrow> valid_utf8 b \<Longrightarrow> valid_utf8 (a @ b)"
proof (induction a rule: length_induct)
  case (1 a)
  show ?case
  proof (cases a)
    case (Cons x xs)
    then have v: "valid_utf8 (x # xs)" using 1 by simp
    obtain cs ys where s: "xs = cs @ ys" "valid_utf8 ys" "\<And>zs. valid_utf8 (x # cs @ zs) \<longleftrightarrow> valid_utf8 zs"
      by (rule valid_utf8_step [OF v]) blast
    have "valid_utf8 (ys @ b)" using 1 s(1,2) Cons by simp
    then show ?thesis using s(1,3) Cons by (simp del: valid_utf8.simps)
  qed (use 1 in simp)
qed

lemma str_bytes_append [simp]: "str_bytes (s @ t) = str_bytes s @ str_bytes t"
  by (simp add: str_bytes_def)

lemma utf8_concat: "\<forall>s\<in>set ss. valid_utf8 (str_bytes s) \<Longrightarrow> valid_utf8 (str_bytes (concat ss))"
  by (induction ss) (simp_all add: valid_utf8_append, simp add: str_bytes_def)

definition ascii :: "string \<Rightarrow> bool" where
  "ascii s \<longleftrightarrow> (\<forall>c\<in>set s. of_char c < (128 :: nat))"

lemma ascii_utf8: "ascii s \<Longrightarrow> valid_utf8 (str_bytes s)"
proof (induction s)
  case (Cons c s)
  then have "of_char c < (128 :: nat)" by (simp add: ascii_def)
  then have "word_of_nat (of_char c) < (128 :: 8 word)"
    by (simp add: word_less_nat_alt of_char_word8)
  with Cons show ?case by (simp add: str_bytes_def ascii_def)
qed (simp add: str_bytes_def)

lemma utf8_put_text: "valid_utf8 (str_bytes s) \<Longrightarrow> valid_utf8 (str_bytes (put_text s))"
proof -
  assume s: "valid_utf8 (str_bytes s)"
  have "ascii (replicate (length s) CHR ''1'' @ ''.'')" by (auto simp: ascii_def)
  then have "valid_utf8 (str_bytes ((replicate (length s) CHR ''1'' @ ''.'') @ s))"
    unfolding str_bytes_append [of _ s] by (rule valid_utf8_append [OF ascii_utf8 s])
  then show ?thesis by (simp add: put_text_def del: str_bytes_append)
qed

lemma utf8_put_json: "utf8_json v \<Longrightarrow> valid_utf8 (str_bytes (put_json v))"
proof (induction v)
  case (JNum x)
  have "ascii (put_word w)" for w by (auto simp: ascii_def put_word_def)
  then have "ascii (put_json (JNum x))" by (cases x) (auto simp: ascii_def)
  then show ?case by (rule ascii_utf8)
next
  case (JStr s)
  have "valid_utf8 (str_bytes (''s'' @ put_text s))"
    unfolding str_bytes_append by (rule valid_utf8_append [OF ascii_utf8 utf8_put_text]) (use JStr in \<open>simp_all add: ascii_def\<close>)
  then show ?case by simp
next
  case (JArr vs)
  have one: "valid_utf8 (str_bytes (''+'' @ put_json v))" if "v \<in> set vs" for v
    unfolding str_bytes_append by (rule valid_utf8_append [OF ascii_utf8])
      (use JArr that in \<open>auto simp: ascii_def list_all_iff\<close>)
  have "valid_utf8 (str_bytes (concat ([''a''] @ map (\<lambda>v. ''+'' @ put_json v) vs @ [''.''])))"
  proof (rule utf8_concat, rule ballI)
    fix s assume "s \<in> set ([''a''] @ map (\<lambda>v. ''+'' @ put_json v) vs @ [''.''])"
    then consider "s = ''a''" | v where "v \<in> set vs" "s = ''+'' @ put_json v" | "s = ''.''" by auto
    then show "valid_utf8 (str_bytes s)"
      by cases (use one in \<open>auto intro: ascii_utf8 simp: ascii_def simp del: str_bytes_append\<close>)
  qed
  then show ?case by simp
next
  case (JObj kvs)
  have one: "valid_utf8 (str_bytes (''+'' @ put_text k @ put_json v))" if "(k, v) \<in> set kvs" for k v
  proof -
    have "valid_utf8 (str_bytes k)" "valid_utf8 (str_bytes (put_json v))" "ascii ''+''"
      using JObj that by (auto simp: ascii_def list_all_iff)
    then show ?thesis
      unfolding str_bytes_append by (intro valid_utf8_append utf8_put_text ascii_utf8 [of "''+''"])
  qed
  have "valid_utf8 (str_bytes (concat ([''o''] @ map (\<lambda>(k, v). ''+'' @ put_text k @ put_json v) kvs @ [''.''])))"
  proof (rule utf8_concat, rule ballI)
    fix s assume "s \<in> set ([''o''] @ map (\<lambda>(k, v). ''+'' @ put_text k @ put_json v) kvs @ [''.''])"
    then consider "s = ''o''" | k v where "(k, v) \<in> set kvs" "s = ''+'' @ put_text k @ put_json v" | "s = ''.''" by auto
    then show "valid_utf8 (str_bytes s)"
      by cases (use one in \<open>auto intro: ascii_utf8 simp: ascii_def simp del: str_bytes_append\<close>)
  qed
  then show ?case by simp
qed (auto intro: ascii_utf8 simp: ascii_def)

end
