(* ===== verification/Sym_Mls.thy ===== *)
theory Sym_Mls
  imports Json_Code Restart Inbound_Spec Crash
begin

text \<open>
  A symbolic MLS engine, base64 and content hash, in the place of \<open>pigeon_crypto\<close>, for the
  closed instances and the translated tests that need two devices: a device is a list of private keys and
  of groups with their epochs, and what it puts on the wire is the text of a symbolic term.  Ciphertext is
  readable by anyone who parses it, so nothing is proved about secrecy; who can join, decrypt
  and apply a commit, and when, is as in MLS.
\<close>

section \<open>Terms on the wire\<close>

definition wire :: "string list \<Rightarrow> bytes" where
  "wire xs = str_bytes (put_json (JArr (map JStr xs)))"

definition unwire :: "bytes \<Rightarrow> string list option" where
  "unwire bs = (case get_json (bytes_str bs) of Inr (JArr vs) \<Rightarrow> those (map as_str vs) | _ \<Rightarrow> None)"

lemma those_strings: "those (map as_str (map JStr xs)) = Some xs"
  by (induction xs) simp_all

lemma unwire_wire [simp]: "unwire (wire xs) = Some xs"
  by (simp add: unwire_def wire_def get_put_json those_strings del: map_map put_json.simps)

text \<open>Numbers are written in unary.\<close>

definition tally :: "nat \<Rightarrow> string" where
  "tally n = replicate n CHR ''1''"

lemma length_tally [simp]: "length (tally n) = n"
  by (simp add: tally_def)

lemma tally_inj [simp]: "tally m = tally n \<longleftrightarrow> m = n"
  by (metis length_tally)

section \<open>Devices\<close>

text \<open>
  A device: its user, its identity, the next number it gives out, the private keys of unused and of
  reusable key packages, its groups with their epochs, and the messages it has decrypted.
\<close>

record sym_device =
  sd_user :: string
  sd_id :: nat
  sd_next :: nat
  sd_keys :: "nat list"
  sd_reusable :: "nat list"
  sd_groups :: "(string \<times> nat) list"
  sd_seen :: "(string \<times> string) list"

definition json_nat :: "nat \<Rightarrow> json" where
  "json_nat n = JStr (tally n)"

definition nat_of_json :: "json \<Rightarrow> nat" where
  "nat_of_json v = (case v of JStr s \<Rightarrow> length s | _ \<Rightarrow> 0)"

definition json_pair :: "string \<times> json \<Rightarrow> json" where
  "json_pair p = JObj [p]"

definition pair_of_json :: "json \<Rightarrow> string \<times> json" where
  "pair_of_json v = (case v of JObj [p] \<Rightarrow> p | _ \<Rightarrow> ([], JNull))"

definition str_of_json :: "json \<Rightarrow> string" where
  "str_of_json v = (case v of JStr s \<Rightarrow> s | _ \<Rightarrow> [])"

definition list_of_json :: "json \<Rightarrow> json list" where
  "list_of_json v = (case v of JArr vs \<Rightarrow> vs | _ \<Rightarrow> [])"

definition device_json :: "sym_device \<Rightarrow> json" where
  "device_json d = JArr [JStr (sd_user d), json_nat (sd_id d), json_nat (sd_next d),
     JArr (map json_nat (sd_keys d)), JArr (map json_nat (sd_reusable d)),
     JArr (map (\<lambda>(r, n). json_pair (r, json_nat n)) (sd_groups d)),
     JArr (map (\<lambda>(s, n). json_pair (s, JStr n)) (sd_seen d))]"

definition device_of_json :: "json \<Rightarrow> string + sym_device" where
  "device_of_json v =
     (let vs = list_of_json v
      in if length vs \<noteq> 7 then Inl ''not a device''
         else Inr \<lparr> sd_user = str_of_json (vs ! 0), sd_id = nat_of_json (vs ! 1), sd_next = nat_of_json (vs ! 2),
           sd_keys = map nat_of_json (list_of_json (vs ! 3)),
           sd_reusable = map nat_of_json (list_of_json (vs ! 4)),
           sd_groups = map (\<lambda>p. (fst (pair_of_json p), nat_of_json (snd (pair_of_json p)))) (list_of_json (vs ! 5)),
           sd_seen = map (\<lambda>p. (fst (pair_of_json p), str_of_json (snd (pair_of_json p)))) (list_of_json (vs ! 6)) \<rparr>)"

lemma device_of_device_json: "device_of_json (device_json d) = Inr d"
  by (simp add: device_of_json_def device_json_def list_of_json_def str_of_json_def nat_of_json_def json_nat_def
      json_pair_def pair_of_json_def comp_def case_prod_beta)

definition put_device :: "sym_device \<Rightarrow> bytes" where
  "put_device d = str_bytes (put_json (device_json d))"

definition take_device :: "bytes \<Rightarrow> string + sym_device" where
  "take_device bs = then_ok (get_json (bytes_str bs)) device_of_json"

lemma take_put_device: "take_device (put_device d) = Inr d"
  by (simp add: take_device_def put_device_def get_put_json device_of_device_json)

section \<open>Groups\<close>

definition epoch_of :: "sym_device \<Rightarrow> string \<Rightarrow> nat option" where
  "epoch_of d room = map_of (sd_groups d) room"

definition set_epoch :: "string \<Rightarrow> nat \<Rightarrow> sym_device \<Rightarrow> sym_device" where
  "set_epoch room n d = d\<lparr>sd_groups := (room, n) # filter (\<lambda>p. fst p \<noteq> room) (sd_groups d)\<rparr>"

lemma epoch_of_set [simp]: "epoch_of (set_epoch room n d) r = (if r = room then Some n else epoch_of d r)"
proof -
  have "map_of (filter (\<lambda>p. fst p \<noteq> room) gs) r = (if r = room then None else map_of gs r)"
    for gs :: "(string \<times> nat) list"
    by (induction gs) auto
  then show ?thesis by (simp add: epoch_of_def set_epoch_def)
qed

definition sym_add :: "string \<Rightarrow> bytes \<Rightarrow> sym_device \<Rightarrow> (string + bytes \<times> bytes) \<times> sym_device" where
  "sym_add room kp d =
     (case (unwire kp, epoch_of d room) of
        (Some [tag, dev, key], Some n) \<Rightarrow>
          (if tag = ''key-package''
           then (Inr (wire [''welcome'', dev, key, room, tally (Suc n)],
                      wire [''commit'', room, tally (Suc n)]), set_epoch room (Suc n) d)
           else (Inl ''invalid KeyPackage'', d))
      | _ \<Rightarrow> (Inl ''invalid KeyPackage'', d))"

definition sym_commit :: "string \<Rightarrow> bytes \<Rightarrow> sym_device \<Rightarrow> (string + unit) \<times> sym_device" where
  "sym_commit room c d =
     (case epoch_of d room of
        None \<Rightarrow> (Inl ''no group'', d)
      | Some n \<Rightarrow>
          (if unwire c = Some [''commit'', room, tally (Suc n)] then (Inr (), set_epoch room (Suc n) d)
           else (Inl ''wrong epoch'', d)))"

definition sym_join :: "bytes \<Rightarrow> sym_device \<Rightarrow> (string + unit) \<times> sym_device" where
  "sym_join w d =
     (case unwire w of
        Some [tag, dev, key, room, n] \<Rightarrow>
          (if tag = ''welcome'' \<and> dev = tally (sd_id d) \<and> length key \<in> set (sd_keys d @ sd_reusable d) \<and>
              epoch_of d room = None
           then (Inr (), set_epoch room (length n) (d\<lparr>sd_keys := removeAll (length key) (sd_keys d)\<rparr>))
           else (Inl ''no matching KeyPackage'', d))
      | _ \<Rightarrow> (Inl ''invalid Welcome'', d))"

definition sym_encrypt :: "string \<Rightarrow> bytes \<Rightarrow> sym_device \<Rightarrow> (string + bytes) \<times> sym_device" where
  "sym_encrypt room p d =
     (case epoch_of d room of
        None \<Rightarrow> (Inl ''no group'', d)
      | Some n \<Rightarrow> (Inr (wire [''message'', tally (sd_id d), room, tally n, tally (sd_next d), bytes_str p]),
          d\<lparr>sd_next := Suc (sd_next d)\<rparr>))"

definition sym_decrypt :: "string \<Rightarrow> bytes \<Rightarrow> sym_device \<Rightarrow> (string + bytes) \<times> sym_device" where
  "sym_decrypt room c d =
     (case (unwire c, epoch_of d room) of
        (Some [tag, dev, r, n, num, p], Some e) \<Rightarrow>
          (if tag = ''message'' \<and> r = room \<and> n = tally e \<and> dev \<noteq> tally (sd_id d) \<and> (dev, num) \<notin> set (sd_seen d)
           then (Inr (str_bytes p), d\<lparr>sd_seen := (dev, num) # sd_seen d\<rparr>)
           else (Inl ''cannot decrypt'', d))
      | _ \<Rightarrow> (Inl ''not an MLS message'', d))"

section \<open>The engine\<close>

definition sym_package :: "sym_device \<Rightarrow> nat \<Rightarrow> bytes" where
  "sym_package d i = wire [''key-package'', tally (sd_id d), tally i]"

definition sym_mls :: "(sym_device, string) mls" where
  "sym_mls = \<lparr>
     m_new = (\<lambda>seed user. Inr \<lparr> sd_user = user, sd_id = seed, sd_next = 0, sd_keys = [], sd_reusable = [],
        sd_groups = [], sd_seen = [] \<rparr>),
     m_restore = (\<lambda>user pubkey blob. take_device blob),
     m_pubkey = (\<lambda>d. replicate 31 0 @ [word_of_nat (sd_id d)]),
     m_export = (\<lambda>d. Inr (put_device d)),
     m_key_packages = (\<lambda>n d. (Inr (map (sym_package d) [sd_next d..<sd_next d + n]),
        d\<lparr>sd_next := sd_next d + n, sd_keys := sd_keys d @ [sd_next d..<sd_next d + n]\<rparr>)),
     m_last_resort = (\<lambda>d. (Inr (sym_package d (sd_next d)),
        d\<lparr>sd_next := Suc (sd_next d), sd_reusable := sd_reusable d @ [sd_next d]\<rparr>)),
     m_load_group = (\<lambda>g d. Inr (if epoch_of d (bytes_str g) = None then None else Some (bytes_str g))),
     m_create_group = (\<lambda>g d. if epoch_of d (bytes_str g) = None then (Inr (), set_epoch (bytes_str g) 0 d)
        else (Inl ''group exists'', d)),
     m_add_member = sym_add,
     m_process_commit = sym_commit,
     m_join = sym_join,
     m_encrypt = sym_encrypt,
     m_decrypt = sym_decrypt,
     m_encrypt_media = (\<lambda>seed p. Inr (wire [''media-key'', tally seed], wire [''media'', tally seed, bytes_str p])),
     m_decrypt_media = (\<lambda>key c.
        (case (unwire key, unwire c) of
           (Some [k, i], Some [m, j, p]) \<Rightarrow>
             (if k = ''media-key'' \<and> m = ''media'' \<and> i = j then Inr (str_bytes p) else Inl ''wrong key'')
         | _ \<Rightarrow> Inl ''invalid media'')),
     m_create_backup = (\<lambda>seed d. Inr (wire [''recovery-key'', tally seed],
        wire [''backup'', tally seed, bytes_str (put_device d)] @ [0])),
     m_restore_backup = (\<lambda>key blob.
        (case (unwire key, if blob = [] \<or> last blob \<noteq> 0 then None else unwire (butlast blob)) of
           (Some [k, i], Some [b, j, d]) \<Rightarrow>
             (if k = ''recovery-key'' \<and> b = ''backup'' \<and> i = j then take_device (str_bytes d) else Inl ''wrong key'')
         | _ \<Rightarrow> Inl ''invalid backup'')) \<rparr>"

text \<open>Base64: text that starts with an exclamation mark does not decode.\<close>

definition sym_b64 :: base64 where
  "sym_b64 = \<lparr> b64_encode = (\<lambda>bs. CHR ''='' # bytes_str bs),
     b64_decode = (\<lambda>s. case s of
        [] \<Rightarrow> Inr []
      | c # t \<Rightarrow> (if c = CHR ''!'' then Inl ''invalid byte'' else if c = CHR ''='' then Inr (str_bytes t)
                 else Inr (str_bytes s))) \<rparr>"

definition sym_crypto :: "(sym_device, string, (string \<times> bytes) list) crypto_env" where
  "sym_crypto = \<lparr> env_mls = sym_mls, env_b64 = sym_b64, env_json = code_json, env_ks = toy_ks \<rparr>"

section \<open>The laws hold of it\<close>

lemma sym_group_frame [simp]:
  "epoch_of (d\<lparr>sd_seen := x\<rparr>) r = epoch_of d r" "epoch_of (d\<lparr>sd_next := n\<rparr>) r = epoch_of d r"
  "epoch_of (d\<lparr>sd_keys := k\<rparr>) r = epoch_of d r" "epoch_of (d\<lparr>sd_reusable := k\<rparr>) r = epoch_of d r"
  by (simp_all add: epoch_of_def)

lemma sym_commit_epoch: "(epoch_of (snd (sym_commit room c d)) r = None) = (epoch_of d r = None)"
  by (auto simp: sym_commit_def split: option.split)

lemma sym_decrypt_epoch: "epoch_of (snd (sym_decrypt room c d)) r = epoch_of d r"
  by (auto simp: sym_decrypt_def split: option.split list.split)

lemma sym_steady:
  "steady (sym_add g kp)" "steady (sym_commit g c)" "steady (sym_join w)" "steady (sym_encrypt g p)"
  "steady (sym_decrypt g c)"
  by (auto simp: steady_def sym_add_def sym_commit_def sym_join_def sym_encrypt_def sym_decrypt_def
      split: option.splits list.splits if_splits)

lemma sym_b64_back: "b64_decode sym_b64 (b64_encode sym_b64 bs) = Inr bs"
  by (simp add: sym_b64_def)

lemma sym_steady_mls: "steady_mls sym_mls"
  using sym_steady unfolding steady_mls_def
  by (simp add: sym_mls_def) (simp add: steady_def)

lemma sym_reliable: "reliable sym_crypto user"
proof -
  have "durable_key_store toy_ks" by (auto simp: durable_key_store_def toy_ks_def)
  moreover have "crypto_laws sym_crypto user"
    by (simp add: crypto_laws_def key_store_laws_def sym_crypto_def toy_ks_def sym_b64_back code_json_roundtrip
        sym_mls_def take_put_device)
  ultimately show ?thesis by (simp add: reliable_def sym_steady_mls sym_crypto_def)
qed

lemma sym_groups_stable: "groups_stable sym_mls"
  by (simp add: groups_stable_def sym_mls_def sym_commit_epoch sym_decrypt_epoch)

section \<open>Clients with the engine\<close>

text \<open>An environment without a data directory for stores (each login opens one in memory) or with one.\<close>

definition sym_env ::
  "string option \<Rightarrow> 'w server \<Rightarrow> ('w, sym_device, string, (string \<times> bytes) list, json) client_env" where
  "sym_env dir srv = \<lparr> ce_server = srv, ce_http = Inr (),
     ce_hash = (\<lambda>v. case v of JStr s \<Rightarrow> Inr (str_bytes s) | _ \<Rightarrow> Inl ''not a string''),
     ce_codec = id_codec, ce_crypto = sym_crypto, ce_clock = (\<lambda>n. 1 + int n), ce_open = (\<lambda>path. Inr ()),
     ce_store_dir = dir \<rparr>"

definition sym_client :: "string \<Rightarrow> pigeon_client" where
  "sym_client user = \<lparr> cl_api = \<lparr> api_base = ''http://h'', api_token = Some ''t'' \<rparr>,
     cl_session = \<lparr> ss_user_id = user, ss_device_id = ''D'', ss_server = ''http://h'' \<rparr>, cl_store = InMemory 0 \<rparr>"

definition sym_world ::
  "'w \<Rightarrow> sym_device option \<Rightarrow> json db \<Rightarrow> ('w, sym_device, (string \<times> bytes) list, json) world" where
  "sym_world remote device db = \<lparr> wd_net = \<lparr> net_remote = remote, net_log = [] \<rparr>,
     wd_vault = \<lparr> vt_device = device, vt_keys = Some [], vt_seed = 0 \<rparr>, wd_stores = (\<lambda>_. db),
     wd_memory_stores = 1, wd_sink = None, wd_ticks = 0, wd_send_counter = 0, wd_txn_counter = 0,
     wd_observer = [], wd_sleeps = [] \<rparr>"

text \<open>A device with the given identity, unused key packages and groups.\<close>

definition sym_new :: "string \<Rightarrow> nat \<Rightarrow> nat list \<Rightarrow> (string \<times> nat) list \<Rightarrow> sym_device" where
  "sym_new user i keys groups = \<lparr> sd_user = user, sd_id = i, sd_next = length keys, sd_keys = keys, sd_reusable = [],
     sd_groups = groups, sd_seen = [] \<rparr>"

lemma sym_new_simps [simp]:
  "sd_id (sym_new u i ks gs) = i" "sd_seen (sym_new u i ks gs) = []" "sd_keys (sym_new u i ks gs) = ks"
  "epoch_of (sym_new u i ks gs) room = map_of gs room"
  by (simp_all add: sym_new_def epoch_of_def)

end
