(* ===== verification/Delivery.thy ===== *)
theory Delivery
  imports Sym_Mls Rooms_Spec
begin

text \<open>
  Two devices.  The other theories look at one client; here what one client puts on the wire is
  handed to another one.  A text message that one client encrypts and the server delivers in a sync batch
  ends as a readable line of the other's timeline; a Welcome that one client sends lets the other into the
  group; an image comes back as the bytes that were sent; a backup restores the device.  The
  server is only assumed to hand on what it was given.
\<close>

section \<open>The engines\<close>

text \<open>
  The law of MLS two devices rely on: what one encrypts for the room, the other decrypts.  It holds
  as long as both are at the same epoch of the group.
\<close>

definition in_step :: "('d, 'g) mls \<Rightarrow> string \<Rightarrow> 'd \<Rightarrow> 'd \<Rightarrow> bool" where
  "in_step M room dA dB \<longleftrightarrow>
     (\<forall>gA p c dA'. m_load_group M (str_bytes room) dA = Inr (Some gA) \<longrightarrow> m_encrypt M gA p dA = (Inr c, dA') \<longrightarrow>
        (\<exists>gB dB'. m_load_group M (str_bytes room) dB = Inr (Some gB) \<and> m_decrypt M gB c dB = (Inr p, dB')))"

text \<open>The laws of this section hold of the symbolic engine.\<close>

lemma sym_load: "m_load_group sym_mls (str_bytes room) d = Inr (if epoch_of d room = None then None else Some room)"
  by (simp add: sym_mls_def)

lemma sym_in_step:
  assumes "epoch_of dA room = Some n" "epoch_of dB room = Some n" "sd_id dA \<noteq> sd_id dB"
    "(tally (sd_id dA), tally (sd_next dA)) \<notin> set (sd_seen dB)"
  shows "in_step sym_mls room dA dB"
  using assms unfolding in_step_def sym_load
  by (auto simp: sym_mls_def sym_encrypt_def sym_decrypt_def)

lemma persist_current_succeeds:
  assumes "reliable E user" "vt_device v = Some d"
  obtains v' where "persist_current E v = (Inr (), v')" "vt_device v' = Some d"
proof -
  have laws: "durable_key_store (env_ks E)" "steady_mls (env_mls E)"
    using assms(1) by (simp_all add: reliable_def)
  obtain blob where blob: "m_export (env_mls E) d = Inr blob"
    using laws(2) unfolding steady_mls_def by blast
  let ?bs = "str_bytes (jprint (env_json E) (stored_state E d blob))"
  show thesis
  proof (cases "vt_keys v")
    case None
    then have "persist_current E v = (Inr (), v)"
      using assms(2) blob by (simp add: persist_current_def the_device_def persist_def ks_put_def ks_call_def bnd_def)
    then show ?thesis using that assms(2) by blast
  next
    case (Some k)
    obtain k' where "kp_put (env_ks E) MLS_STATE_KEY ?bs k = (Inr (), k')"
      using laws(1) unfolding durable_key_store_def by blast
    then have "persist_current E v = (Inr (), v\<lparr>vt_keys := Some k'\<rparr>)"
      using assms(2) blob Some
      by (simp add: persist_current_def the_device_def persist_def ks_put_def ks_call_def bnd_def)
    then show ?thesis using that assms(2) by simp
  qed
qed

lemma reliable_b64: "reliable E user \<Longrightarrow> b64_decode (env_b64 E) (b64_encode (env_b64 E) bs) = Inr bs"
  by (simp add: reliable_def crypto_laws_def)

text \<open>What a successful encryption did, and how the other engine reads it.\<close>

lemma encrypt_run:
  assumes "encrypt E room pt v = (Inr c, v')"
  obtains d g ct d' where "vt_device v = Some d" "m_load_group (env_mls E) (str_bytes room) d = Inr (Some g)"
    "m_encrypt (env_mls E) g (str_bytes pt) d = (Inr ct, d')" "c = b64_encode (env_b64 E) ct"
  using assms that
  by (auto simp: encrypt_def bnd_def the_device_def on_device_def set_device_def load_group_def then_ok_def
      ok_or_def map_err_def split: option.splits sum.splits prod.splits)

lemma decrypt_run:
  assumes rel: "reliable E user" and d: "vt_device v = Some d"
    and g: "m_load_group (env_mls E) (str_bytes room) d = Inr (Some g)"
    and m: "m_decrypt (env_mls E) g ct d = (Inr (str_bytes pt), d')" and utf: "valid_utf8 (str_bytes pt)"
  obtains v' where "decrypt E room (b64_encode (env_b64 E) ct) v = (Inr pt, v')" "vt_device v' = Some d'"
proof -
  obtain v' where p: "persist_current E (v\<lparr>vt_device := Some d'\<rparr>) = (Inr (), v')" "vt_device v' = Some d'"
    using persist_current_succeeds [OF rel, of "v\<lparr>vt_device := Some d'\<rparr>" d'] by auto
  have utf8: "from_utf8 (str_bytes pt) = Inr pt" using utf by (simp add: from_utf8_Inr)
  have "decrypt E room (b64_encode (env_b64 E) ct) v = (Inr pt, v')"
    using d g m utf p(1)
    by (simp add: decrypt_def bnd_def the_device_def on_device_def set_device_def load_group_def ok_or_def
        decode_wire_def reliable_b64 [OF rel] utf8)
  then show thesis using that p(2) by blast
qed

lemma engines_talk:
  assumes rel: "reliable E user" and sent: "encrypt E room pt v = (Inr c, v')"
    and devices: "vt_device v = Some dA" "vt_device w = Some dB" and step: "in_step (env_mls E) room dA dB"
    and utf: "valid_utf8 (str_bytes pt)"
  obtains w' where "decrypt E room c w = (Inr pt, w')" "has_group E room w = (Inr True, w)"
proof -
  obtain dA2 g ct d' where e2: "vt_device v = Some dA2" "m_load_group (env_mls E) (str_bytes room) dA2 = Inr (Some g)"
      "m_encrypt (env_mls E) g (str_bytes pt) dA2 = (Inr ct, d')" "c = b64_encode (env_b64 E) ct"
    by (rule encrypt_run [OF sent])
  then have e: "m_load_group (env_mls E) (str_bytes room) dA = Inr (Some g)"
      "m_encrypt (env_mls E) g (str_bytes pt) dA = (Inr ct, d')" "c = b64_encode (env_b64 E) ct"
    using devices(1) by auto
  then obtain gB dB' where B: "m_load_group (env_mls E) (str_bytes room) dB = Inr (Some gB)"
      "m_decrypt (env_mls E) gB ct dB = (Inr (str_bytes pt), dB')"
    using step unfolding in_step_def by blast
  have "has_group E room w = (Inr True, w)"
    using devices(2) B(1) by (simp add: has_group_def the_device_def bnd_def)
  moreover obtain w' where "decrypt E room c w = (Inr pt, w')"
    using decrypt_run [OF rel devices(2) B utf] e(3) by metis
  ultimately show thesis using that by blast
qed

section \<open>A delivered message\<close>

text \<open>What \<open>plan_send\<close> hands to the network for a room whose group the device holds.\<close>

lemma plan_encrypts:
  assumes "plan_send env cl ps w = (Inr (Transmit ''p.room.encrypted'' content), w')"
  obtains c v' where "content = encrypted_event c"
    "encrypt (ce_crypto env) (ps_room_id ps) (ps_body ps) (wd_vault w) = (Inr c, v')"
proof -
  obtain r w1 where r: "encrypt_for_send env (ps_room_id ps) (ps_body ps) w = (r, w1)" by fastforce
  then obtain c where c: "r = Inr (Some c)" "content = encrypted_event c"
    using assms by (cases r) (auto simp: plan_send_def catch_def bnd_def store_read_def log_emit_def
        split: option.splits if_splits)
  then have e: "encrypt_for_send env (ps_room_id ps) (ps_body ps) w = (Inr (Some c), w1)" using r by simp
  obtain h v1 where h: "has_group (ce_crypto env) (ps_room_id ps) (wd_vault w) = (h, v1)" by fastforce
  have "v1 = wd_vault w" using h by (auto simp: has_group_def the_device_def bnd_def split: option.splits)
  obtain x v2 where x: "encrypt (ce_crypto env) (ps_room_id ps) (ps_body ps) (wd_vault w) = (x, v2)" by fastforce
  have "x = Inr c"
    using e h x \<open>v1 = wd_vault w\<close>
    by (auto simp: encrypt_for_send_def bnd_def has_engine_def on_vault_def split: if_splits sum.splits)
  then show thesis using that c(2) x by blast
qed

text \<open>A message that is new to the store, and what the store then has pending.\<close>

lemma collect_one:
  assumes "collect_res f xs = Inr ys" "List.map_filter id ys = []" "f r = Inr (Some i)" "mset zs = mset (r # xs)"
    "r \<notin> set xs"
  shows "\<exists>ws. collect_res f zs = Inr ws \<and> List.map_filter id ws = [i]"
proof -
  let ?g = "\<lambda>x. case f x of Inr y \<Rightarrow> y | Inl _ \<Rightarrow> None"
  have old: "f x = Inr None" if "x \<in> set xs" for x
    using assms(1,2) that
  proof (induction xs arbitrary: ys)
    case (Cons a xs)
    then show ?case by (auto simp: map_filter_def split: sum.splits option.splits if_splits)
  qed simp
  have zs: "set zs = insert r (set xs)" "count (mset zs) r = 1"
    using assms(4,5) by (metis list.simps(15) set_mset_mset) (simp add: assms(4,5) count_mset_0_iff)
  have "collect_res f zs = Inr (map ?g zs)"
    if "set zs \<subseteq> insert r (set xs)" for zs
    using that old assms(3) by (induction zs) auto
  then have c: "collect_res f zs = Inr (map ?g zs)" using zs(1) by simp
  have "List.map_filter id (map ?g ks) = replicate (count (mset ks) r) i"
    if "set ks \<subseteq> insert r (set xs)" for ks
    using that
  proof (induction ks)
    case (Cons k ks)
    then show ?case using old assms(3,5) by (cases "k = r") (auto simp: map_filter_simps)
  qed (simp add: map_filter_simps)
  then have "List.map_filter id (map ?g zs) = [i]" using zs by simp
  with c show ?thesis by blast
qed

text \<open>
  An event of the type \<open>ty\<close> that the server delivers: the store does not have it yet, and it is newer than
  every event of its room.
\<close>

definition fresh_event :: "'t codec \<Rightarrow> 't db \<Rightarrow> string \<Rightarrow> json \<Rightarrow> stored_event \<Rightarrow> bool" where
  "fresh_event cx db ty v ev \<longleftrightarrow> storable v \<and> from_wire v = Inr ev \<and>
     ev_event_type ev = ty \<and> ev_state_key ev = None \<and> \<not> has_event db (ev_event_id ev) \<and>
     (\<forall>r\<in>set (events db). r_room_id r = ev_room_id ev \<longrightarrow> r_depth r < ev_depth ev)"

lemma encrypted_row:
  assumes "codec_laws cx" "from_wire v = Inr ev" "storable v" "ev_content ev = encrypted_event c"
    "ev_event_type ev = ''p.room.encrypted''"
  shows "read_mls_row cx (row_of_event cx ev) = Inr (Some (MlsMessage \<lparr> pd_event_id = ev_event_id ev,
    pd_room_id = ev_room_id ev, pd_sender = ev_sender ev, pd_ciphertext_b64 = c \<rparr>))"
proof -
  have v: "ev_payload ev = v" using from_wire_payload [OF assms(2)] by simp
  obtain kvs where kvs: "v = JObj kvs" using from_wire_object [OF assms(2)] by blast
  have content: "map_of kvs ''content'' = Some (encrypted_event c)"
    using assms(2,4) kvs by (auto simp: from_wire_def then_ok_Inr_iff jindex_def encrypted_event_def split: option.splits)
  have canon: "canon cx (enc cx v) v" by (rule canon_enc [OF assms(3)])
  have ct: "jextract cx (enc cx v) [''content'', ''ciphertext''] = Inr (SText c)"
    by (rule canon_extract [OF assms(1) canon, of "[''content'', ''ciphertext'']"])
      (use content kvs in \<open>simp add: encrypted_event_def\<close>)
  have cm: "jextract cx (enc cx v) [''content'', ''commit''] = Inr SNull"
    by (rule canon_extract [OF assms(1) canon, of "[''content'', ''commit'']"])
      (use content kvs in \<open>simp add: encrypted_event_def\<close>)
  show ?thesis
    using ct cm v assms(5) by (simp add: read_mls_row_def row_of_event_def mls_item_def)
qed

lemma commit_row:
  assumes "codec_laws cx" "from_wire v = Inr ev" "storable v" "ev_content ev = JObj [(''commit'', JStr c)]"
    "ev_event_type ev = ''p.mls.commit''"
  shows "read_mls_row cx (row_of_event cx ev) = Inr (Some (MlsCommit \<lparr> pc_event_id = ev_event_id ev,
    pc_room_id = ev_room_id ev, pc_sender = ev_sender ev, pc_commit_b64 = c \<rparr>))"
proof -
  have v: "ev_payload ev = v" using from_wire_payload [OF assms(2)] by simp
  obtain kvs where kvs: "v = JObj kvs" using from_wire_object [OF assms(2)] by blast
  have content: "map_of kvs ''content'' = Some (JObj [(''commit'', JStr c)])"
    using assms(2,4) kvs by (auto simp: from_wire_def then_ok_Inr_iff jindex_def split: option.splits)
  have canon: "canon cx (enc cx v) v" by (rule canon_enc [OF assms(3)])
  have ct: "jextract cx (enc cx v) [''content'', ''ciphertext''] = Inr SNull"
    by (rule canon_extract [OF assms(1) canon, of "[''content'', ''ciphertext'']"])
      (use content kvs in simp)
  have cm: "jextract cx (enc cx v) [''content'', ''commit''] = Inr (SText c)"
    by (rule canon_extract [OF assms(1) canon, of "[''content'', ''commit'']"])
      (use content kvs in simp)
  show ?thesis
    using ct cm v assms(5) by (simp add: read_mls_row_def row_of_event_def mls_item_def)
qed

lemma fresh_event_pending:
  assumes reach: "reachable cx db" and none: "pending_mls cx db = Inr []"
    and fresh: "fresh_event cx db ty v ev" and ty: "ty = ''p.room.encrypted'' \<or> ty = ''p.mls.commit''"
    and row: "read_mls_row cx (row_of_event cx ev) = Inr (Some i)"
  obtains db1 where "apply_events cx db [v] = Inr (db1, 1)" "events db1 = events db @ [row_of_event cx ev]"
    "pending_sends_tab db1 = pending_sends_tab db" "reachable cx db1" "pending_mls cx db1 = Inr [i]"
proof -
  let ?r = "row_of_event cx ev" and ?db1 = "db\<lparr>events := events db @ [row_of_event cx ev]\<rparr>"
  have ap: "apply_events cx db [v] = Inr (?db1, 1)"
    using fresh by (simp add: fresh_event_def apply_events_def insert_event_def)
  have reach1: "reachable cx ?db1"
    by (rule reach_step [OF reach step_sync [OF _ ap]]) (use fresh in \<open>simp add: fresh_event_def\<close>)
  let ?sorted = "\<lambda>db. sort_key row_pos (filter awaits_mls (events db))"
  obtain ys where ys: "collect_res (read_mls_row cx) (?sorted db) = Inr ys" "List.map_filter id ys = []"
    using none by (auto simp: pending_mls_def then_ok_Inr_iff)
  have "awaits_mls ?r" using fresh ty by (auto simp: fresh_event_def awaits_mls_def row_of_event_def)
  then have m: "mset (?sorted ?db1) = mset (?r # ?sorted db)" by simp
  have "?r \<notin> set (?sorted db)"
    using fresh by (auto simp: fresh_event_def has_event_def has_key_iff row_of_event_def)
  then obtain ws where "collect_res (read_mls_row cx) (?sorted ?db1) = Inr ws" "List.map_filter id ws = [i]"
    using collect_one [OF ys row m] by blast
  then have "pending_mls cx ?db1 = Inr [i]" by (simp add: pending_mls_def)
  then show thesis using that [of ?db1] ap reach1 by simp
qed

text \<open>The decrypted message in the timeline.\<close>

lemma decrypted_in_timeline:
  assumes laws: "codec_laws cx" and reach: "reachable cx db1" and fresh: "fresh_event cx db ''p.room.encrypted'' v ev"
    and evs: "events db1 = events db @ [row_of_event cx ev]" and limit: "0 < limit"
  shows "\<exists>es. timeline cx (set_decrypted db1 (ev_event_id ev) pt) (ev_room_id ev) limit None = Inr es \<and> es \<noteq> [] \<and>
    last es = ev\<lparr>ev_decrypted := Some pt\<rparr>"
proof -
  let ?db2 = "set_decrypted db1 (ev_event_id ev) pt"
  let ?r = "(row_of_event cx ev)\<lparr>r_decrypted := Some pt, r_decrypt_state := DECRYPT_OK\<rparr>"
  have new: "r_event_id r \<noteq> ev_event_id ev" if "r \<in> set (events db)" for r
    using fresh that by (metis fresh_event_def has_event_def has_key_iff imageI)
  then have ev2: "events ?db2 = events db @ [?r]"
    using evs by (auto simp: set_decrypted_def upd_event_def upd_rows_def intro!: map_idI)
  have inv: "db_inv cx ?db2"
    by (rule reachable_inv [OF reach_step [OF reach step_decrypted]])
  have pos: "row_pos x \<le> row_pos ?r" if "x \<in> set (events ?db2)" "in_timeline (ev_room_id ev) None x" for x
    using that fresh ev2
    by (auto simp: fresh_event_def in_timeline_def row_pos_def dag_pos_le row_of_event_def)
  obtain es where es: "timeline cx ?db2 (ev_room_id ev) limit None = Inr es" "es \<noteq> []"
      "parse_row cx ?r = Inr (last es)"
    using timeline_ends_with_newest [OF laws inv limit, of ?r "ev_room_id ev"] pos fresh ev2
    by (auto simp: in_timeline_def row_of_event_def fresh_event_def)
  have v: "from_wire v = Inr ev" "storable v" using fresh by (simp_all add: fresh_event_def)
  have "parse_row cx ?r = Inr (ev\<lparr>ev_decrypted := Some pt\<rparr>)"
    using canon_dec [OF laws canon_enc [OF v(2)]] from_wire_payload [OF v(1)] v(1)
    by (simp add: parse_row_def parse_stored_payload_def row_of_event_def send_state_from_local_def
        DECRYPT_OK_def DECRYPT_FAILED_def)
  with es show ?thesis by auto
qed

text \<open>The pass over a single pending message.\<close>

lemma inbound_single:
  assumes dev: "vt_device (wd_vault w) \<noteq> None"
    and pend: "pending_mls (ce_codec env) (wd_stores w (cl_store cl)) = Inr [MlsMessage m]"
    and held: "has_group (ce_crypto env) (pd_room_id m) (wd_vault w) = (Inr True, wd_vault w)"
    and dec: "decrypt (ce_crypto env) (pd_room_id m) (pd_ciphertext_b64 m) (wd_vault w) = (Inr pt, v')"
    and other: "pd_sender m \<noteq> ss_user_id (cl_session cl)"
  shows "process_inbound_mls env cl w = (Inr True, w\<lparr>wd_vault := v',
    wd_stores := (wd_stores w)(cl_store cl := set_decrypted (wd_stores w (cl_store cl)) (pd_event_id m) pt)\<rparr>)"
proof -
  have "process_inbound_mls env cl w = inbound_loop env cl [MlsMessage m] False w"
    by (rule process_inbound_run [OF dev pend])
  also have "... = (Inr True, w\<lparr>wd_vault := v',
      wd_stores := (wd_stores w)(cl_store cl := set_decrypted (wd_stores w (cl_store cl)) (pd_event_id m) pt)\<rparr>)"
    using held dec other
    by (simp add: inbound_message_def bnd_def on_vault_def catch_def store_update_def store_write_def)
  finally show ?thesis .
qed

text \<open>Nothing queued, nothing sent.\<close>

lemma flush_nothing: "pending_sends_tab (wd_stores w (cl_store cl)) = [] \<Longrightarrow> flush_pending env cl w = (Inr False, w)"
  by (simp add: flush_pending_def pending_sends_def bnd_def store_read_def)

definition no_to_device :: "json \<Rightarrow> bool" where
  "no_to_device resp \<longleftrightarrow> as_array (jindex (jindex resp ''to_device'') ''events'') \<in> {None, Some []}"

lemma to_device_none:
  assumes "no_to_device resp"
  shows "apply_to_device env resp w = (Inr False, w)"
  using assms by (auto simp: no_to_device_def apply_to_device_def bnd_def has_engine_def)

text \<open>A batch of one event whose pass settles it.\<close>

lemma single_event_batch:
  assumes ap: "apply_events (ce_codec env) (wd_stores w (cl_store cl)) (joined_events resp) = Inr (db1, 1)"
    and none: "no_to_device resp"
    and inbound: "process_inbound_mls env cl (w\<lparr>wd_stores := (wd_stores w)(cl_store cl := with_token resp db1)\<rparr>) = (Inr True, w3)"
    and queue: "pending_sends_tab (wd_stores w3 (cl_store cl)) = []"
  shows "handle_batch env cl resp w = (Inr BACKOFF_START, w3\<lparr>wd_observer := wd_observer w3 @ [OnStatus True, OnChange]\<rparr>)"
proof -
  let ?w1 = "w\<lparr>wd_stores := (wd_stores w)(cl_store cl := db1)\<rparr>"
  obtain joined w1 where run: "apply_to_device env resp ?w1 = (Inr joined, w1)"
      "handle_batch env cl resp w =
       bnd (process_inbound_mls env cl) (\<lambda>mls_changed.
       bnd (flush_pending env cl) (\<lambda>flushed.
       bnd (notify (OnStatus True)) (\<lambda>_.
       bnd (if (1::nat) > 0 \<or> joined \<or> mls_changed \<or> flushed then notify OnChange else ret ()) (\<lambda>_.
       ret BACKOFF_START)))) (w1\<lparr>wd_stores := (wd_stores w)(cl_store cl := with_token resp db1)\<rparr>)"
    using batch_run [OF ap] by metis
  have "w1 = ?w1" using run(1) to_device_none [OF none, of env ?w1] by auto
  then show ?thesis
    unfolding run(2) using inbound flush_nothing [OF queue, of env] by (simp add: bnd_def notify_def modA_def)
qed

lemma token_frame:
  assumes "reachable cx db"
  shows "events (with_token resp db) = events db" "pending_sends_tab (with_token resp db) = pending_sends_tab db"
    "pending_mls cx (with_token resp db) = pending_mls cx db" "reachable cx (with_token resp db)"
  using reach_step [OF assms step_token]
  by (auto simp: with_token_def save_sync_token_def pending_mls_def assms split: option.split)

text \<open>A batch that delivers a message the device can decrypt, and the line it becomes.\<close>

lemma message_batch:
  assumes dev: "vt_device (wd_vault w) \<noteq> None" and held: "has_group E room (wd_vault w) = (Inr True, wd_vault w)"
    and env: "ce_crypto env = E" and dec: "decrypt E room c (wd_vault w) = (Inr pt, v')"
    and store: "codec_laws (ce_codec env)" "reachable (ce_codec env) (wd_stores w (cl_store cl))"
      "pending_mls (ce_codec env) (wd_stores w (cl_store cl)) = Inr []"
      "pending_sends_tab (wd_stores w (cl_store cl)) = []"
    and batch: "joined_events resp = [v]" "no_to_device resp"
    and event: "fresh_event (ce_codec env) (wd_stores w (cl_store cl)) ''p.room.encrypted'' v ev"
      "ev_content ev = encrypted_event c" "ev_room_id ev = room" "ev_sender ev \<noteq> ss_user_id (cl_session cl)"
    and limit: "limit \<noteq> 0"
  obtains w' es where "handle_batch env cl resp w = (Inr BACKOFF_START, w')"
    "wd_observer w' = wd_observer w @ [OnStatus True, OnChange]"
    "client_timeline env cl room limit None w' = (Inr (map (timeline_from (parse_text env)) es), w')"
    "es \<noteq> []" "last es = ev\<lparr>ev_decrypted := Some pt\<rparr>"
proof -
  let ?cx = "ce_codec env" and ?db = "wd_stores w (cl_store cl)"
  let ?m = "\<lparr> pd_event_id = ev_event_id ev, pd_room_id = ev_room_id ev, pd_sender = ev_sender ev, pd_ciphertext_b64 = c \<rparr>"
  have row: "read_mls_row ?cx (row_of_event ?cx ev) = Inr (Some (MlsMessage ?m))"
    using event(1,2) by (intro encrypted_row [OF store(1), of v]) (simp_all add: fresh_event_def)
  obtain db1 where db1: "apply_events ?cx ?db [v] = Inr (db1, 1)" "events db1 = events ?db @ [row_of_event ?cx ev]"
      "pending_sends_tab db1 = pending_sends_tab ?db" "reachable ?cx db1" "pending_mls ?cx db1 = Inr [MlsMessage ?m]"
    by (rule fresh_event_pending [OF store(2,3) event(1) _ row]) simp
  let ?db2 = "with_token resp db1"
  note db2 = token_frame [OF db1(4), of resp]
  let ?db3 = "set_decrypted ?db2 (ev_event_id ev) pt"
  let ?w3 = "w\<lparr>wd_vault := v', wd_stores := (wd_stores w)(cl_store cl := ?db3)\<rparr>"
  let ?w = "?w3\<lparr>wd_observer := wd_observer w @ [OnStatus True, OnChange]\<rparr>"
  have inbound: "process_inbound_mls env cl (w\<lparr>wd_stores := (wd_stores w)(cl_store cl := ?db2)\<rparr>) = (Inr True, ?w3)"
    using inbound_single [of "w\<lparr>wd_stores := (wd_stores w)(cl_store cl := ?db2)\<rparr>" env cl ?m pt v']
      dev db1(5) db2(3) held dec event(3,4) env by simp
  have "pending_sends_tab ?db3 = []" using db1(3) db2(2) store(4) by (simp add: set_decrypted_def upd_event_def)
  then have hb: "handle_batch env cl resp w = (Inr BACKOFF_START, ?w)"
    using single_event_batch [of env w cl resp db1 ?w3] db1(1) batch inbound by simp
  have "0 < unat limit" using limit by (simp add: unat_gt_0)
  then obtain es where es: "timeline ?cx ?db3 (ev_room_id ev) (unat limit) None = Inr es" "es \<noteq> []"
      "last es = ev\<lparr>ev_decrypted := Some pt\<rparr>"
    using decrypted_in_timeline [OF store(1) db2(4) event(1)] db1(2) db2(1) by metis
  have "client_timeline env cl room limit None ?w = (Inr (map (timeline_from (parse_text env)) es), ?w)"
    using es(1) event(3) by (simp add: client_timeline_def bnd_def store_read_def)
  then show thesis using that [OF hb _ _ es(2,3)] by simp
qed

text \<open>
  C4: A text message reaches the other device. One client encrypts it for a room; the other, whose device
  is in step with the sender's, has no other MLS event pending (nor one its store cannot read) and no
  queued message; and a sync batch brings it exactly this one event, from another user, new and deeper than
  every event of its room, and no to-device event. Then the cycle ends with the message decrypted as the
  newest line of the room's timeline, sent and complete (unless the text is itself the JSON of an image
  message), and the user interface is told. This is for a key store that takes every write and an engine
  whose failed operations leave the device as it was.
\<close>

theorem encrypted_message_delivered:
  assumes rel: "reliable E user" and envs: "ce_crypto envA = E" "ce_crypto envB = E"
    and sent: "plan_send envA clA ps wA = (Inr (Transmit ''p.room.encrypted'' content), wA')"
    and devices: "vt_device (wd_vault wA) = Some dA" "vt_device (wd_vault wB) = Some dB"
      "in_step (env_mls E) (ps_room_id ps) dA dB"
    and plain: "valid_utf8 (str_bytes (ps_body ps))"
      "\<forall>v. parse_text envB (ps_body ps) = Inr v \<longrightarrow> get_str v ''msgtype'' \<noteq> Some ''p.image''"
    and store: "codec_laws (ce_codec envB)" "reachable (ce_codec envB) (wd_stores wB (cl_store clB))"
      "pending_mls (ce_codec envB) (wd_stores wB (cl_store clB)) = Inr []"
      "pending_sends_tab (wd_stores wB (cl_store clB)) = []"
    and batch: "joined_events resp = [v]" "no_to_device resp"
    and event: "fresh_event (ce_codec envB) (wd_stores wB (cl_store clB)) ''p.room.encrypted'' v ev" "ev_content ev = content"
      "ev_room_id ev = ps_room_id ps" "ev_sender ev \<noteq> ss_user_id (cl_session clB)"
    and limit: "limit \<noteq> 0"
  shows "\<exists>w. handle_batch envB clB resp wB = (Inr BACKOFF_START, w) \<and>
    wd_observer w = wd_observer wB @ [OnStatus True, OnChange] \<and>
    (\<exists>lines. client_timeline envB clB (ps_room_id ps) limit None w = (Inr lines, w) \<and> lines \<noteq> [] \<and>
      last lines = \<lparr> te_event_id = ev_event_id ev, te_sender = ev_sender ev,
        te_origin_server_ts = ev_origin_server_ts ev, te_cursor = ev_depth ev, te_body = Some (ps_body ps),
        te_system_text = None, te_pending = False, te_failed = False, te_image = None \<rparr>)"
proof -
  obtain c v' where c: "content = encrypted_event c"
      "encrypt E (ps_room_id ps) (ps_body ps) (wd_vault wA) = (Inr c, v')"
    using plan_encrypts [OF sent] envs(1) by metis
  obtain vB where dec: "decrypt E (ps_room_id ps) c (wd_vault wB) = (Inr (ps_body ps), vB)"
      and held: "has_group E (ps_room_id ps) (wd_vault wB) = (Inr True, wd_vault wB)"
    by (rule engines_talk [OF rel c(2) devices plain(1)])
  have dev: "vt_device (wd_vault wB) \<noteq> None" using devices(2) by simp
  obtain w es where w: "handle_batch envB clB resp wB = (Inr BACKOFF_START, w)"
      "wd_observer w = wd_observer wB @ [OnStatus True, OnChange]"
      "client_timeline envB clB (ps_room_id ps) limit None w = (Inr (map (timeline_from (parse_text envB)) es), w)"
      "es \<noteq> []" "last es = ev\<lparr>ev_decrypted := Some (ps_body ps)\<rparr>"
    by (rule message_batch [OF dev held envs(2) dec store batch event(1) event(2) [unfolded c(1)] event(3,4) limit])
  have img: "decrypted_image (parse_text envB) (ev\<lparr>ev_decrypted := Some (ps_body ps)\<rparr>) = None"
    using plain(2) by (auto simp: decrypted_image_def split: sum.split)
  have "ev_event_type ev = ''p.room.encrypted''" "ev_send_state ev = Confirmed"
    using event(1) from_wire_payload [of v ev] by (simp_all add: fresh_event_def)
  then have "timeline_from (parse_text envB) (last es) = \<lparr> te_event_id = ev_event_id ev, te_sender = ev_sender ev,
        te_origin_server_ts = ev_origin_server_ts ev, te_cursor = ev_depth ev, te_body = Some (ps_body ps),
        te_system_text = None, te_pending = False, te_failed = False, te_image = None \<rparr>"
    using img by (simp add: w(5) timeline_from_def event_body_def event_system_text_def event_image_def)
  then show ?thesis
    using w(1-4) by (intro exI [of _ w] conjI) (simp_all add: last_map)
qed

definition good_server :: "unit server" where
  "good_server = reply_server 200 (JObj [(''event_id'', JStr ''$e''), (''content_uri'', JStr ''pigeon://s/ct1'')])"

definition sample_send :: pending_send where
  "sample_send = \<lparr> ps_txn_id = ''m1'', ps_room_id = ''!r'', ps_body = ''hi'' \<rparr>"

text \<open>What the server delivers: the event of the type \<open>ty\<close> that \<open>@a\<close> sent to the room \<open>!r\<close>.\<close>

definition delivered :: "string \<Rightarrow> json \<Rightarrow> json" where
  "delivered ty content = JObj [(''event_id'', JStr ''$e''), (''room_id'', JStr ''!r''), (''sender'', JStr ''@a''),
     (''type'', JStr ty), (''origin_server_ts'', json_i64 1), (''depth'', json_i64 1), (''content'', content)]"

definition delivered_event :: "string \<Rightarrow> json \<Rightarrow> stored_event" where
  "delivered_event ty content = \<lparr> ev_event_id = ''$e'', ev_room_id = ''!r'', ev_sender = ''@a'', ev_event_type = ty,
     ev_state_key = None, ev_origin_server_ts = 1, ev_depth = 1, ev_content = content,
     ev_payload = delivered ty content, ev_send_state = Confirmed, ev_decrypted = None, ev_decrypt_failed = False \<rparr>"

definition batch_of :: "json \<Rightarrow> json" where
  "batch_of v = JObj [(''next_batch'', JStr ''1_0''),
     (''rooms'', JObj [(''join'', JObj [(''!r'', JObj [(''timeline'', JObj [(''events'', JArr [v])])])])])]"

lemma batch_of: "joined_events (batch_of v) = [v]" "no_to_device (batch_of v)"
  by (simp_all add: batch_of_def joined_events_def room_events_def no_to_device_def jindex_def)

lemma delivered_fresh:
  assumes "storable (delivered ty content)"
  shows "fresh_event id_codec empty_db ty (delivered ty content) (delivered_event ty content)"
proof -
  have "from_wire (delivered ty content) = Inr (delivered_event ty content)"
    by (simp add: from_wire_def delivered_def delivered_event_def str_field_def int_field_def jindex_def ok_or_def
        json_i64_def i64_max_def)
  then show ?thesis
    using assms by (simp add: fresh_event_def delivered_event_def has_event_def has_key_iff empty_db_def)
qed

lemma empty_store: "pending_mls cx empty_db = Inr []" "pending_sends_tab empty_db = []" "events empty_db = []"
  by (simp_all add: empty_db_def pending_mls_def List.map_filter_def)

abbreviation alice_device :: sym_device where "alice_device \<equiv> sym_new ''@a'' 1 [] [(''!r'', 0)]"
abbreviation bob_device :: sym_device where "bob_device \<equiv> sym_new ''@b'' 2 [] [(''!r'', 0)]"
abbreviation carol_device :: sym_device where "carol_device \<equiv> sym_new ''@c'' 3 [0] []"

lemma sym_env_parts [simp]:
  "ce_crypto (sym_env dir srv) = sym_crypto" "ce_codec (sym_env dir srv) = id_codec" "ce_server (sym_env dir srv) = srv"
  by (simp_all add: sym_env_def)

lemma sym_world_parts [simp]:
  "vt_device (wd_vault (sym_world rm dev db)) = dev" "wd_stores (sym_world rm dev db) ref = db"
  by (simp_all add: sym_world_def)

lemma sym_crypto_parts [simp]: "env_mls sym_crypto = sym_mls" "env_b64 sym_crypto = sym_b64" "env_json sym_crypto = code_json"
  by (simp_all add: sym_crypto_def)

lemma sample_plan: "\<exists>c w'. plan_send (sym_env None good_server) (sym_client ''@a'') sample_send
    (sym_world () (Some alice_device) empty_db) = (Inr (Transmit ''p.room.encrypted'' (encrypted_event c)), w')"
proof -
  have "str_bytes ''!r'' = str_bytes ''!r''" ..
  obtain d' ct where e: "m_encrypt sym_mls ''!r'' (str_bytes ''hi'') alice_device = (Inr ct, d')"
    by (simp add: sym_mls_def sym_encrypt_def)
  obtain v' where p: "persist_current sym_crypto
      ((wd_vault (sym_world () (Some alice_device) empty_db))\<lparr>vt_device := Some d'\<rparr>) = (Inr (), v')"
    using persist_current_succeeds [OF sym_reliable, of "(wd_vault (sym_world () (Some alice_device) empty_db))\<lparr>vt_device := Some d'\<rparr>" d']
    by auto
  show ?thesis
    using e p
    by (simp add: plan_send_def catch_def encrypt_for_send_def bnd_def has_engine_def on_vault_def has_group_def
        the_device_def sample_send_def encrypt_def load_group_def sym_load on_device_def set_device_def ok_or_def)
      (rule exI, rule refl)
qed

theorem encrypted_message_delivered_witness:
  "\<exists>content w lines. handle_batch (sym_env None good_server) (sym_client ''@b'') (batch_of (delivered ''p.room.encrypted'' content))
       (sym_world () (Some bob_device) empty_db) = (Inr BACKOFF_START, w) \<and>
     client_timeline (sym_env None good_server) (sym_client ''@b'') ''!r'' 10 None w = (Inr lines, w) \<and>
     te_body (last lines) = Some ''hi''"
proof -
  let ?env = "sym_env None good_server :: (unit, _, _, _, _) client_env"
  let ?wA = "sym_world () (Some alice_device) empty_db" and ?wB = "sym_world () (Some bob_device) empty_db"
  obtain c w' where plan: "plan_send ?env (sym_client ''@a'') sample_send ?wA =
      (Inr (Transmit ''p.room.encrypted'' (encrypted_event c)), w')"
    using sample_plan by blast
  have step: "in_step (env_mls sym_crypto) (ps_room_id sample_send) alice_device bob_device"
    by (simp add: sample_send_def) (rule sym_in_step; simp)
  have ascii: "valid_utf8 (str_bytes (ps_body sample_send))"
    by (rule ascii_utf8) (simp add: ascii_def sample_send_def)
  have img: "\<forall>v. parse_text ?env (ps_body sample_send) = Inr v \<longrightarrow> get_str v ''msgtype'' \<noteq> Some ''p.image''"
    by (simp add: parse_text_def sample_send_def code_json_def get_json_def)
  have stor: "storable (delivered ''p.room.encrypted'' (encrypted_event c))"
    by (simp add: storable_def encrypted_event_def delivered_def json_i64_def)
  let ?v = "delivered ''p.room.encrypted'' (encrypted_event c)" and ?ev = "delivered_event ''p.room.encrypted'' (encrypted_event c)"
  have "\<exists>w. handle_batch ?env (sym_client ''@b'') (batch_of ?v) ?wB = (Inr BACKOFF_START, w) \<and>
    wd_observer w = wd_observer ?wB @ [OnStatus True, OnChange] \<and>
    (\<exists>lines. client_timeline ?env (sym_client ''@b'') (ps_room_id sample_send) 10 None w = (Inr lines, w) \<and> lines \<noteq> [] \<and>
      last lines = \<lparr> te_event_id = ev_event_id ?ev, te_sender = ev_sender ?ev,
        te_origin_server_ts = ev_origin_server_ts ?ev, te_cursor = ev_depth ?ev, te_body = Some (ps_body sample_send),
        te_system_text = None, te_pending = False, te_failed = False, te_image = None \<rparr>)"
    by (rule encrypted_message_delivered [OF sym_reliable [of "''@a''"] _ _ plan _ _ step ascii img _ _ _ _ batch_of])
      (simp_all add: id_codec_laws reach_empty empty_store delivered_fresh [OF stor],
       simp_all add: delivered_event_def sample_send_def sym_client_def)
  then show ?thesis by (fastforce simp: sample_send_def)
qed

section \<open>A delivered Welcome\<close>


lemma persist_current_device: "persist_current E v = (r, v') \<Longrightarrow> vt_device v' = vt_device v"
  by (auto simp: persist_current_def the_device_def persist_def ks_put_def ks_call_def bnd_def
      split: option.splits prod.splits sum.splits)

lemma add_member_run:
  assumes "add_member E room kp v = (Inr outcome, v')"
  obtains d g kpb wl c d' where "vt_device v = Some d" "m_load_group (env_mls E) (str_bytes room) d = Inr (Some g)"
    "b64_decode (env_b64 E) kp = Inr kpb" "m_add_member (env_mls E) g kpb d = (Inr (wl, c), d')"
    "vt_device v' = Some d'" "ao_welcome outcome = b64_encode (env_b64 E) wl" "ao_commit outcome = b64_encode (env_b64 E) c"
proof -
  obtain d g kpb wl c d' v1 where m: "vt_device v = Some d" "m_load_group (env_mls E) (str_bytes room) d = Inr (Some g)"
    "b64_decode (env_b64 E) kp = Inr kpb" "m_add_member (env_mls E) g kpb d = (Inr (wl, c), d')"
    "persist_current E (v\<lparr>vt_device := Some d'\<rparr>) = (Inr (), v')" "outcome = \<lparr> ao_welcome = b64_encode (env_b64 E) wl,
       ao_commit = b64_encode (env_b64 E) c \<rparr>"
    using assms
    by (auto simp: add_member_def bnd_def the_device_def on_device_def set_device_def load_group_def then_ok_def
        ok_or_def map_err_def decode_wire_def split: option.splits sum.splits prod.splits)
  from persist_current_device [OF m(5)] have "vt_device v' = Some d'" by simp
  with m that show thesis by simp
qed


lemma to_device_request:
  "call_api (send_to_device srv a ty txn msgs) w = (r, w') \<Longrightarrow>
     \<exists>rq. net_log (wd_net w') = net_log (wd_net w) @ [rq] \<and> rq_body rq = JsonBody (JObj [(''messages'', msgs)])"
  by (auto simp: call_api_def map_errA_def on_net_def send_to_device_def put_def send_def exchange_def bnd_def Let_def
      split: prod.splits sum.splits if_splits)

lemma send_event_body:
  "call_api (send_event srv a room ty txn content) w = (r, w') \<Longrightarrow>
     \<exists>rq. net_log (wd_net w') = net_log (wd_net w) @ [rq] \<and> rq_body rq = JsonBody content"
  using send_event_request by fastforce

lemma call_api_vault: "call_api m w = (r, w') \<Longrightarrow> wd_vault w' = wd_vault w"
  by (auto simp: call_api_def map_errA_def on_net_def split: prod.splits)

lemma txn_vault: "next_txn_id env w = (r, w') \<Longrightarrow> wd_vault w' = wd_vault w"
  by (auto simp: next_txn_id_def tick_def bnd_def)

definition welcome_content :: "string \<Rightarrow> string \<Rightarrow> json" where
  "welcome_content wl room = JObj [(''welcome'', JStr wl), (''room_id'', JStr room)]"

definition for_device :: "string \<Rightarrow> string \<Rightarrow> json \<Rightarrow> json" where
  "for_device user device content = JObj [(''messages'', JObj [(user, JObj [(device, content)])])]"

lemma welcome_device_sends:
  assumes "welcome_device env cl room user kp w = (Inr (), w')"
  obtains outcome v rq rq' where
    "add_member (ce_crypto env) room (ck_key_package_b64 kp) (wd_vault w) = (Inr outcome, v)" "wd_vault w' = v"
    "net_log (wd_net w') = net_log (wd_net w) @ [rq, rq']"
    "rq_body rq = JsonBody (for_device user (ck_device_id kp) (welcome_content (ao_welcome outcome) room))"
    "rq_body rq' = JsonBody (JObj [(''commit'', JStr (ao_commit outcome))])"
proof -
  from assms obtain outcome w1 where 1: "on_vault (add_member (ce_crypto env) room (ck_key_package_b64 kp)) w = (Inr outcome, w1)"
    and r1: "bnd (next_txn_id env) (\<lambda>txn.
     bnd (call_api (send_to_device (ce_server env) (cl_api cl) ''p.mls.welcome'' txn
            (JObj [(user, JObj [(ck_device_id kp,
               JObj [(''welcome'', JStr (ao_welcome outcome)), (''room_id'', JStr room)])])]))) (\<lambda>_.
     bnd (next_txn_id env) (\<lambda>txn'.
     bnd (call_api (send_event (ce_server env) (cl_api cl) room ''p.mls.commit'' txn'
            (JObj [(''commit'', JStr (ao_commit outcome))]))) (\<lambda>_. ret ())))) w1 = (Inr (), w')"
    unfolding welcome_device_def by (rule bnd_InrE)
  from r1 obtain txn w2 where 2: "next_txn_id env w1 = (Inr txn, w2)"
    and r2: "bnd (call_api (send_to_device (ce_server env) (cl_api cl) ''p.mls.welcome'' txn
            (JObj [(user, JObj [(ck_device_id kp,
               JObj [(''welcome'', JStr (ao_welcome outcome)), (''room_id'', JStr room)])])]))) (\<lambda>_.
     bnd (next_txn_id env) (\<lambda>txn'.
     bnd (call_api (send_event (ce_server env) (cl_api cl) room ''p.mls.commit'' txn'
            (JObj [(''commit'', JStr (ao_commit outcome))]))) (\<lambda>_. ret ()))) w2 = (Inr (), w')"
    by (rule bnd_InrE)
  from r2 obtain u w3 where 3: "call_api (send_to_device (ce_server env) (cl_api cl) ''p.mls.welcome'' txn
            (JObj [(user, JObj [(ck_device_id kp,
               JObj [(''welcome'', JStr (ao_welcome outcome)), (''room_id'', JStr room)])])])) w2 = (Inr u, w3)"
    and r3: "bnd (next_txn_id env) (\<lambda>txn'.
     bnd (call_api (send_event (ce_server env) (cl_api cl) room ''p.mls.commit'' txn'
            (JObj [(''commit'', JStr (ao_commit outcome))]))) (\<lambda>_. ret ())) w3 = (Inr (), w')"
    by (rule bnd_InrE)
  from r3 obtain txn' w4 where 4: "next_txn_id env w3 = (Inr txn', w4)"
    and r4: "bnd (call_api (send_event (ce_server env) (cl_api cl) room ''p.mls.commit'' txn'
            (JObj [(''commit'', JStr (ao_commit outcome))]))) (\<lambda>_. ret ()) w4 = (Inr (), w')"
    by (rule bnd_InrE)
  from r4 obtain e where 5: "call_api (send_event (ce_server env) (cl_api cl) room ''p.mls.commit'' txn'
            (JObj [(''commit'', JStr (ao_commit outcome))])) w4 = (Inr e, w')"
    by (rule bnd_InrE) (simp add: ret_def)
  obtain v where v: "add_member (ce_crypto env) room (ck_key_package_b64 kp) (wd_vault w) = (Inr outcome, v)"
      "wd_vault w1 = v" "wd_net w1 = wd_net w"
    using 1 by (auto simp: on_vault_def split: prod.splits)
  have vault: "wd_vault w' = v"
    using v(2) txn_vault [OF 2] call_api_vault [OF 3] txn_vault [OF 4] call_api_vault [OF 5] by simp
  obtain rq where rq: "net_log (wd_net w3) = net_log (wd_net w2) @ [rq]"
      "rq_body rq = JsonBody (for_device user (ck_device_id kp) (welcome_content (ao_welcome outcome) room))"
    using to_device_request [OF 3] by (auto simp: for_device_def welcome_content_def)
  obtain rq' where rq': "net_log (wd_net w') = net_log (wd_net w4) @ [rq']"
      "rq_body rq' = JsonBody (JObj [(''commit'', JStr (ao_commit outcome))])"
    using send_event_body [OF 5] by auto
  have "net_log (wd_net w') = net_log (wd_net w) @ [rq, rq']"
    using v(3) txn_net [OF 2] txn_net [OF 4] rq(1) rq'(1) by simp
  then show thesis by (rule that [OF v(1) vault _ rq(2) rq'(2)])
qed



definition sample_package :: claimed_key_package where
  "sample_package = \<lparr> ck_device_id = ''D2'', ck_key_package_b64 = b64_encode sym_b64 (sym_package carol_device 0) \<rparr>"

lemma sample_welcome: "\<exists>w'. welcome_device (sym_env None good_server) (sym_client ''@a'') ''!r'' ''@c'' sample_package
    (sym_world () (Some alice_device) empty_db) = (Inr (), w')"
proof -
  let ?w = "sym_world () (Some alice_device) empty_db :: (unit, _, _, _) world"
  obtain d' wl c where a: "m_add_member sym_mls ''!r'' (sym_package carol_device 0) alice_device = (Inr (wl, c), d')"
    by (simp add: sym_mls_def sym_add_def sym_package_def)
  obtain v' where p: "persist_current sym_crypto ((wd_vault ?w)\<lparr>vt_device := Some d'\<rparr>) = (Inr (), v')"
    using persist_current_succeeds [OF sym_reliable, of "(wd_vault ?w)\<lparr>vt_device := Some d'\<rparr>" d'] by auto
  have "add_member sym_crypto ''!r'' (ck_key_package_b64 sample_package) (wd_vault ?w) =
      (Inr \<lparr> ao_welcome = b64_encode sym_b64 wl, ao_commit = b64_encode sym_b64 c \<rparr>, v')"
    using a p
    by (simp add: add_member_def bnd_def the_device_def load_group_def sym_load ok_or_def decode_wire_def
        sample_package_def sym_b64_back on_device_def set_device_def)
  then show ?thesis
    by (simp add: welcome_device_def bnd_def on_vault_def next_txn_id_def tick_def call_api_def map_errA_def on_net_def
        send_to_device_def send_event_def put_def send_def exchange_def good_server_def reply_server_def is_success_def
        json_string_def ok_or_def jindex_def)
qed


section \<open>A broadcast commit\<close>

text \<open>The law of MLS for the other members: the commit of an addition takes them to the inviter's epoch.\<close>

definition advances :: "('d, 'g) mls \<Rightarrow> string \<Rightarrow> bytes \<Rightarrow> 'd \<Rightarrow> 'd \<Rightarrow> bool" where
  "advances M room kp dA dC \<longleftrightarrow>
     (\<forall>gA wl c dA'. m_load_group M (str_bytes room) dA = Inr (Some gA) \<longrightarrow> m_add_member M gA kp dA = (Inr (wl, c), dA') \<longrightarrow>
        (\<exists>gC dC'. m_load_group M (str_bytes room) dC = Inr (Some gC) \<and> m_process_commit M gC c dC = (Inr (), dC') \<and>
           in_step M room dA' dC'))"

lemma process_commit_run:
  assumes rel: "reliable E user" and d: "vt_device v = Some d"
    and g: "m_load_group (env_mls E) (str_bytes room) d = Inr (Some g)"
    and m: "m_process_commit (env_mls E) g c d = (Inr (), d')"
  obtains v' where "process_commit E room (b64_encode (env_b64 E) c) v = (Inr (), v')" "vt_device v' = Some d'"
proof -
  obtain v' where p: "persist_current E (v\<lparr>vt_device := Some d'\<rparr>) = (Inr (), v')" "vt_device v' = Some d'"
    using persist_current_succeeds [OF rel, of "v\<lparr>vt_device := Some d'\<rparr>" d'] by auto
  have "process_commit E room (b64_encode (env_b64 E) c) v = (Inr (), v')"
    using d g m p(1)
    by (simp add: process_commit_def bnd_def the_device_def on_device_def set_device_def load_group_def ok_or_def
        decode_wire_def reliable_b64 [OF rel])
  then show thesis using that p(2) by blast
qed

lemma inbound_single_commit:
  assumes dev: "vt_device (wd_vault w) \<noteq> None"
    and pend: "pending_mls (ce_codec env) (wd_stores w (cl_store cl)) = Inr [MlsCommit m]"
    and held: "has_group (ce_crypto env) (pc_room_id m) (wd_vault w) = (Inr True, wd_vault w)"
    and proc: "process_commit (ce_crypto env) (pc_room_id m) (pc_commit_b64 m) (wd_vault w) = (Inr (), v')"
    and other: "pc_sender m \<noteq> ss_user_id (cl_session cl)"
  shows "process_inbound_mls env cl w = (Inr True, w\<lparr>wd_vault := v',
    wd_stores := (wd_stores w)(cl_store cl := set_commit_processed (wd_stores w (cl_store cl)) (pc_event_id m))\<rparr>)"
proof -
  have "process_inbound_mls env cl w = inbound_loop env cl [MlsCommit m] False w"
    by (rule process_inbound_run [OF dev pend])
  also have "... = (Inr True, w\<lparr>wd_vault := v',
      wd_stores := (wd_stores w)(cl_store cl := set_commit_processed (wd_stores w (cl_store cl)) (pc_event_id m))\<rparr>)"
    using held proc other
    by (simp add: inbound_commit_def bnd_def on_vault_def catch_def store_update_def store_write_def)
  finally show ?thesis .
qed

text \<open>A batch that delivers a commit another member can process.\<close>

lemma commit_batch:
  assumes dev: "vt_device (wd_vault w) \<noteq> None" and held: "has_group E room (wd_vault w) = (Inr True, wd_vault w)"
    and env: "ce_crypto env = E" and proc: "process_commit E room commit (wd_vault w) = (Inr (), v')"
    and store: "codec_laws (ce_codec env)" "reachable (ce_codec env) (wd_stores w (cl_store cl))"
      "pending_mls (ce_codec env) (wd_stores w (cl_store cl)) = Inr []"
      "pending_sends_tab (wd_stores w (cl_store cl)) = []"
    and batch: "joined_events resp = [v]" "no_to_device resp"
    and fresh: "fresh_event (ce_codec env) (wd_stores w (cl_store cl)) ''p.mls.commit'' v ev"
    and ev: "ev_content ev = JObj [(''commit'', JStr commit)]" "ev_room_id ev = room"
      "ev_sender ev \<noteq> ss_user_id (cl_session cl)"
  shows "\<exists>w'. handle_batch env cl resp w = (Inr BACKOFF_START, w') \<and> wd_vault w' = v' \<and>
      (\<forall>r\<in>set (events (wd_stores w' (cl_store cl))). r_event_id r = ev_event_id ev \<longrightarrow> \<not> awaits_mls r)"
proof -
  let ?cx = "ce_codec env" and ?db = "wd_stores w (cl_store cl)"
  let ?m = "\<lparr> pc_event_id = ev_event_id ev, pc_room_id = ev_room_id ev, pc_sender = ev_sender ev, pc_commit_b64 = commit \<rparr>"
  have row: "read_mls_row ?cx (row_of_event ?cx ev) = Inr (Some (MlsCommit ?m))"
    using fresh ev(1) by (intro commit_row [OF store(1), of v]) (simp_all add: fresh_event_def)
  obtain db1 where db1: "apply_events ?cx ?db [v] = Inr (db1, 1)"
      "pending_sends_tab db1 = pending_sends_tab ?db" "reachable ?cx db1" "pending_mls ?cx db1 = Inr [MlsCommit ?m]"
    by (rule fresh_event_pending [OF store(2,3) fresh _ row]) simp
  let ?db2 = "with_token resp db1"
  note db2 = token_frame [OF db1(3), of resp]
  let ?db3 = "set_commit_processed ?db2 (ev_event_id ev)"
  let ?w3 = "w\<lparr>wd_vault := v', wd_stores := (wd_stores w)(cl_store cl := ?db3)\<rparr>"
  have inbound: "process_inbound_mls env cl (w\<lparr>wd_stores := (wd_stores w)(cl_store cl := ?db2)\<rparr>) = (Inr True, ?w3)"
    using inbound_single_commit [of "w\<lparr>wd_stores := (wd_stores w)(cl_store cl := ?db2)\<rparr>" env cl ?m v']
      dev db1(4) db2(3) held proc ev(2,3) env by simp
  have "pending_sends_tab ?db3 = []" using db1(2) db2(2) store(4) by (simp add: set_commit_processed_def upd_event_def)
  then have "handle_batch env cl resp w = (Inr BACKOFF_START, ?w3\<lparr>wd_observer := wd_observer w @ [OnStatus True, OnChange]\<rparr>)"
    using single_event_batch [of env w cl resp db1 ?w3] db1(1) batch inbound by simp
  moreover have "\<not> awaits_mls r" if "r \<in> set (events ?db3)" "r_event_id r = ev_event_id ev" for r
    using that by (auto simp: set_commit_processed_def upd_event_def upd_rows_def awaits_mls_def DECRYPT_OK_def
        split: if_splits)
  ultimately show ?thesis by (intro exI conjI) (assumption | simp)+
qed

text \<open>
  C7: An invitation keeps the other members in the conversation. The inviter broadcasts a commit; a member
  whose device can follow it, and which has no other MLS event pending (nor one its store cannot read)
  and no queued message, gets a sync batch with exactly this one event, from another user, new and deeper
  than every event of its room, and no to-device event. Then the cycle takes that member to the inviter's
  new epoch, so that the two are in step again, and the commit is not tried again. This is for a key
  store that takes every write and an engine whose failed operations leave the device as it was.
\<close>

theorem broadcast_commit_followed:
  assumes rel: "reliable E user" and envs: "ce_crypto envA = E" "ce_crypto envC = E"
    and sent: "welcome_device envA clA room invited kp wA = (Inr (), wA')"
    and devices: "vt_device (wd_vault wA) = Some dA" "vt_device (wd_vault wC) = Some dC"
    and package: "b64_decode (env_b64 E) (ck_key_package_b64 kp) = Inr kpb" "advances (env_mls E) room kpb dA dC"
    and store: "codec_laws (ce_codec envC)" "reachable (ce_codec envC) (wd_stores wC (cl_store clC))"
      "pending_mls (ce_codec envC) (wd_stores wC (cl_store clC)) = Inr []"
      "pending_sends_tab (wd_stores wC (cl_store clC)) = []"
  shows "\<exists>commit rq rq'. net_log (wd_net wA') = net_log (wd_net wA) @ [rq, rq'] \<and> rq_body rq' = JsonBody commit \<and>
    (\<forall>resp v ev. joined_events resp = [v] \<longrightarrow> no_to_device resp \<longrightarrow>
      fresh_event (ce_codec envC) (wd_stores wC (cl_store clC)) ''p.mls.commit'' v ev \<longrightarrow> ev_content ev = commit \<longrightarrow>
      ev_room_id ev = room \<longrightarrow> ev_sender ev \<noteq> ss_user_id (cl_session clC) \<longrightarrow>
      (\<exists>w dA' dC'. handle_batch envC clC resp wC = (Inr BACKOFF_START, w) \<and>
         vt_device (wd_vault wA') = Some dA' \<and> vt_device (wd_vault w) = Some dC' \<and> in_step (env_mls E) room dA' dC' \<and>
         (\<forall>r\<in>set (events (wd_stores w (cl_store clC))). r_event_id r = ev_event_id ev \<longrightarrow> \<not> awaits_mls r)))"
proof -
  obtain outcome v rq rq' where s: "add_member E room (ck_key_package_b64 kp) (wd_vault wA) = (Inr outcome, v)"
      "wd_vault wA' = v" "net_log (wd_net wA') = net_log (wd_net wA) @ [rq, rq']"
      "rq_body rq' = JsonBody (JObj [(''commit'', JStr (ao_commit outcome))])"
    using welcome_device_sends [OF sent] envs(1) by metis
  obtain d g kpb' wl c dA' where a: "vt_device (wd_vault wA) = Some d" "m_load_group (env_mls E) (str_bytes room) d = Inr (Some g)"
      "b64_decode (env_b64 E) (ck_key_package_b64 kp) = Inr kpb'" "m_add_member (env_mls E) g kpb' d = (Inr (wl, c), dA')"
      "vt_device v = Some dA'" "ao_commit outcome = b64_encode (env_b64 E) c"
    by (rule add_member_run [OF s(1)])
  obtain gC dC' where C: "m_load_group (env_mls E) (str_bytes room) dC = Inr (Some gC)"
      "m_process_commit (env_mls E) gC c dC = (Inr (), dC')" "in_step (env_mls E) room dA' dC'"
    using package a devices(1) unfolding advances_def by (metis Inr_inject option.inject)
  obtain vC where vC: "process_commit E room (ao_commit outcome) (wd_vault wC) = (Inr (), vC)" "vt_device vC = Some dC'"
    using process_commit_run [OF rel devices(2) C(1,2)] a(6) by metis
  have held: "has_group E room (wd_vault wC) = (Inr True, wd_vault wC)"
    using devices(2) C(1) by (simp add: has_group_def the_device_def bnd_def)
  have dev: "vt_device (wd_vault wC) \<noteq> None" using devices(2) by simp
  have "\<exists>w. handle_batch envC clC resp wC = (Inr BACKOFF_START, w) \<and> wd_vault w = vC \<and>
      (\<forall>r\<in>set (events (wd_stores w (cl_store clC))). r_event_id r = ev_event_id ev \<longrightarrow> \<not> awaits_mls r)"
    if "joined_events resp = [v']" "no_to_device resp"
      "fresh_event (ce_codec envC) (wd_stores wC (cl_store clC)) ''p.mls.commit'' v' ev"
      "ev_content ev = JObj [(''commit'', JStr (ao_commit outcome))]" "ev_room_id ev = room"
      "ev_sender ev \<noteq> ss_user_id (cl_session clC)" for resp v' ev
    by (rule commit_batch [OF dev held envs(2) vC(1) store that])
  then show ?thesis
    using s a(5) vC(2) C(3)
    by (intro exI [of _ "JObj [(''commit'', JStr (ao_commit outcome))]"] exI [of _ rq] exI [of _ rq'])
      (metis (no_types, lifting))
qed

lemma sym_advances:
  assumes "epoch_of dA room = Some n" "epoch_of dC room = Some n" "sd_id dA \<noteq> sd_id dC"
    "\<forall>num. (tally (sd_id dA), num) \<notin> set (sd_seen dC)"
  shows "advances sym_mls room kp dA dC"
  unfolding advances_def sym_load
proof (intro allI impI)
  fix gA wl c dA'
  assume g: "Inr (if epoch_of dA room = None then None else Some room) = Inr (Some gA)"
    and "m_add_member sym_mls gA kp dA = (Inr (wl, c), dA')"
  then have c: "c = wire [''commit'', room, tally (Suc n)]" "dA' = set_epoch room (Suc n) dA"
    using assms(1) by (auto simp: sym_mls_def sym_add_def split: list.splits option.splits if_splits)
  have "m_process_commit sym_mls room c dC = (Inr (), set_epoch room (Suc n) dC)"
    using assms(2) by (simp add: sym_mls_def sym_commit_def c(1))
  moreover have "in_step sym_mls room dA' (set_epoch room (Suc n) dC)"
    using assms(3,4) by (intro sym_in_step [of _ _ "Suc n"]) (simp_all add: c(2), simp_all add: set_epoch_def)
  ultimately show "\<exists>gC dC'. Inr (if epoch_of dC room = None then None else Some room) = Inr (Some gC) \<and>
      m_process_commit sym_mls gC c dC = (Inr (), dC') \<and> in_step sym_mls room dA' dC'"
    using assms(2) by auto
qed

theorem broadcast_commit_followed_witness:
  "\<exists>commit w. handle_batch (sym_env None good_server) (sym_client ''@b'') (batch_of (delivered ''p.mls.commit'' commit))
       (sym_world () (Some bob_device) empty_db) = (Inr BACKOFF_START, w) \<and> vt_device (wd_vault w) \<noteq> None"
proof -
  obtain wA' where sent: "welcome_device (sym_env None good_server) (sym_client ''@a'') ''!r'' ''@c'' sample_package
      (sym_world () (Some alice_device) empty_db) = (Inr (), wA')"
    using sample_welcome by blast
  have package: "b64_decode (env_b64 sym_crypto) (ck_key_package_b64 sample_package) = Inr (sym_package carol_device 0)"
    by (simp add: sample_package_def sym_b64_back)
  have advances: "advances (env_mls sym_crypto) ''!r'' (sym_package carol_device 0) alice_device bob_device"
    by (simp, rule sym_advances [of _ _ 0]) simp_all
  let ?env = "sym_env None good_server :: (unit, _, _, _, _) client_env"
  let ?wB = "sym_world () (Some bob_device) empty_db" and ?cl = "sym_client ''@b''"
  have parts: "ce_crypto ?env = sym_crypto" "vt_device (wd_vault (sym_world () (Some alice_device) (empty_db :: json db))) = Some alice_device"
    "vt_device (wd_vault ?wB) = Some bob_device" "codec_laws (ce_codec ?env)"
    "reachable (ce_codec ?env) (wd_stores ?wB (cl_store ?cl))"
    "pending_mls (ce_codec ?env) (wd_stores ?wB (cl_store ?cl)) = Inr []" "pending_sends_tab (wd_stores ?wB (cl_store ?cl)) = []"
    by (simp_all add: id_codec_laws reach_empty empty_store)
  obtain commit rq rq' where c: "net_log (wd_net wA') = net_log (wd_net (sym_world () (Some alice_device) (empty_db :: json db))) @ [rq, rq']"
      "rq_body rq' = JsonBody commit"
      "\<forall>resp v ev. joined_events resp = [v] \<longrightarrow> no_to_device resp \<longrightarrow>
        fresh_event (ce_codec ?env) (wd_stores ?wB (cl_store ?cl)) ''p.mls.commit'' v ev \<longrightarrow> ev_content ev = commit \<longrightarrow>
        ev_room_id ev = ''!r'' \<longrightarrow> ev_sender ev \<noteq> ss_user_id (cl_session ?cl) \<longrightarrow>
        (\<exists>w dA' dC'. handle_batch ?env ?cl resp ?wB = (Inr BACKOFF_START, w) \<and>
           vt_device (wd_vault wA') = Some dA' \<and> vt_device (wd_vault w) = Some dC' \<and> in_step (env_mls sym_crypto) ''!r'' dA' dC' \<and>
           (\<forall>r\<in>set (events (wd_stores w (cl_store ?cl))). r_event_id r = ev_event_id ev \<longrightarrow> \<not> awaits_mls r))"
    using broadcast_commit_followed [OF sym_reliable [of "''@a''"] parts(1) parts(1) sent parts(2,3) package advances
        parts(4-7)] by (elim exE conjE) (rule that)
  obtain outcome v rq1 rq2 where "add_member (ce_crypto ?env) ''!r'' (ck_key_package_b64 sample_package)
        (wd_vault (sym_world () (Some alice_device) (empty_db :: json db))) = (Inr outcome, v)" "wd_vault wA' = v"
      and o: "net_log (wd_net wA') = net_log (wd_net (sym_world () (Some alice_device) (empty_db :: json db))) @ [rq1, rq2]"
        "rq_body rq1 = JsonBody (for_device ''@c'' (ck_device_id sample_package) (welcome_content (ao_welcome outcome) ''!r''))"
        "rq_body rq2 = JsonBody (JObj [(''commit'', JStr (ao_commit outcome))])"
    by (rule welcome_device_sends [OF sent])
  have "commit = JObj [(''commit'', JStr (ao_commit outcome))]" using c(1,2) o(1,3) by simp
  then have "storable (delivered ''p.mls.commit'' commit)"
    by (simp add: storable_def delivered_def json_i64_def)
  then have fresh: "fresh_event (ce_codec ?env) (wd_stores ?wB (cl_store ?cl)) ''p.mls.commit'' (delivered ''p.mls.commit'' commit)
      (delivered_event ''p.mls.commit'' commit)"
    using delivered_fresh by simp
  have "ev_content (delivered_event ''p.mls.commit'' commit) = commit" "ev_room_id (delivered_event ''p.mls.commit'' commit) = ''!r''"
    "ev_sender (delivered_event ''p.mls.commit'' commit) \<noteq> ss_user_id (cl_session ?cl)"
    by (simp_all add: delivered_event_def sym_client_def)
  with c(3) [rule_format, OF batch_of fresh] show ?thesis by blast
qed

section \<open>An image\<close>

text \<open>
  What an image relies on: JSON reads back what it printed, and prints UTF-8; media decrypts with the key it
  was encrypted with, whose base64 is ASCII.
\<close>

definition media_laws :: "('d, 'g, 'k) crypto_env \<Rightarrow> bool" where
  "media_laws E \<longleftrightarrow>
     (\<forall>v. storable v \<longrightarrow> jparse (env_json E) (str_bytes (jprint (env_json E) v)) = Inr v) \<and>
     (\<forall>v. utf8_json v \<longrightarrow> valid_utf8 (str_bytes (jprint (env_json E) v))) \<and>
     (\<forall>seed p k c. m_encrypt_media (env_mls E) seed p = Inr (k, c) \<longrightarrow>
        valid_utf8 (str_bytes (b64_encode (env_b64 E) k)) \<and> m_decrypt_media (env_mls E) k c = Inr p)"

lemma encrypt_media_run:
  assumes "encrypt_media E bs v = (Inr (key, ct), v')"
  obtains seed k where "m_encrypt_media (env_mls E) seed bs = Inr (k, ct)" "key = b64_encode (env_b64 E) k"
    "vt_device v' = vt_device v"
  using assms by (auto simp: encrypt_media_def bnd_def draw_def map_err_def split: sum.splits)

lemma media_back:
  assumes "reliable E user" "media_laws E" "encrypt_media E bs v = (Inr (key, ct), v')"
  shows "decrypt_media E key ct = Inr bs"
proof -
  obtain seed k where k: "m_encrypt_media (env_mls E) seed bs = Inr (k, ct)" "key = b64_encode (env_b64 E) k"
    by (rule encrypt_media_run [OF assms(3)])
  then have "m_decrypt_media (env_mls E) k ct = Inr bs" using assms(2) unfolding media_laws_def by blast
  then show ?thesis by (simp add: decrypt_media_def decode_wire_def reliable_b64 [OF assms(1)] k(2))
qed

lemma upload_reply:
  assumes "client_upload_media env cl bs ct w = (Inr uri, w')"
  shows "net_log (wd_net w') = net_log (wd_net w) @ [upload_request (cl_api cl) ct bs]" "wd_vault w' = wd_vault w"
proof -
  have "length bs \<le> MAX_UPLOAD_BYTES"
    using assms by (auto simp: client_upload_media_def not_le split: if_splits)
  then show "net_log (wd_net w') = net_log (wd_net w) @ [upload_request (cl_api cl) ct bs]"
    using assms by (rule upload_log)
  show "wd_vault w' = wd_vault w"
    using assms by (auto simp: client_upload_media_def call_api_vault split: if_splits)
qed

text \<open>Sending an image into an encrypted room: upload the ciphertext, encrypt the event.\<close>

lemma send_image_sends:
  assumes held: "holds_group env room w = (Inr True, w)"
    and run: "send_image env cl room bs mime width height caption w = (Inr (), w')"
  obtains key ct v1 uri c v2 v3 rq where "encrypt_media (ce_crypto env) bs (wd_vault w) = (Inr (key, ct), v1)"
    "encrypt (ce_crypto env) room (jprint (env_json (ce_crypto env))
       (encrypted_image_content caption uri key mime width height (word_of_nat (length bs)))) v2 = (Inr c, v3)"
    "vt_device v2 = vt_device (wd_vault w)"
    "net_log (wd_net w') = net_log (wd_net w) @ [upload_request (cl_api cl) ''application/octet-stream'' ct, rq]"
    "rq_body rq = JsonBody (encrypted_event c)"
    "\<exists>w1 w2. client_upload_media env cl ct ''application/octet-stream'' w1 = (Inr uri, w2)"
proof -
  let ?E = "ce_crypto env" and ?sz = "word_of_nat (length bs)"
  let ?content = "\<lambda>uri key. encrypted_image_content caption uri key mime width height ?sz"
  let ?send = "\<lambda>c. bnd (next_txn_id env) (\<lambda>txn.
           bnd (call_api (send_event (ce_server env) (cl_api cl) room ''p.room.encrypted'' txn (encrypted_event c))) (\<lambda>_.
           ret ()))"
  let ?enc = "\<lambda>key uri. bnd (on_vault (encrypt ?E room (jprint (env_json ?E) (?content uri key)))) ?send"
  have "bnd (on_vault (encrypt_media ?E bs)) (\<lambda>(key, ct).
      bnd (client_upload_media env cl ct ''application/octet-stream'') (?enc key)) w = (Inr (), w')"
    using run unfolding send_image_def bnd_eval(2) [of "holds_group env room" w, OF held] Let_def by simp
  then obtain kc w1 where 1: "on_vault (encrypt_media ?E bs) w = (Inr kc, w1)"
    and r1: "(case kc of (key, ct) \<Rightarrow> bnd (client_upload_media env cl ct ''application/octet-stream'') (?enc key)) w1 = (Inr (), w')"
    by (rule bnd_InrE)
  obtain key ct where kc: "kc = (key, ct)" by (cases kc)
  from r1 kc have "bnd (client_upload_media env cl ct ''application/octet-stream'') (?enc key) w1 = (Inr (), w')" by simp
  then obtain uri w2 where 2: "client_upload_media env cl ct ''application/octet-stream'' w1 = (Inr uri, w2)"
    and r2: "?enc key uri w2 = (Inr (), w')"
    by (rule bnd_InrE)
  from r2 obtain c w3 where 3: "on_vault (encrypt ?E room (jprint (env_json ?E) (?content uri key))) w2 = (Inr c, w3)"
    and r3: "?send c w3 = (Inr (), w')"
    by (rule bnd_InrE)
  from r3 obtain txn w4 where 4: "next_txn_id env w3 = (Inr txn, w4)"
    and r4: "bnd (call_api (send_event (ce_server env) (cl_api cl) room ''p.room.encrypted'' txn (encrypted_event c))) (\<lambda>_.
           ret ()) w4 = (Inr (), w')"
    by (rule bnd_InrE)
  from r4 obtain e where 5: "call_api (send_event (ce_server env) (cl_api cl) room ''p.room.encrypted'' txn
      (encrypted_event c)) w4 = (Inr e, w')"
    by (rule bnd_InrE) (simp add: ret_def)
  obtain v1 where v1: "encrypt_media ?E bs (wd_vault w) = (Inr (key, ct), v1)" "wd_vault w1 = v1" "wd_net w1 = wd_net w"
    using 1 kc by (auto simp: on_vault_def split: prod.splits)
  obtain v3 where v3: "encrypt ?E room (jprint (env_json ?E) (?content uri key)) (wd_vault w2) = (Inr c, v3)"
      "wd_net w3 = wd_net w2"
    using 3 by (auto simp: on_vault_def split: prod.splits)
  have dev: "vt_device (wd_vault w2) = vt_device (wd_vault w)"
    using upload_reply(2) [OF 2] v1(2) by (metis encrypt_media_run [OF v1(1)])
  obtain rq where rq: "net_log (wd_net w') = net_log (wd_net w4) @ [rq]" "rq_body rq = JsonBody (encrypted_event c)"
    using send_event_body [OF 5] by blast
  have "net_log (wd_net w') = net_log (wd_net w) @ [upload_request (cl_api cl) ''application/octet-stream'' ct, rq]"
    using rq(1) txn_net [OF 4] v3(2) upload_reply(1) [OF 2] v1(3) by simp
  then show thesis using that [OF v1(1) v3(1) dev _ rq(2)] 2 by blast
qed

text \<open>How a device shows the decrypted content of an image, and what it downloads.\<close>

lemma image_line:
  assumes "parse pt = Inr (encrypted_image_content caption uri key mime width height sz)"
    and "ev_event_type ev = ''p.room.encrypted''"
  shows "te_body (timeline_from parse (ev\<lparr>ev_decrypted := Some pt\<rparr>)) = Some caption \<and>
      te_image (timeline_from parse (ev\<lparr>ev_decrypted := Some pt\<rparr>)) =
        Some \<lparr> im_uri = uri, im_mimetype = mime, im_width = width, im_height = height, im_size = sz, im_key = Some key \<rparr>"
proof -
  let ?content = "encrypted_image_content caption uri key mime width height sz"
  have c: "get_str ?content ''msgtype'' = Some ''p.image''" "get_str ?content ''body'' = Some caption"
    by (simp_all add: encrypted_image_content_def get_str_def)
  have "decrypted_image parse (ev\<lparr>ev_decrypted := Some pt\<rparr>) = Some ?content"
    using assms c(1) by (simp add: decrypted_image_def)
  then show ?thesis
    using assms(2) c(2) image_content_roundtrip [of caption uri mime width height sz key]
    by (simp add: timeline_from_def event_body_def event_image_def)
qed

lemma image_download:
  assumes "decrypt_media (ce_crypto env) key ct = Inr bs"
    and "im_uri img = uri" "im_key img = Some key" "vt_device (wd_vault w) \<noteq> None"
    and down: "client_download_media env cl uri w = (Inr ct, w')"
  shows "download_image env cl img w = (Inr bs, w')"
proof -
  have "wd_vault w' = wd_vault w"
    using down by (auto simp: client_download_media_def bnd_def call_api_vault split: sum.splits)
  then show ?thesis
    using assms by (auto simp: download_image_def bnd_def on_vault_def the_device_def)
qed

text \<open>
  C6: An image reaches the other device: what a client that holds the room's MLS group sends into the room
  is an upload of ciphertext and an encrypted event; a client in step with the sender decrypts the event to
  an entry that shows the caption and the image with its type and dimensions, and downloading that image
  gives the bytes that were sent, when the media server returns what was uploaded. This is for a key store
  that takes every write and media encryption that decrypts what it encrypted; without the group the image
  goes out in the clear (C38).
\<close>

theorem encrypted_image_delivered:
  assumes rel: "reliable E user" and media: "media_laws E" and envs: "ce_crypto envA = E" "ce_crypto envB = E"
    and held: "holds_group envA room wA = (Inr True, wA)"
    and sent: "send_image envA clA room bs mime width height caption wA = (Inr (), wA')"
    and devices: "vt_device (wd_vault wA) = Some dA" "vt_device (wd_vault wB) = Some dB" "in_step (env_mls E) room dA dB"
    and utf8: "valid_utf8 (str_bytes caption)" "valid_utf8 (str_bytes mime)"
      "\<forall>w w' ct uri. client_upload_media envA clA ct ''application/octet-stream'' w = (Inr uri, w') \<longrightarrow> valid_utf8 (str_bytes uri)"
  shows "\<exists>ct rq c uri key. net_log (wd_net wA') =
      net_log (wd_net wA) @ [upload_request (cl_api clA) ''application/octet-stream'' ct, rq] \<and>
    rq_body rq = JsonBody (encrypted_event c) \<and>
    (\<exists>pt v. decrypt E room c (wd_vault wB) = (Inr pt, v) \<and>
      (\<forall>ev. ev_event_type ev = ''p.room.encrypted'' \<longrightarrow>
        te_body (timeline_from (parse_text envB) (ev\<lparr>ev_decrypted := Some pt\<rparr>)) = Some caption \<and>
        te_image (timeline_from (parse_text envB) (ev\<lparr>ev_decrypted := Some pt\<rparr>)) =
          Some \<lparr> im_uri = uri, im_mimetype = mime, im_width = width, im_height = height,
            im_size = word_of_nat (length bs), im_key = Some key \<rparr>)) \<and>
    (\<forall>w w' img. im_uri img = uri \<longrightarrow> im_key img = Some key \<longrightarrow> vt_device (wd_vault w) \<noteq> None \<longrightarrow>
       client_download_media envB clB uri w = (Inr ct, w') \<longrightarrow> download_image envB clB img w = (Inr bs, w'))"
proof -
  obtain key ct v1 uri c v2 v3 rq where s: "encrypt_media E bs (wd_vault wA) = (Inr (key, ct), v1)"
    "encrypt E room (jprint (env_json E) (encrypted_image_content caption uri key mime width height (word_of_nat (length bs)))) v2
       = (Inr c, v3)"
    "vt_device v2 = vt_device (wd_vault wA)"
    "net_log (wd_net wA') = net_log (wd_net wA) @ [upload_request (cl_api clA) ''application/octet-stream'' ct, rq]"
    "rq_body rq = JsonBody (encrypted_event c)"
    "\<exists>w1 w2. client_upload_media envA clA ct ''application/octet-stream'' w1 = (Inr uri, w2)"
    using send_image_sends [OF held sent] envs(1) by metis
  let ?content = "encrypted_image_content caption uri key mime width height (word_of_nat (length bs))"
  let ?pt = "jprint (env_json E) ?content"
  obtain seed k where k: "m_encrypt_media (env_mls E) seed bs = Inr (k, ct)" "key = b64_encode (env_b64 E) k"
    by (rule encrypt_media_run [OF s(1)])
  then have "valid_utf8 (str_bytes key)" using media unfolding media_laws_def by blast
  moreover have "valid_utf8 (str_bytes uri)" using s(6) utf8(3) by blast
  ultimately have "utf8_json ?content"
    using utf8(1,2) by (simp add: encrypted_image_content_def json_u64_def ascii_utf8 ascii_def)
  then have utf: "valid_utf8 (str_bytes ?pt)" using media by (simp add: media_laws_def)
  obtain v where dec: "decrypt E room c (wd_vault wB) = (Inr ?pt, v)"
    by (rule engines_talk [OF rel s(2) _ devices(2,3) utf]) (use s(3) devices(1) in simp_all)
  have "storable ?content"
    by (simp add: storable_def encrypted_image_content_def json_u64_def)
  then have parse: "parse_text envB ?pt = Inr ?content"
    using media envs(2) by (simp add: parse_text_def media_laws_def)
  have key: "decrypt_media (ce_crypto envB) key ct = Inr bs"
    using media_back [OF rel media s(1)] envs(2) by simp
  have shown: "te_body (timeline_from (parse_text envB) (ev\<lparr>ev_decrypted := Some ?pt\<rparr>)) = Some caption \<and>
      te_image (timeline_from (parse_text envB) (ev\<lparr>ev_decrypted := Some ?pt\<rparr>)) =
        Some \<lparr> im_uri = uri, im_mimetype = mime, im_width = width, im_height = height,
          im_size = word_of_nat (length bs), im_key = Some key \<rparr>" if "ev_event_type ev = ''p.room.encrypted''" for ev
    by (rule image_line [of "parse_text envB", OF parse that])
  have down: "download_image envB clB img w = (Inr bs, w')"
    if "im_uri img = uri" "im_key img = Some key" "vt_device (wd_vault w) \<noteq> None"
      "client_download_media envB clB uri w = (Inr ct, w')" for w w' img
    by (rule image_download [OF key that])
  show ?thesis
    using s(4,5) dec shown down by (intro exI [of _ ct] exI [of _ rq] exI [of _ c] exI [of _ uri] exI [of _ key]) blast
qed

lemma sym_media_laws: "media_laws sym_crypto"
  unfolding media_laws_def
proof (intro conjI allI impI)
  fix v seed p k c
  show "jparse (env_json sym_crypto) (str_bytes (jprint (env_json sym_crypto) v)) = Inr v"
    by (simp add: code_json_roundtrip)
  show "utf8_json v \<Longrightarrow> valid_utf8 (str_bytes (jprint (env_json sym_crypto) v))"
    by (simp add: code_json_def utf8_put_json)
  show "m_encrypt_media (env_mls sym_crypto) seed p = Inr (k, c) \<Longrightarrow> m_decrypt_media (env_mls sym_crypto) k c = Inr p"
    by (auto simp: sym_mls_def)
  assume "m_encrypt_media (env_mls sym_crypto) seed p = Inr (k, c)"
  then have k: "k = wire [''media-key'', tally seed]" by (simp add: sym_mls_def)
  have "b64_encode sym_b64 k = ''='' @ put_json (JArr [JStr ''media-key'', JStr (tally seed)])"
    by (simp add: k sym_b64_def wire_def del: put_json.simps)
  moreover have "utf8_json (JArr [JStr ''media-key'', JStr (tally seed)])"
    by (auto intro!: ascii_utf8 simp: ascii_def tally_def)
  then have "valid_utf8 (str_bytes (''='' @ put_json (JArr [JStr ''media-key'', JStr (tally seed)])))"
    unfolding str_bytes_append by (intro valid_utf8_append ascii_utf8 utf8_put_json) (simp_all only:, simp add: ascii_def)
  ultimately show "valid_utf8 (str_bytes (b64_encode (env_b64 sym_crypto) k))" by simp
qed

lemma sample_image: "\<exists>w'. send_image (sym_env None good_server) (sym_client ''@a'') ''!r'' [1, 2] ''image/png'' 1 1 ''pic''
    (sym_world () (Some alice_device) empty_db) = (Inr (), w')"
proof -
  let ?w = "sym_world () (Some alice_device) empty_db :: (unit, _, _, _) world"
  let ?c = "\<lambda>key. encrypted_image_content ''pic'' ''pigeon://s/ct1'' key ''image/png'' 1 1 2"
  let ?ct = "wire [''media'', tally 0, bytes_str [1, 2]]" and ?key = "b64_encode sym_b64 (wire [''media-key'', tally 0])"
  obtain d' ct where e: "m_encrypt sym_mls ''!r'' (str_bytes (put_json (?c ?key))) alice_device = (Inr ct, d')"
    by (simp add: sym_mls_def sym_encrypt_def del: put_json.simps)
  obtain v' where p: "persist_current sym_crypto ((wd_vault ?w)\<lparr>vt_seed := 1, vt_device := Some d'\<rparr>) = (Inr (), v')"
    using persist_current_succeeds [OF sym_reliable, of "(wd_vault ?w)\<lparr>vt_seed := 1, vt_device := Some d'\<rparr>" d'] by auto
  have media: "encrypt_media sym_crypto [1, 2] (wd_vault ?w) = (Inr (?key, ?ct), (wd_vault ?w)\<lparr>vt_seed := 1\<rparr>)"
    by (simp add: encrypt_media_def bnd_def draw_def sym_mls_def sym_world_def)
  have enc: "encrypt sym_crypto ''!r'' (jprint code_json (?c ?key)) ((wd_vault ?w)\<lparr>vt_seed := 1\<rparr>) =
      (Inr (b64_encode sym_b64 ct), v')"
    using e p
    by (simp add: encrypt_def bnd_def the_device_def load_group_def sym_load ok_or_def on_device_def set_device_def
        code_json_def del: put_json.simps)
  have "length ?ct \<le> MAX_UPLOAD_BYTES"
    by (simp add: wire_def str_bytes_def put_text_def tally_def MAX_UPLOAD_BYTES_def bytes_str_def)
  then have up: "client_upload_media (sym_env None good_server) (sym_client ''@a'') ?ct ''application/octet-stream'' w =
      (Inr ''pigeon://s/ct1'', w\<lparr>wd_net := (wd_net w)\<lparr>net_log := net_log (wd_net w) @
         [upload_request (cl_api (sym_client ''@a'')) ''application/octet-stream'' ?ct]\<rparr>\<rparr>)" for w :: "(unit, _, _, _) world"
    by (simp add: client_upload_media_def call_api_def map_errA_def on_net_def upload_media_def send_def exchange_def
        bnd_def good_server_def reply_server_def is_success_def json_string_def ok_or_def jindex_def upload_request_def)
  have rest: "\<exists>w'. bnd (next_txn_id (sym_env None good_server)) (\<lambda>txn.
      bnd (call_api (send_event (ce_server (sym_env None good_server)) a room ty txn content)) (\<lambda>_. ret ())) w = (Inr (), w')"
    for a room ty content and w :: "(unit, sym_device, (string \<times> bytes) list, json) world"
    by (simp add: next_txn_id_def tick_def call_api_def map_errA_def on_net_def send_event_def put_def send_def
        exchange_def bnd_def good_server_def reply_server_def is_success_def json_string_def ok_or_def jindex_def)
  let ?w1 = "?w\<lparr>wd_vault := (wd_vault ?w)\<lparr>vt_seed := 1\<rparr>\<rparr>"
  let ?w2 = "?w1\<lparr>wd_net := (wd_net ?w1)\<lparr>net_log := net_log (wd_net ?w1) @
         [upload_request (cl_api (sym_client ''@a'')) ''application/octet-stream'' ?ct]\<rparr>\<rparr>"
  have held: "holds_group (sym_env None good_server) ''!r'' ?w = (Inr True, ?w)"
    by (simp add: holds_group_def has_engine_def bnd_def on_vault_def has_group_def the_device_def sym_load)
  have m: "on_vault (encrypt_media (ce_crypto (sym_env None good_server)) [1, 2]) ?w = (Inr (?key, ?ct), ?w1)"
    using media by (simp add: on_vault_def)
  have e2: "on_vault (encrypt (ce_crypto (sym_env None good_server)) ''!r'' (jprint (env_json (ce_crypto (sym_env None good_server))) (?c ?key))) ?w2 =
      (Inr (b64_encode sym_b64 ct), ?w2\<lparr>wd_vault := v'\<rparr>)"
    using enc by (simp add: on_vault_def)
  have sz: "word_of_nat (length [1, 2 :: 8 word]) = (2 :: 64 word)" by simp
  show ?thesis
    unfolding send_image_def bnd_eval(2) [of "holds_group _ _" ?w, OF held] Let_def if_True
      bnd_eval(2) [of "on_vault _" ?w, OF m] prod.case bnd_eval(2) [of "client_upload_media _ _ _ _" ?w1, OF up]
      sz bnd_eval(2) [of "on_vault _" ?w2, OF e2]
    by (rule rest)
qed

theorem encrypted_image_delivered_witness:
  "\<exists>ct key uri c pt v. decrypt sym_crypto ''!r'' c (wd_vault (sym_world () (Some bob_device) empty_db)) = (Inr pt, v) \<and>
     (\<forall>w w' img. im_uri img = uri \<longrightarrow> im_key img = Some key \<longrightarrow> vt_device (wd_vault w) \<noteq> None \<longrightarrow>
       client_download_media (sym_env None good_server) (sym_client ''@b'') uri w = (Inr ct, w') \<longrightarrow>
       download_image (sym_env None good_server) (sym_client ''@b'') img w = (Inr [1, 2], w'))"
proof -
  let ?env = "sym_env None good_server :: (unit, _, _, _, _) client_env"
  let ?wA = "sym_world () (Some alice_device) empty_db" and ?wB = "sym_world () (Some bob_device) empty_db"
  obtain wA' where sent: "send_image ?env (sym_client ''@a'') ''!r'' [1, 2] ''image/png'' 1 1 ''pic'' ?wA = (Inr (), wA')"
    using sample_image by blast
  have step: "in_step (env_mls sym_crypto) ''!r'' alice_device bob_device" by simp (rule sym_in_step; simp)
  have parts: "ce_crypto ?env = sym_crypto" "vt_device (wd_vault ?wA) = Some alice_device"
    "vt_device (wd_vault ?wB) = Some bob_device"
    by simp_all
  have held: "holds_group ?env ''!r'' ?wA = (Inr True, ?wA)"
    by (simp add: holds_group_def has_engine_def bnd_def on_vault_def has_group_def the_device_def sym_load)
  have utf8: "valid_utf8 (str_bytes ''pic'')" "valid_utf8 (str_bytes ''image/png'')"
    by (rule ascii_utf8; simp add: ascii_def)+
  have uri: "\<forall>w w' ct uri. client_upload_media ?env (sym_client ''@a'') ct ''application/octet-stream'' w = (Inr uri, w')
      \<longrightarrow> valid_utf8 (str_bytes uri)"
  proof (intro allI impI)
    fix w w' ct uri assume "client_upload_media ?env (sym_client ''@a'') ct ''application/octet-stream'' w = (Inr uri, w')"
    then have "uri = ''pigeon://s/ct1''"
      by (auto simp: client_upload_media_def call_api_def map_errA_def on_net_def upload_media_def send_def exchange_def
          bnd_def good_server_def reply_server_def is_success_def json_string_def ok_or_def jindex_def split: if_splits)
    then show "valid_utf8 (str_bytes uri)" by (intro ascii_utf8) (simp add: ascii_def)
  qed
  show ?thesis
    using encrypted_image_delivered [OF sym_reliable [of "''@a''"] sym_media_laws parts(1) parts(1) held sent parts(2,3)
        step utf8 uri, of "sym_client ''@b''"]
    by (elim exE conjE) (intro exI conjI; assumption)
qed

section \<open>A backup\<close>

text \<open>The two ends of a backup: the blob that is put, and the device a blob restores.\<close>

lemma backup_puts:
  assumes made: "backup env cl w = (Inr recovery_key, w')" and dev: "vt_device (wd_vault w) = Some d"
  obtains seed k b rq where "m_create_backup (env_mls (ce_crypto env)) seed d = Inr (k, b)"
    "recovery_key = b64_encode (env_b64 (ce_crypto env)) k" "net_log (wd_net w') = net_log (wd_net w) @ [rq]"
    "rq_url rq = join_url (api_base (cl_api cl)) ''/_pigeon/client/v1/room_keys/key/!e2ee-backup/mls-device-state''"
    "rq_body rq = JsonBody (JObj [(''blob'', JStr (b64_encode (env_b64 (ce_crypto env)) b))])"
proof -
  let ?E = "ce_crypto env"
  obtain p w1 where p: "on_vault (bnd the_device (\<lambda>_. create_backup ?E)) w = (Inr p, w1)"
    and r: "(case p of (recovery_key, blob) \<Rightarrow>
       bnd (call_api (put_room_key (ce_server env) (cl_api cl) BACKUP_ROOM BACKUP_SESSION blob)) (\<lambda>_. ret recovery_key)) w1
         = (Inr recovery_key, w')"
    using made unfolding backup_def by (auto elim: bnd_InrE)
  obtain seed k b where kb: "m_create_backup (env_mls ?E) seed d = Inr (k, b)"
      "p = (b64_encode (env_b64 ?E) k, b64_encode (env_b64 ?E) b)" "wd_net w1 = wd_net w"
    using p dev by (auto simp: on_vault_def create_backup_def bnd_def the_device_def draw_def map_err_def
        split: sum.splits prod.splits)
  have key: "recovery_key = b64_encode (env_b64 ?E) k"
    using r kb(2) by (auto simp: bnd_def split: prod.splits sum.splits)
  have "\<exists>rq. net_log (wd_net w') = net_log (wd_net w1) @ [rq] \<and>
      rq_url rq = join_url (api_base (cl_api cl)) ''/_pigeon/client/v1/room_keys/key/!e2ee-backup/mls-device-state'' \<and>
      rq_body rq = JsonBody (JObj [(''blob'', JStr (b64_encode (env_b64 ?E) b))])"
    using r kb(2)
    by (auto simp: call_api_def map_errA_def on_net_def put_room_key_def put_def send_def exchange_def bnd_def Let_def
        req_def BACKUP_ROOM_def BACKUP_SESSION_def split: prod.splits sum.splits if_splits)
  then show thesis using that [OF kb(1) key] kb(3) by auto
qed

lemma backup_restored:
  assumes rel: "reliable (ce_crypto env) user" and engine: "vt_device (wd_vault w) \<noteq> None"
    and law: "m_restore_backup (env_mls (ce_crypto env)) k b = Inr d"
    and got: "call_api (get_room_key (ce_server env) (cl_api cl) BACKUP_ROOM BACKUP_SESSION) w =
      (Inr (Some (b64_encode (env_b64 (ce_crypto env)) b)), w1)"
  shows "\<exists>w2 w3. restore_backup env cl (b64_encode (env_b64 (ce_crypto env)) k) w = (Inr (), w3) \<and>
    vt_device (wd_vault w2) = Some d \<and> wd_stores w2 = wd_stores w \<and> publish_device_keys env cl w2 = (Inr (), w3)"
proof -
  let ?E = "ce_crypto env"
  have v: "wd_vault w1 = wd_vault w" by (rule call_api_vault [OF got])
  have st: "wd_stores w1 = wd_stores w" using got by (auto simp: call_api_def map_errA_def on_net_def split: prod.splits)
  let ?v = "(wd_vault w1)\<lparr>vt_device := Some d\<rparr>"
  obtain v2 where v2: "persist_current ?E ?v = (Inr (), v2)" "vt_device v2 = Some d"
    using persist_current_succeeds [OF rel, of ?v d] by auto
  let ?w2 = "w1\<lparr>wd_vault := v2\<rparr>"
  have "on_vault (bnd the_device (\<lambda>_. restore_from_backup ?E (b64_encode (env_b64 ?E) k) (b64_encode (env_b64 ?E) b))) w1
      = (Inr (), ?w2)"
    using engine v v2(1) law
    by (auto simp: on_vault_def bnd_def the_device_def restore_from_backup_def decode_wire_def set_device_def
        reliable_b64 [OF rel])
  then have "restore_backup env cl (b64_encode (env_b64 ?E) k) w = publish_device_keys env cl ?w2"
    using got by (simp add: restore_backup_def bnd_def)
  moreover obtain w3 where "publish_device_keys env cl ?w2 = (Inr (), w3)" using publish_total by blast
  ultimately show ?thesis using v2(2) st by (intro exI [of _ ?w2] exI [of _ w3]) simp
qed

text \<open>
  C19: A backup restores the device: when the server returns the blob that a backup stored, restoring with the
  recovery key the backup returned succeeds on any client with an engine and a key store that takes every
  write, installs exactly the device that was backed up and publishes its keys.
\<close>

theorem backup_restores_device:
  assumes rel: "reliable E user" and envs: "ce_crypto envA = E" "ce_crypto envB = E"
    and law: "\<forall>seed d k b. m_create_backup (env_mls E) seed d = Inr (k, b) \<longrightarrow> m_restore_backup (env_mls E) k b = Inr d"
    and made: "backup envA clA wA = (Inr recovery_key, wA')" and dev: "vt_device (wd_vault wA) = Some dA"
    and engine: "vt_device (wd_vault wB) \<noteq> None"
  shows "\<exists>blob rq. net_log (wd_net wA') = net_log (wd_net wA) @ [rq] \<and>
    rq_url rq = join_url (api_base (cl_api clA)) ''/_pigeon/client/v1/room_keys/key/!e2ee-backup/mls-device-state'' \<and>
    rq_body rq = JsonBody (JObj [(''blob'', JStr blob)]) \<and>
    (\<forall>w1. call_api (get_room_key (ce_server envB) (cl_api clB) BACKUP_ROOM BACKUP_SESSION) wB = (Inr (Some blob), w1) \<longrightarrow>
      (\<exists>w2 w3. restore_backup envB clB recovery_key wB = (Inr (), w3) \<and> vt_device (wd_vault w2) = Some dA \<and>
        wd_stores w2 = wd_stores wB \<and> publish_device_keys envB clB w2 = (Inr (), w3)))"
proof -
  obtain seed k b rq where m: "m_create_backup (env_mls (ce_crypto envA)) seed dA = Inr (k, b)"
    "recovery_key = b64_encode (env_b64 (ce_crypto envA)) k" "net_log (wd_net wA') = net_log (wd_net wA) @ [rq]"
    "rq_url rq = join_url (api_base (cl_api clA)) ''/_pigeon/client/v1/room_keys/key/!e2ee-backup/mls-device-state''"
    "rq_body rq = JsonBody (JObj [(''blob'', JStr (b64_encode (env_b64 (ce_crypto envA)) b))])"
    by (rule backup_puts [OF made dev])
  have "m_restore_backup (env_mls E) k b = Inr dA" using law m(1) envs(1) by blast
  then show ?thesis
    using m(2-5) backup_restored [of envB user wB k b dA clB] rel engine envs by auto
qed

text \<open>A server that keeps the last body put to it and returns it.\<close>

definition keep_server :: "json server" where
  "keep_server = (\<lambda>rq kept. (case rq_body rq of
     JsonBody v \<Rightarrow> (Inr \<lparr> rp_status = 200, rp_json = Some (JObj []), rp_bytes = Inr [] \<rparr>,
        if rq_method rq = PUT then v else kept)
   | _ \<Rightarrow> (Inr \<lparr> rp_status = 200, rp_json = Some kept, rp_bytes = Inr [] \<rparr>, kept)))"

lemma sym_backup_law:
  "\<forall>seed d k b. m_create_backup (env_mls sym_crypto) seed d = Inr (k, b) \<longrightarrow> m_restore_backup (env_mls sym_crypto) k b = Inr d"
  by (auto simp: sym_mls_def take_put_device)

theorem backup_restores_device_witness:
  "\<exists>recovery_key wA' w2 w3. backup (sym_env None keep_server) (sym_client ''@a'')
       (sym_world JNull (Some alice_device) empty_db) = (Inr recovery_key, wA') \<and>
     restore_backup (sym_env None keep_server) (sym_client ''@a'') recovery_key
       (sym_world (net_remote (wd_net wA')) (Some (sym_new ''@a'' 7 [] [])) empty_db) = (Inr (), w3) \<and>
     vt_device (wd_vault w2) = Some alice_device \<and>
     publish_device_keys (sym_env None keep_server) (sym_client ''@a'') w2 = (Inr (), w3)"
proof -
  let ?env = "sym_env None keep_server :: (json, _, _, _, _) client_env" and ?cl = "sym_client ''@a''"
  let ?wA = "sym_world JNull (Some alice_device) empty_db"
  let ?key = "b64_encode sym_b64 (wire [''recovery-key'', tally 0])"
  let ?blob = "b64_encode sym_b64 (wire [''backup'', tally 0, bytes_str (put_device alice_device)] @ [0])"
  obtain wA' where made: "backup ?env ?cl ?wA = (Inr ?key, wA')"
      and kept: "net_remote (wd_net wA') = JObj [(''blob'', JStr ?blob)]"
    by (simp add: backup_def bnd_def on_vault_def create_backup_def draw_def the_device_def sym_mls_def call_api_def
        map_errA_def on_net_def put_room_key_def put_def send_def exchange_def keep_server_def is_success_def req_def
        sym_world_def)
  let ?wB = "sym_world (JObj [(''blob'', JStr ?blob)]) (Some (sym_new ''@a'' 7 [] [])) empty_db"
  have parts: "ce_crypto ?env = sym_crypto" "vt_device (wd_vault ?wA) = Some alice_device" "vt_device (wd_vault ?wB) \<noteq> None"
    by simp_all
  obtain blob rq where b: "net_log (wd_net wA') = net_log (wd_net ?wA) @ [rq]"
    "rq_url rq = join_url (api_base (cl_api ?cl)) ''/_pigeon/client/v1/room_keys/key/!e2ee-backup/mls-device-state''"
    "rq_body rq = JsonBody (JObj [(''blob'', JStr blob)])"
    "\<forall>w1. call_api (get_room_key (ce_server ?env) (cl_api ?cl) BACKUP_ROOM BACKUP_SESSION) ?wB = (Inr (Some blob), w1) \<longrightarrow>
      (\<exists>w2 w3. restore_backup ?env ?cl ?key ?wB = (Inr (), w3) \<and> vt_device (wd_vault w2) = Some alice_device \<and>
        wd_stores w2 = wd_stores ?wB \<and> publish_device_keys ?env ?cl w2 = (Inr (), w3))"
    using backup_restores_device [OF sym_reliable [of "''@a''"] parts(1) parts(1) sym_backup_law made parts(2,3), of ?cl]
    by (elim exE conjE) (rule that)
  have "rq_body rq = JsonBody (JObj [(''blob'', JStr ?blob)])"
    using made b(1)
    by (auto simp: backup_def bnd_def on_vault_def create_backup_def draw_def the_device_def sym_mls_def call_api_def
        map_errA_def on_net_def put_room_key_def put_def send_def exchange_def keep_server_def is_success_def req_def
        sym_world_def)
  then have "blob = ?blob" using b(3) by simp
  moreover have "\<exists>w1. call_api (get_room_key (ce_server ?env) (cl_api ?cl) BACKUP_ROOM BACKUP_SESSION) ?wB = (Inr (Some ?blob), w1)"
    by (simp add: call_api_def map_errA_def on_net_def get_room_key_def catch_def api_get_def send_def exchange_def bnd_def
        keep_server_def is_success_def req_def sym_world_def jindex_def)
  ultimately show ?thesis using b(4) made kept by metis
qed

section \<open>Two ways a delivered message is not shown as it was sent\<close>

text \<open>
  C37: A message is lost when its decryption cannot be saved: the key store refuses the device's new state after a
  decryption that succeeded; the plaintext is dropped, the message is marked undecryptable for good, and
  the engine has already moved past it.
\<close>

theorem failed_save_loses_message:
  assumes dev: "vt_device (wd_vault w) = Some d" "vt_keys (wd_vault w) = Some k"
    and group: "m_load_group (env_mls (ce_crypto env)) (str_bytes (pd_room_id m)) d = Inr (Some g)"
    and wire: "b64_decode (env_b64 (ce_crypto env)) (pd_ciphertext_b64 m) = Inr ct"
      "m_decrypt (env_mls (ce_crypto env)) g ct d = (Inr p, d')" "m_export (env_mls (ce_crypto env)) d' = Inr blob"
    and refused: "\<forall>v. \<exists>e k'. kp_put (env_ks (ce_crypto env)) MLS_STATE_KEY v k = (Inl e, k')"
    and other: "pd_sender m \<noteq> ss_user_id (cl_session cl)"
  shows "\<exists>w'. inbound_message env cl m changed w = (Inr True, w') \<and> vt_device (wd_vault w') = Some d' \<and>
    wd_stores w' = (wd_stores w)(cl_store cl := set_decrypt_failed (wd_stores w (cl_store cl)) (pd_event_id m))"
proof -
  let ?E = "ce_crypto env"
  obtain e k' where e: "kp_put (env_ks ?E) MLS_STATE_KEY (str_bytes (jprint (env_json ?E) (stored_state ?E d' blob))) k = (Inl e, k')"
    using refused by blast
  let ?v = "(wd_vault w)\<lparr>vt_device := Some d', vt_keys := Some k'\<rparr>"
  have "decrypt ?E (pd_room_id m) (pd_ciphertext_b64 m) (wd_vault w) = (Inl (Storage e), ?v)"
    using dev group wire e
    by (simp add: decrypt_def bnd_def the_device_def on_device_def set_device_def load_group_def ok_or_def
        decode_wire_def persist_current_def persist_def ks_put_def ks_call_def)
  moreover have "has_group ?E (pd_room_id m) (wd_vault w) = (Inr True, wd_vault w)"
    using dev group by (simp add: has_group_def the_device_def bnd_def)
  ultimately show ?thesis
    using other
    by (simp add: inbound_message_def bnd_def on_vault_def catch_def log_emit_def store_update_def store_write_def)
qed

text \<open>A key store that is full.\<close>

definition full_env :: "(unit, sym_device, string, (string \<times> bytes) list, json) client_env" where
  "full_env = (sym_env None good_server)\<lparr>ce_crypto := sym_crypto\<lparr>env_ks := toy_ks\<lparr>kp_put := (\<lambda>key v k. (Inl ''full'', k))\<rparr>\<rparr>\<rparr>"

theorem failed_save_loses_message_witness:
  "\<exists>m w'. inbound_message full_env (sym_client ''@b'') m False (sym_world () (Some bob_device) empty_db) = (Inr True, w') \<and>
     vt_device (wd_vault w') \<noteq> Some bob_device"
proof -
  let ?w = "sym_world () (Some bob_device) empty_db :: (unit, _, _, _) world"
  have parts: "env_mls (ce_crypto full_env) = sym_mls" "env_b64 (ce_crypto full_env) = sym_b64"
    "env_ks (ce_crypto full_env) = toy_ks\<lparr>kp_put := (\<lambda>key v k. (Inl ''full'', k))\<rparr>"
    by (simp_all add: full_env_def)
  define ct where "ct = wire [''message'', tally 1, ''!r'', tally 0, tally 0, ''hi'']"
  let ?m = "\<lparr> pd_event_id = ''$e'', pd_room_id = ''!r'', pd_sender = ''@a'', pd_ciphertext_b64 = b64_encode sym_b64 ct \<rparr>"
  define d' where "d' = bob_device\<lparr>sd_seen := [(tally 1, tally 0)]\<rparr>"
  have d': "m_decrypt sym_mls ''!r'' ct bob_device = (Inr (str_bytes ''hi''), d')"
    by (simp add: sym_mls_def sym_decrypt_def ct_def d'_def)
  have "sd_seen d' \<noteq> sd_seen bob_device" by (simp add: d'_def)
  then have ne: "d' \<noteq> bob_device" by metis
  have "\<exists>w'. inbound_message full_env (sym_client ''@b'') ?m False ?w = (Inr True, w') \<and> vt_device (wd_vault w') = Some d' \<and>
    wd_stores w' = (wd_stores ?w)(cl_store (sym_client ''@b'') :=
      set_decrypt_failed (wd_stores ?w (cl_store (sym_client ''@b''))) (pd_event_id ?m))"
    by (rule failed_save_loses_message [of _ bob_device "[]" _ _ "''!r''" ct "str_bytes ''hi''" d' "put_device d'"])
      (simp_all add: parts sym_load sym_b64_back d' sym_client_def sym_world_def, simp_all add: sym_mls_def toy_ks_def)
  with ne show ?thesis by (metis option.inject)
qed

text \<open>
  The text of a message in an encrypted room is not distinguished from the content of an image: a text that is
  the JSON of an image content is shown as that image, not as the text.
\<close>

lemma json_text_shown_as_image:
  assumes "ev_event_type ev = ''p.room.encrypted''" "parse body = Inr v" "get_str v ''msgtype'' = Some ''p.image''"
  shows "te_image (timeline_from parse (ev\<lparr>ev_decrypted := Some body\<rparr>)) = parse_image v"
    "te_body (timeline_from parse (ev\<lparr>ev_decrypted := Some body\<rparr>)) = get_str v ''body''"
  using assms by (simp_all add: timeline_from_def event_image_def event_body_def decrypted_image_def)

end
