(* ===== verification/Store_Tests.thy ===== *)
theory Store_Tests
  imports Json_Code Host Migrate_Spec
begin

text \<open>
  The unit tests of \<open>core/src/store.rs\<close>, translated: each is a Boolean built from the model's operations
  in the order of the test, and a lemma evaluates it.  They check the model against the expectations the
  authors wrote down.  A fresh in-memory store is \<open>empty_db\<close>; a file that is closed and opened again
  keeps its tables.  The tests that queue a message take the counter and the clock of the process as
  arguments.
\<close>

section \<open>Test builders\<close>

text \<open>\<open>unwrap()\<close>: a test that unwraps an error fails.\<close>

definition unwrap :: "'e + 'a \<Rightarrow> ('a \<Rightarrow> bool) \<Rightarrow> bool" where
  "unwrap r test = (case r of Inl _ \<Rightarrow> False | Inr a \<Rightarrow> test a)"

definition test_event ::
  "string \<Rightarrow> string \<Rightarrow> string \<Rightarrow> int \<Rightarrow> int \<Rightarrow> string \<Rightarrow> string option \<Rightarrow> json \<Rightarrow> json" where
  "test_event eid room sender depth ts ty sk content =
     (let e = [(''event_id'', JStr eid), (''room_id'', JStr room), (''sender'', JStr sender), (''type'', JStr ty),
               (''origin_server_ts'', json_i64 ts), (''depth'', json_i64 depth), (''content'', content)]
      in JObj (case sk of None \<Rightarrow> e | Some k \<Rightarrow> obj_insert ''state_key'' (JStr k) e))"

definition test_message :: "string \<Rightarrow> string \<Rightarrow> string \<Rightarrow> int \<Rightarrow> int \<Rightarrow> string \<Rightarrow> json" where
  "test_message eid room sender depth ts body =
     test_event eid room sender depth ts ''p.room.message'' None
       (JObj [(''body'', JStr body), (''msgtype'', JStr ''p.text'')])"

text \<open>The room states most tests use, and the substring test of \<open>contains\<close>.\<close>

definition test_state :: "string \<Rightarrow> string \<Rightarrow> int \<Rightarrow> int \<Rightarrow> string \<Rightarrow> (string \<times> json) list \<Rightarrow> json" where
  "test_state eid room depth ts ty kvs =
     test_event eid room ''@u:s'' depth ts ty (Some []) (JObj kvs)"

definition text_contains :: "string \<Rightarrow> string \<Rightarrow> bool" where
  "text_contains s t \<longleftrightarrow> list_ex (\<lambda>i. take (length t) (drop i s) = t) [0..<Suc (length s)]"

section \<open>Events on the wire\<close>

definition from_wire_reads_fields_and_detects_state :: bool where
  "from_wire_reads_fields_and_detects_state \<longleftrightarrow>
     unwrap (from_wire (test_message ''$a'' ''!r:s'' ''@u:s'' 3 100 ''hi'')) (\<lambda>msg.
       ev_event_id msg = ''$a'' \<and> ev_event_type msg = ''p.room.message'' \<and> ev_state_key msg = None \<and>
       ev_depth msg = 3 \<and> jindex (ev_content msg) ''body'' = JStr ''hi'') \<and>
     unwrap (from_wire (test_event ''$m'' ''!r:s'' ''@u:s'' 1 50 ''p.room.member'' (Some ''@u:s'')
         (JObj [(''membership'', JStr ''join'')]))) (\<lambda>member.
       ev_state_key member = Some ''@u:s'')"

lemma from_wire_reads_fields_and_detects_state: from_wire_reads_fields_and_detects_state
  by code_simp

definition from_wire_rejects_missing_field :: bool where
  "from_wire_rejects_missing_field \<longleftrightarrow>
     (case from_wire (JObj [(''event_id'', JStr ''$a''), (''room_id'', JStr ''!r:s''),
             (''type'', JStr ''p.room.message''), (''origin_server_ts'', json_i64 1), (''depth'', json_i64 1),
             (''content'', JObj [])]) of
        Inl (MalformedEvent reason) \<Rightarrow> text_contains reason ''sender''
      | _ \<Rightarrow> False)"

lemma from_wire_rejects_missing_field: from_wire_rejects_missing_field
  by code_simp

section \<open>Token and timeline\<close>

definition sync_token_round_trips_and_replaces :: bool where
  "sync_token_round_trips_and_replaces \<longleftrightarrow>
     (let store = empty_db :: json db
      in load_sync_token store = None \<and>
         (let store = save_sync_token store ''42_7''
          in load_sync_token store = Some ''42_7'' \<and>
             load_sync_token (save_sync_token store ''99_12'') = Some ''99_12''))"

lemma sync_token_round_trips_and_replaces: sync_token_round_trips_and_replaces
  by code_simp

definition apply_events_appends_and_is_idempotent :: bool where
  "apply_events_appends_and_is_idempotent \<longleftrightarrow>
     (let batch = [test_message ''$a'' ''!r:s'' ''@u:s'' 1 100 ''one'',
                   test_message ''$b'' ''!r:s'' ''@u:s'' 2 200 ''two'']
      in unwrap (apply_events id_codec empty_db batch) (\<lambda>(store, n).
         n = 2 \<and>
         unwrap (apply_events id_codec store batch) (\<lambda>(store, n).
         n = 0 \<and>
         unwrap (timeline id_codec store ''!r:s'' 10 None) (\<lambda>tl.
         length tl = 2 \<and> ev_event_id (tl ! 0) = ''$a'' \<and> ev_event_id (tl ! 1) = ''$b''))))"

lemma apply_events_appends_and_is_idempotent: apply_events_appends_and_is_idempotent
  by code_simp

definition timeline_orders_by_depth_and_paginates :: bool where
  "timeline_orders_by_depth_and_paginates \<longleftrightarrow>
     unwrap (apply_events id_codec empty_db
       [test_message ''$c'' ''!r:s'' ''@u:s'' 3 300 ''three'',
        test_message ''$a'' ''!r:s'' ''@u:s'' 1 100 ''one'',
        test_message ''$b'' ''!r:s'' ''@u:s'' 2 200 ''two'']) (\<lambda>(store, _).
     unwrap (timeline id_codec store ''!r:s'' 2 None) (\<lambda>page.
       map ev_event_id page = [''$b'', ''$c''] \<and>
     unwrap (timeline id_codec store ''!r:s'' 10 (Some 3)) (\<lambda>older.
       map ev_event_id older = [''$a'', ''$b''])))"

lemma timeline_orders_by_depth_and_paginates: timeline_orders_by_depth_and_paginates
  by code_simp

definition timeline_is_scoped_to_its_room :: bool where
  "timeline_is_scoped_to_its_room \<longleftrightarrow>
     unwrap (apply_events id_codec empty_db
       [test_message ''$a'' ''!r1:s'' ''@u:s'' 1 100 ''in r1'',
        test_message ''$b'' ''!r2:s'' ''@u:s'' 1 100 ''in r2'']) (\<lambda>(store, _).
     unwrap (timeline id_codec store ''!r1:s'' 10 None) (\<lambda>r1.
       length r1 = 1 \<and> ev_event_id (r1 ! 0) = ''$a''))"

lemma timeline_is_scoped_to_its_room: timeline_is_scoped_to_its_room
  by code_simp

section \<open>Folded room state\<close>

definition state_is_folded_last_writer_wins_by_depth :: bool where
  "state_is_folded_last_writer_wins_by_depth \<longleftrightarrow>
     unwrap (apply_events id_codec empty_db
       [test_state ''$n1'' ''!r:s'' 1 100 ''p.room.name'' [(''name'', JStr ''First'')]]) (\<lambda>(store, _).
     unwrap (list_rooms id_codec store) (\<lambda>rooms.
       rs_name (rooms ! 0) = Some ''First'' \<and>
     unwrap (apply_events id_codec store
       [test_state ''$n2'' ''!r:s'' 5 500 ''p.room.name'' [(''name'', JStr ''Second'')]]) (\<lambda>(store, _).
     unwrap (list_rooms id_codec store) (\<lambda>rooms.
       rs_name (rooms ! 0) = Some ''Second'' \<and>
     unwrap (apply_events id_codec store
       [test_state ''$n0'' ''!r:s'' 2 200 ''p.room.name'' [(''name'', JStr ''Stale'')]]) (\<lambda>(store, _).
     unwrap (list_rooms id_codec store) (\<lambda>rooms.
       rs_name (rooms ! 0) = Some ''Second''))))))"

lemma state_is_folded_last_writer_wins_by_depth: state_is_folded_last_writer_wins_by_depth
  by code_simp

definition list_rooms_folds_name_topic_encryption_and_orders_by_activity :: bool where
  "list_rooms_folds_name_topic_encryption_and_orders_by_activity \<longleftrightarrow>
     unwrap (apply_events id_codec empty_db
       [test_event ''$a_n'' ''!a:s'' ''@u:s'' 1 100 ''p.room.name'' (Some []) (JObj [(''name'', JStr ''Alpha'')]),
        test_event ''$a_t'' ''!a:s'' ''@u:s'' 1 100 ''p.room.topic'' (Some []) (JObj [(''topic'', JStr ''about A'')]),
        test_message ''$a_m'' ''!a:s'' ''@u:s'' 2 900 ''hi'',
        test_event ''$b_e'' ''!b:s'' ''@u:s'' 1 300 ''p.room.encryption'' (Some [])
          (JObj [(''algorithm'', JStr ''p.mls.1'')])]) (\<lambda>(store, _).
     unwrap (list_rooms id_codec store) (\<lambda>rooms.
       length rooms = 2 \<and>
       rs_room_id (rooms ! 0) = ''!a:s'' \<and> rs_name (rooms ! 0) = Some ''Alpha'' \<and>
       rs_topic (rooms ! 0) = Some ''about A'' \<and> \<not> rs_encrypted (rooms ! 0) \<and>
       rs_room_id (rooms ! 1) = ''!b:s'' \<and> rs_name (rooms ! 1) = None \<and> rs_encrypted (rooms ! 1)))"

lemma list_rooms_folds_name_topic_encryption_and_orders_by_activity: list_rooms_folds_name_topic_encryption_and_orders_by_activity
  by code_simp

definition is_room_encrypted_reflects_the_marker :: bool where
  "is_room_encrypted_reflects_the_marker \<longleftrightarrow>
     unwrap (apply_events id_codec empty_db
       [test_message ''$p_m'' ''!plain:s'' ''@u:s'' 1 100 ''hi'',
        test_state ''$e_e'' ''!enc:s'' 1 100 ''p.room.encryption'' [(''algorithm'', JStr ''p.mls.1'')]]) (\<lambda>(store, _).
       is_room_encrypted store ''!enc:s'' \<and> \<not> is_room_encrypted store ''!plain:s'' \<and>
       \<not> is_room_encrypted store ''!unknown:s'')"

lemma is_room_encrypted_reflects_the_marker: is_room_encrypted_reflects_the_marker
  by code_simp

definition test_member :: "string \<Rightarrow> string \<Rightarrow> int \<Rightarrow> int \<Rightarrow> string \<Rightarrow> json" where
  "test_member eid user depth ts mship =
     test_event eid ''!r:s'' ''@a:s'' depth ts ''p.room.member'' (Some user)
       (JObj [(''membership'', JStr mship)])"

definition membership_reads_latest_member_state_per_user :: bool where
  "membership_reads_latest_member_state_per_user \<longleftrightarrow>
     unwrap (apply_events id_codec empty_db
       [test_member ''$j'' ''@a:s'' 1 100 ''join'', test_member ''$i'' ''@b:s'' 1 100 ''invite'']) (\<lambda>(store, _).
       membership id_codec store ''!r:s'' ''@a:s'' = Inr (Some MJoin) \<and>
       membership id_codec store ''!r:s'' ''@b:s'' = Inr (Some MInvite) \<and>
       membership id_codec store ''!r:s'' ''@nobody:s'' = Inr None \<and>
     unwrap (apply_events id_codec store [test_member ''$l'' ''@a:s'' 4 400 ''leave'']) (\<lambda>(store, _).
       membership id_codec store ''!r:s'' ''@a:s'' = Inr (Some MLeave)))"

lemma membership_reads_latest_member_state_per_user: membership_reads_latest_member_state_per_user
  by code_simp

definition unknown_membership_is_preserved :: bool where
  "unknown_membership_is_preserved \<longleftrightarrow>
     membership_from_wire ''knock'' = MKnock \<and> membership_from_wire ''weird'' = MOther ''weird''"

lemma unknown_membership_is_preserved: unknown_membership_is_preserved
  by code_simp

definition current_state_generic_accessor :: bool where
  "current_state_generic_accessor \<longleftrightarrow>
     unwrap (apply_events id_codec empty_db
       [test_state ''$t'' ''!r:s'' 1 100 ''p.room.topic'' [(''topic'', JStr ''hello'')]]) (\<lambda>(store, _).
     unwrap (current_state id_codec store ''!r:s'' ''p.room.topic'' []) (\<lambda>ev.
       (case ev of None \<Rightarrow> False | Some ev \<Rightarrow> jindex (ev_content ev) ''topic'' = JStr ''hello'') \<and>
       current_state id_codec store ''!r:s'' ''p.room.name'' [] = Inr None))"

lemma current_state_generic_accessor: current_state_generic_accessor
  by code_simp

text \<open>A failed batch returns no store: the test reads the one it was applied to.\<close>

definition malformed_event_aborts_batch_without_partial_write :: bool where
  "malformed_event_aborts_batch_without_partial_write \<longleftrightarrow>
     (case apply_events id_codec empty_db
        [test_message ''$ok'' ''!r:s'' ''@u:s'' 1 100 ''fine'',
         JObj [(''event_id'', JStr ''$bad''), (''room_id'', JStr ''!r:s'')]] of
        Inl (MalformedEvent _) \<Rightarrow> timeline id_codec empty_db ''!r:s'' 10 None = Inr []
      | _ \<Rightarrow> False)"

lemma malformed_event_aborts_batch_without_partial_write: malformed_event_aborts_batch_without_partial_write
  by code_simp

section \<open>Send queue and local echo\<close>

definition queue_send_writes_a_pending_echo :: "64 word \<Rightarrow> int \<Rightarrow> bool" where
  "queue_send_writes_a_pending_echo n now \<longleftrightarrow>
     unwrap (queue_send id_codec empty_db n now now ''!r:s'' ''@me:s'' ''hello'') (\<lambda>(store, txn).
     unwrap (timeline id_codec store ''!r:s'' 10 None) (\<lambda>tl.
       length tl = 1 \<and> ev_sender (tl ! 0) = ''@me:s'' \<and> jindex (ev_content (tl ! 0)) ''body'' = JStr ''hello'' \<and>
       ev_send_state (tl ! 0) = Sending \<and>
       length (pending_sends store) = 1 \<and> ps_txn_id (pending_sends store ! 0) = txn \<and>
       ps_body (pending_sends store ! 0) = ''hello''))"

lemma queue_send_writes_a_pending_echo: "queue_send_writes_a_pending_echo 0 42"
  by code_simp

definition resolve_send_promotes_echo_and_clears_queue :: "64 word \<Rightarrow> int \<Rightarrow> bool" where
  "resolve_send_promotes_echo_and_clears_queue n now \<longleftrightarrow>
     unwrap (queue_send id_codec empty_db n now now ''!r:s'' ''@me:s'' ''hi'') (\<lambda>(store, txn).
     unwrap (resolve_send id_codec store txn ''$real'') (\<lambda>store.
     unwrap (timeline id_codec store ''!r:s'' 10 None) (\<lambda>tl.
       length tl = 1 \<and> ev_event_id (tl ! 0) = ''$real'' \<and> ev_send_state (tl ! 0) = Confirmed \<and>
       pending_sends store = [] \<and>
     unwrap (apply_events id_codec store [test_message ''$real'' ''!r:s'' ''@me:s'' 9 900 ''hi'']) (\<lambda>(store, _).
     unwrap (timeline id_codec store ''!r:s'' 10 None) (\<lambda>tl. length tl = 1)))))"

lemma resolve_send_promotes_echo_and_clears_queue: "resolve_send_promotes_echo_and_clears_queue 0 42"
  by code_simp

definition resolve_send_drops_echo_if_sync_raced_ahead :: "64 word \<Rightarrow> int \<Rightarrow> bool" where
  "resolve_send_drops_echo_if_sync_raced_ahead n now \<longleftrightarrow>
     unwrap (queue_send id_codec empty_db n now now ''!r:s'' ''@me:s'' ''hi'') (\<lambda>(store, txn).
     unwrap (apply_events id_codec store [test_message ''$real'' ''!r:s'' ''@me:s'' 9 900 ''hi'']) (\<lambda>(store, _).
     unwrap (resolve_send id_codec store txn ''$real'') (\<lambda>store.
     unwrap (timeline id_codec store ''!r:s'' 10 None) (\<lambda>tl.
       length tl = 1 \<and> ev_event_id (tl ! 0) = ''$real'' \<and> ev_send_state (tl ! 0) = Confirmed))))"

lemma resolve_send_drops_echo_if_sync_raced_ahead: "resolve_send_drops_echo_if_sync_raced_ahead 0 42"
  by code_simp

definition own_encrypted :: "string \<Rightarrow> string \<Rightarrow> int \<Rightarrow> json" where
  "own_encrypted eid room depth =
     test_event eid room ''@me:s'' depth (depth * 100) ''p.room.encrypted'' None
       (JObj [(''algorithm'', JStr ''p.mls.1''), (''ciphertext'', JStr ''CT'')])"

definition resolve_send_keeps_plaintext_when_encrypted_sync_raced_ahead :: "64 word \<Rightarrow> int \<Rightarrow> bool" where
  "resolve_send_keeps_plaintext_when_encrypted_sync_raced_ahead n now \<longleftrightarrow>
     unwrap (queue_send id_codec empty_db n now now ''!r:s'' ''@me:s'' ''secret hi'') (\<lambda>(store, txn).
     unwrap (apply_events id_codec store [own_encrypted ''$real'' ''!r:s'' 9]) (\<lambda>(store, _).
     unwrap (resolve_send id_codec store txn ''$real'') (\<lambda>store.
     unwrap (timeline id_codec store ''!r:s'' 10 None) (\<lambda>tl.
       length tl = 1 \<and> ev_event_id (tl ! 0) = ''$real'' \<and> ev_decrypted (tl ! 0) = Some ''secret hi'' \<and>
       \<not> ev_decrypt_failed (tl ! 0) \<and> ev_send_state (tl ! 0) = Confirmed \<and>
       pending_mls id_codec store = Inr []))))"

lemma resolve_send_keeps_plaintext_when_encrypted_sync_raced_ahead:
  "resolve_send_keeps_plaintext_when_encrypted_sync_raced_ahead 0 42"
  by code_simp

definition resolve_send_repairs_an_own_event_already_marked_undecryptable :: "64 word \<Rightarrow> int \<Rightarrow> bool" where
  "resolve_send_repairs_an_own_event_already_marked_undecryptable n now \<longleftrightarrow>
     unwrap (queue_send id_codec empty_db n now now ''!r:s'' ''@me:s'' ''secret hi'') (\<lambda>(store, txn).
     unwrap (apply_events id_codec store [own_encrypted ''$real'' ''!r:s'' 9]) (\<lambda>(store, _).
     unwrap (resolve_send id_codec (set_decrypt_failed store ''$real'') txn ''$real'') (\<lambda>store.
     unwrap (timeline id_codec store ''!r:s'' 10 None) (\<lambda>tl.
       length tl = 1 \<and> ev_decrypted (tl ! 0) = Some ''secret hi'' \<and> \<not> ev_decrypt_failed (tl ! 0)))))"

lemma resolve_send_repairs_an_own_event_already_marked_undecryptable:
  "resolve_send_repairs_an_own_event_already_marked_undecryptable 0 42"
  by code_simp

definition has_pending_send_tracks_the_queue_per_room :: "64 word \<Rightarrow> int \<Rightarrow> bool" where
  "has_pending_send_tracks_the_queue_per_room n now \<longleftrightarrow>
     \<not> has_pending_send (empty_db :: json db) ''!r:s'' \<and>
     unwrap (queue_send id_codec empty_db n now now ''!r:s'' ''@me:s'' ''hi'') (\<lambda>(store, txn).
       has_pending_send store ''!r:s'' \<and> \<not> has_pending_send store ''!other:s'' \<and>
     unwrap (resolve_send id_codec store txn ''$real'') (\<lambda>store.
       \<not> has_pending_send store ''!r:s''))"

lemma has_pending_send_tracks_the_queue_per_room: "has_pending_send_tracks_the_queue_per_room 0 42"
  by code_simp

section \<open>Encrypted events\<close>

definition test_encrypted :: "string \<Rightarrow> string \<Rightarrow> int \<Rightarrow> string \<Rightarrow> json" where
  "test_encrypted eid room depth ciphertext =
     test_event eid room ''@alice:s'' depth (depth * 100) ''p.room.encrypted'' None
       (JObj [(''algorithm'', JStr ''p.mls.1''), (''ciphertext'', JStr ciphertext)])"

definition test_commit :: "string \<Rightarrow> string \<Rightarrow> string \<Rightarrow> int \<Rightarrow> string \<Rightarrow> json" where
  "test_commit eid room sender depth commit_b64 =
     test_event eid room sender depth (depth * 100) ''p.mls.commit'' None (JObj [(''commit'', JStr commit_b64)])"

text \<open>The messages of the unified stream.\<close>

definition pending_msgs :: "pending_mls_item list \<Rightarrow> pending_decrypt list" where
  "pending_msgs ps = List.map_filter (\<lambda>p. case p of MlsMessage m \<Rightarrow> Some m | MlsCommit _ \<Rightarrow> None) ps"

definition pending_mls_returns_encrypted_events_in_dag_order :: bool where
  "pending_mls_returns_encrypted_events_in_dag_order \<longleftrightarrow>
     unwrap (apply_events id_codec empty_db
       [test_encrypted ''$e2'' ''!r:s'' 2 ''CT2'', test_message ''$m'' ''!r:s'' ''@a:s'' 1 100 ''plaintext'',
        test_encrypted ''$e1'' ''!r:s'' 1 ''CT1'']) (\<lambda>(store, _).
     unwrap (pending_mls id_codec store) (\<lambda>items.
       map pd_event_id (pending_msgs items) = [''$e1'', ''$e2''] \<and>
       pd_ciphertext_b64 (pending_msgs items ! 0) = ''CT1''))"

lemma pending_mls_returns_encrypted_events_in_dag_order: pending_mls_returns_encrypted_events_in_dag_order
  by code_simp

fun item_kind :: "pending_mls_item \<Rightarrow> string \<times> string" where
  "item_kind (MlsMessage m) = (''msg'', pd_event_id m)"
| "item_kind (MlsCommit c) = (''commit'', pc_event_id c)"

definition pending_mls_interleaves_commits_and_messages_in_dag_order :: bool where
  "pending_mls_interleaves_commits_and_messages_in_dag_order \<longleftrightarrow>
     unwrap (apply_events id_codec empty_db
       [test_encrypted ''$e3'' ''!r:s'' 3 ''CT3'', test_commit ''$c'' ''!r:s'' ''@alice:s'' 2 ''COMMIT'',
        test_encrypted ''$e1'' ''!r:s'' 1 ''CT1'', test_message ''$m'' ''!r:s'' ''@a:s'' 4 400 ''plaintext'']) (\<lambda>(store, _).
     unwrap (pending_mls id_codec store) (\<lambda>items.
       map item_kind items = [(''msg'', ''$e1''), (''commit'', ''$c''), (''msg'', ''$e3'')] \<and>
       (let store = set_commit_processed store ''$c''
        in unwrap (pending_mls id_codec store) (\<lambda>items. list_all (\<lambda>p. fst (item_kind p) \<noteq> ''commit'') items) \<and>
           unwrap (timeline id_codec store ''!r:s'' 10 None) (\<lambda>tl. list_all (\<lambda>e. ev_event_id e \<noteq> ''$c'') tl))))"

lemma pending_mls_interleaves_commits_and_messages_in_dag_order:
  pending_mls_interleaves_commits_and_messages_in_dag_order
  by code_simp

definition set_decrypted_caches_plaintext_and_clears_pending :: bool where
  "set_decrypted_caches_plaintext_and_clears_pending \<longleftrightarrow>
     unwrap (apply_events id_codec empty_db [test_encrypted ''$e1'' ''!r:s'' 1 ''CT1'']) (\<lambda>(store, _).
     unwrap (pending_mls id_codec store) (\<lambda>items.
       length (pending_msgs items) = 1 \<and>
     unwrap (timeline id_codec store ''!r:s'' 10 None) (\<lambda>tl.
       ev_decrypted (tl ! 0) = None \<and>
       (let store = set_decrypted store ''$e1'' ''hello''
        in unwrap (pending_mls id_codec store) (\<lambda>items. pending_msgs items = []) \<and>
           unwrap (timeline id_codec store ''!r:s'' 10 None) (\<lambda>tl.
             ev_decrypted (tl ! 0) = Some ''hello'' \<and> \<not> ev_decrypt_failed (tl ! 0))))))"

lemma set_decrypted_caches_plaintext_and_clears_pending: set_decrypted_caches_plaintext_and_clears_pending
  by code_simp

definition set_decrypt_failed_marks_terminal_and_clears_pending :: bool where
  "set_decrypt_failed_marks_terminal_and_clears_pending \<longleftrightarrow>
     unwrap (apply_events id_codec empty_db [test_encrypted ''$e1'' ''!r:s'' 1 ''CT1'']) (\<lambda>(store, _).
       (let store = set_decrypt_failed store ''$e1''
        in unwrap (pending_mls id_codec store) (\<lambda>items. pending_msgs items = []) \<and>
           unwrap (timeline id_codec store ''!r:s'' 10 None) (\<lambda>tl.
             ev_decrypted (tl ! 0) = None \<and> ev_decrypt_failed (tl ! 0))))"

lemma set_decrypt_failed_marks_terminal_and_clears_pending: set_decrypt_failed_marks_terminal_and_clears_pending
  by code_simp

definition fail_send_flags_echo_and_dequeues :: "64 word \<Rightarrow> int \<Rightarrow> bool" where
  "fail_send_flags_echo_and_dequeues n now \<longleftrightarrow>
     unwrap (queue_send id_codec empty_db n now now ''!r:s'' ''@me:s'' ''nope'') (\<lambda>(store, txn).
       (let store = fail_send store txn
        in unwrap (timeline id_codec store ''!r:s'' 10 None) (\<lambda>tl.
             length tl = 1 \<and> ev_send_state (tl ! 0) = Failed) \<and>
           pending_sends store = []))"

lemma fail_send_flags_echo_and_dequeues: "fail_send_flags_echo_and_dequeues 0 42"
  by code_simp

end
