(* ===== verification/Reopen.thy ===== *)
theory Reopen
  imports Store_Tests
begin

section \<open>Closing and opening a file\<close>

text \<open>The rows of the tables in the file, in the columns of the current schema.\<close>

definition text_or_null :: "string option \<Rightarrow> sqlval" where
  "text_or_null v = (case v of None \<Rightarrow> SNull | Some s \<Rightarrow> SText s)"

definition row_of_event_row :: "string event_row \<Rightarrow> sqlval list" where
  "row_of_event_row r =
     [SText (r_event_id r), SText (r_room_id r), SText (r_sender r), SText (r_type r),
      text_or_null (r_state_key r), SInt (r_ts r), SInt (r_depth r), SText (r_payload r), SInt (r_local r),
      text_or_null (r_decrypted r), SInt (r_decrypt_state r)]"

definition row_of_state_row :: "state_row \<Rightarrow> sqlval list" where
  "row_of_state_row s =
     [SText (s_room_id s), SText (s_type s), SText (s_state_key s), SText (s_event_id s), SInt (s_depth s)]"

definition row_of_pending_row :: "pending_row \<Rightarrow> sqlval list" where
  "row_of_pending_row p =
     [SText (p_txn_id p), SText (p_room_id p), SText (p_body p), SText (p_event_id p), SInt (p_created_ts p)]"

definition put_rows :: "string \<Rightarrow> sqlval list list \<Rightarrow> sqlite_file \<Rightarrow> sqlite_file" where
  "put_rows n rs f =
     (case find_table f n of None \<Rightarrow> f | Some t \<Rightarrow> put_table n (t\<lparr>tb_rows := rs\<rparr>) f)"

definition write_tables :: "string db \<Rightarrow> sqlite_file \<Rightarrow> sqlite_file" where
  "write_tables db f =
     put_rows ''sync_token'' (case sync_token db of None \<Rightarrow> [] | Some t \<Rightarrow> [[SInt 0, SText t]])
       (put_rows ''events'' (map row_of_event_row (events db))
         (put_rows ''room_state'' (map row_of_state_row (room_state db))
           (put_rows ''pending_sends'' (map row_of_pending_row (pending_sends_tab db)) f)))"

lemma opt_text_or_null [simp]: "opt_text (text_or_null v) = Some v"
  by (cases v) (simp_all add: text_or_null_def)

lemma event_row_back [simp]: "event_of_row (row_of_event_row r) = Some r"
  by (simp add: event_of_row_def row_of_event_row_def)

lemma state_row_back [simp]: "state_of_row (row_of_state_row s) = Some s"
  by (simp add: state_of_row_def row_of_state_row_def)

lemma pending_row_back [simp]: "pending_of_row (row_of_pending_row p) = Some p"
  by (simp add: pending_of_row_def row_of_pending_row_def)

lemma those_back: "(\<And>x. f (g x) = Some x) \<Longrightarrow> those (map f (map g xs)) = Some xs"
  by (induction xs) simp_all

lemma find_put_table:
  "find_table (put_table n t f) m =
     (if m = n then (case find_table f n of None \<Rightarrow> None | Some _ \<Rightarrow> Some t) else find_table f m)"
proof -
  have "map_of (map (\<lambda>(k, u). (k, if k = n then t else u)) ts) m =
      (if m = n then (case map_of ts n of None \<Rightarrow> None | Some _ \<Rightarrow> Some t) else map_of ts m)" for ts
    by (induction ts) auto
  then show ?thesis by (simp add: find_table_def put_table_def)
qed

lemma rows_of_put_rows:
  "rows_of (put_rows n rs f) m = (if m = n \<and> find_table f n \<noteq> None then rs else rows_of f m)"
  by (auto simp: rows_of_def put_rows_def find_put_table split: option.splits)

lemma find_put_rows: "find_table (put_rows n rs f) m \<noteq> None \<longleftrightarrow> find_table f m \<noteq> None"
  by (auto simp: put_rows_def find_put_table split: option.splits)

lemma token_back:
  "token_of_rows (case t of None \<Rightarrow> [] | Some s \<Rightarrow> [[SInt 0, SText s]]) = Some t"
  by (cases t) (simp_all add: token_of_rows_def)

lemma db_of_write_tables:
  assumes "schema_at 3 f"
  shows "db_of_file (write_tables db f) = Some db"
proof -
  have t: "find_table f ''sync_token'' \<noteq> None" "find_table f ''events'' \<noteq> None"
    "find_table f ''room_state'' \<noteq> None" "find_table f ''pending_sends'' \<noteq> None"
    using assms by (auto simp: schema_at_def tables_at_def find_table_def)
  have "rows_of (write_tables db f) ''sync_token'' =
      (case sync_token db of None \<Rightarrow> [] | Some t \<Rightarrow> [[SInt 0, SText t]])"
    "rows_of (write_tables db f) ''events'' = map row_of_event_row (events db)"
    "rows_of (write_tables db f) ''room_state'' = map row_of_state_row (room_state db)"
    "rows_of (write_tables db f) ''pending_sends'' = map row_of_pending_row (pending_sends_tab db)"
    using t by (simp_all add: write_tables_def rows_of_put_rows find_put_rows del: not_None_eq)
  moreover have "those (map event_of_row (map row_of_event_row (events db))) = Some (events db)"
    "those (map state_of_row (map row_of_state_row (room_state db))) = Some (room_state db)"
    "those (map pending_of_row (map row_of_pending_row (pending_sends_tab db))) = Some (pending_sends_tab db)"
    by (simp_all only: those_back event_row_back state_row_back pending_row_back)
  ultimately show ?thesis
    by (simp add: db_of_file_def token_back del: map_map)
qed

text \<open>Payloads are stored as their text.\<close>

definition row_payload :: "('s \<Rightarrow> 't) \<Rightarrow> 's event_row \<Rightarrow> 't event_row" where
  "row_payload f r =
     \<lparr> r_event_id = r_event_id r, r_room_id = r_room_id r, r_sender = r_sender r, r_type = r_type r,
       r_state_key = r_state_key r, r_ts = r_ts r, r_depth = r_depth r, r_payload = f (r_payload r),
       r_local = r_local r, r_decrypted = r_decrypted r, r_decrypt_state = r_decrypt_state r \<rparr>"

definition db_payload :: "('s \<Rightarrow> 't) \<Rightarrow> 's db \<Rightarrow> 't db" where
  "db_payload f d =
     \<lparr> sync_token = sync_token d, events = map (row_payload f) (events d), room_state = room_state d,
       pending_sends_tab = pending_sends_tab d \<rparr>"

definition read_payload :: "string \<Rightarrow> json" where
  "read_payload t = (case get_json t of Inr v \<Rightarrow> v | Inl _ \<Rightarrow> JNull)"

lemma db_payload_back: "db_payload read_payload (db_payload put_json d) = d"
proof -
  have "row_payload read_payload (row_payload put_json r) = r" for r
    by (simp add: row_payload_def read_payload_def get_put_json)
  then show ?thesis by (simp add: db_payload_def comp_def)
qed

definition open_test_store :: "disk \<Rightarrow> (json db \<times> disk \<Rightarrow> bool) \<Rightarrow> bool" where
  "open_test_store disk test =
     (case store_open (\<lambda>_. None) ''store.sqlite3'' disk of
        (Inr _, disk) \<Rightarrow>
          (case Option.bind (disk ''store.sqlite3'') db_of_file of
             None \<Rightarrow> False | Some store \<Rightarrow> test (db_payload read_payload store, disk))
      | _ \<Rightarrow> False)"

definition close_test_store :: "json db \<Rightarrow> disk \<Rightarrow> disk" where
  "close_test_store store disk =
     disk(''store.sqlite3'' := map_option (write_tables (db_payload put_json store)) (disk ''store.sqlite3''))"

definition fresh_file :: sqlite_file where
  "fresh_file = snd (store_init empty_file)"

lemma fresh_file: "store_init empty_file = (Inr (), fresh_file)" "schema_at 3 fresh_file"
  "sf_foreign_keys fresh_file" "sf_journal fresh_file = ''WAL''"
  by code_simp+

lemma write_tables_header:
  "sf_version (write_tables d f) = sf_version f" "sf_foreign_keys (write_tables d f) = sf_foreign_keys f"
  "sf_journal (write_tables d f) = sf_journal f" "sf_indexes (write_tables d f) = sf_indexes f"
proof -
  have p: "sf_version (put_rows n rs g) = sf_version g \<and> sf_foreign_keys (put_rows n rs g) = sf_foreign_keys g \<and>
      sf_journal (put_rows n rs g) = sf_journal g \<and> sf_indexes (put_rows n rs g) = sf_indexes g" for n rs g
    by (simp add: put_rows_def put_table_def split: option.split)
  then show "sf_version (write_tables d f) = sf_version f" "sf_foreign_keys (write_tables d f) = sf_foreign_keys f"
    "sf_journal (write_tables d f) = sf_journal f" "sf_indexes (write_tables d f) = sf_indexes f"
    by (simp_all add: write_tables_def)
qed

text \<open>A file in the current schema is opened as it is, so what was written is read back.\<close>

lemma open_fresh: "open_test_store (\<lambda>_. None) test \<longleftrightarrow> test (empty_db, (\<lambda>_. None)(''store.sqlite3'' := Some fresh_file))"
proof -
  have "db_of_file fresh_file = Some empty_db" by code_simp
  then show ?thesis
    by (simp add: open_test_store_def store_open_def fresh_file(1) map_err_def db_payload_def empty_db_def)
qed

lemma open_written:
  "open_test_store (close_test_store store ((\<lambda>_. None)(''store.sqlite3'' := Some fresh_file))) test \<longleftrightarrow>
     test (store, (\<lambda>_. None)(''store.sqlite3'' := Some (write_tables (db_payload put_json store) fresh_file)))"
proof -
  let ?f = "write_tables (db_payload put_json store) fresh_file"
  have v: "sf_version fresh_file = 3" using fresh_file(2) by (simp add: schema_at_def)
  have "store_init ?f = (Inr (), ?f)"
    using fresh_file(3,4) v
    by (simp add: store_init_def migrate_def bnd_def getA_def modA_def ret_def Let_def write_tables_header SCHEMA_VERSION_def)
  moreover have "db_of_file ?f = Some (db_payload put_json store)"
    by (rule db_of_write_tables [OF fresh_file(2)])
  ultimately show ?thesis
    by (simp add: open_test_store_def close_test_store_def store_open_def map_err_def db_payload_back)
qed

definition schema_persists_across_reopen :: bool where
  "schema_persists_across_reopen \<longleftrightarrow>
     open_test_store (\<lambda>_. None) (\<lambda>(store, disk).
     (let store = save_sync_token store ''7_3''
      in unwrap (apply_events id_codec store [test_message ''$a'' ''!r:s'' ''@u:s'' 1 100 ''persisted''])
           (\<lambda>(store, _).
         open_test_store (close_test_store store disk) (\<lambda>(store, _).
           load_sync_token store = Some ''7_3'' \<and>
           unwrap (timeline id_codec store ''!r:s'' 10 None) (\<lambda>tl. length tl = 1)))))"

lemma schema_persists_across_reopen: schema_persists_across_reopen
  unfolding schema_persists_across_reopen_def open_fresh prod.case open_written by code_simp

definition decrypt_cache_survives_reopen :: bool where
  "decrypt_cache_survives_reopen \<longleftrightarrow>
     open_test_store (\<lambda>_. None) (\<lambda>(store, disk).
     unwrap (apply_events id_codec store [test_encrypted ''$e1'' ''!r:s'' 1 ''CT1'']) (\<lambda>(store, _).
     (let store = set_decrypted store ''$e1'' ''persisted plaintext''
      in open_test_store (close_test_store store disk) (\<lambda>(store, _).
           unwrap (timeline id_codec store ''!r:s'' 10 None) (\<lambda>tl.
             ev_decrypted (tl ! 0) = Some ''persisted plaintext'') \<and>
           unwrap (pending_mls id_codec store) (\<lambda>items. pending_msgs items = [])))))"

lemma decrypt_cache_survives_reopen: decrypt_cache_survives_reopen
  unfolding decrypt_cache_survives_reopen_def open_fresh prod.case open_written by code_simp

end
