(* ===== verification/Engine_Tests.thy ===== *)
theory Engine_Tests
  imports Sym_Mls Store_Tests
begin

text \<open>
  The unit tests of \<open>core/src/e2ee.rs\<close>, translated and evaluated with the symbolic engine in the
  place of \<open>pigeon_crypto\<close>: they exercise the wrapper (key store, base64, errors) with two and three
  devices.  The same combinators serve the tests of the client.
\<close>

section \<open>Tests with several engines\<close>

text \<open>
  A test acts on the world of one client and on the engines it creates by name, which share the client's key
  store; the first failing step ends it.
\<close>

type_synonym 'w test_state =
  "('w, sym_device, (string \<times> bytes) list, json) world \<times> (string \<times> sym_device) list"

type_synonym ('w, 'a) test = "('w test_state, core_error, 'a) act"

definition on_client :: "('w, sym_device, (string \<times> bytes) list, json, 'a) client_act \<Rightarrow> ('w, 'a) test" where
  "on_client m = (\<lambda>(w, es). case m w of (r, w') \<Rightarrow> (r, (w', es)))"

definition on_engine :: "string \<Rightarrow> (sym_device, (string \<times> bytes) list, 'a) vault_act \<Rightarrow> ('w, 'a) test" where
  "on_engine name m = (\<lambda>(w, es).
     case m ((wd_vault w)\<lparr>vt_device := map_of es name\<rparr>) of (r, v) \<Rightarrow>
       (r, (w\<lparr>wd_vault := v\<lparr>vt_device := vt_device (wd_vault w)\<rparr>\<rparr>,
            (case vt_device v of None \<Rightarrow> es | Some d \<Rightarrow> (name, d) # es))))"

definition new_engine :: "string \<Rightarrow> string \<Rightarrow> ('w, unit) test" where
  "new_engine name user = (\<lambda>(w, es).
     case e2ee_create sym_crypto user (wd_vault w) of
       (Inl e, v) \<Rightarrow> (Inl e, (w\<lparr>wd_vault := v\<rparr>, es))
     | (Inr d, v) \<Rightarrow> (Inr (), (w\<lparr>wd_vault := v\<rparr>, (name, d) # es)))"

definition assert :: "bool \<Rightarrow> ('w, unit) test" where
  "assert b = (if b then ret () else raise (Crypto ''assertion failed''))"

text \<open>The step returns an error, and one the test expects.\<close>

definition fails_with :: "(core_error \<Rightarrow> bool) \<Rightarrow> ('w, 'a) test \<Rightarrow> ('w, unit) test" where
  "fails_with p m = catch m (\<lambda>r. case r of Inl e \<Rightarrow> assert (p e) | Inr _ \<Rightarrow> assert False)"

definition fails :: "('w, 'a) test \<Rightarrow> ('w, unit) test" where
  "fails m = fails_with (\<lambda>_. True) m"

definition passes :: "'w \<Rightarrow> (string \<times> bytes) list option \<Rightarrow> ('w, unit) test \<Rightarrow> bool" where
  "passes remote keys t =
     (case t ((sym_world remote None empty_db)\<lparr>wd_vault := \<lparr> vt_device = None, vt_keys = keys, vt_seed = 0 \<rparr>\<rparr>, []) of
        (Inr _, _) \<Rightarrow> True | _ \<Rightarrow> False)"

section \<open>The engine's tests\<close>

abbreviation C :: "(sym_device, string, (string \<times> bytes) list) crypto_env" where "C \<equiv> sym_crypto"

text \<open>The tests run with the texts on the wire and in the key store kept folded, by what reads them back.\<close>

lemma sym_crypto_fields [simp]:
  "env_mls sym_crypto = sym_mls" "env_b64 sym_crypto = sym_b64" "env_json sym_crypto = code_json" "env_ks sym_crypto = toy_ks"
  by (simp_all add: sym_crypto_def)

lemma code_json_reads [simp]: "jparse code_json (str_bytes (jprint code_json v)) = Inr v"
  by (rule code_json_roundtrip)

lemma take_put_device' [simp]: "take_device (put_device d) = Inr d"
  by (rule take_put_device)

lemma sym_b64_reads [simp]: "b64_decode sym_b64 (b64_encode sym_b64 bs) = Inr bs" "b64_encode sym_b64 bs \<noteq> []"
    "b64_encode sym_b64 bs = b64_encode sym_b64 bs' \<longleftrightarrow> bs = bs'"
    "b64_decode sym_b64 (CHR ''A'' # s) = Inr (str_bytes (CHR ''A'' # s))"
    "b64_decode sym_b64 (CHR ''!'' # s) = Inl ''invalid byte''"
proof -
  have "inj bytes_str" by (metis injI str_bytes_str)
  then show "b64_encode sym_b64 bs = b64_encode sym_b64 bs' \<longleftrightarrow> bs = bs'" by (simp add: sym_b64_def inj_eq)
qed (simp_all add: sym_b64_def)

lemma wire_inj [simp]: "wire xs = wire ys \<longleftrightarrow> xs = ys"
  by (metis option.inject unwire_wire)

text \<open>Text that does not start as a value is no message.\<close>

lemma no_wire [simp]: "c \<notin> set ''ntfpmdsao'' \<Longrightarrow> unwire (str_bytes (c # s)) = None"
  by (simp add: unwire_def get_json_def)

lemma no_wire_zeros [simp]: "unwire (replicate 32 0) = None" by code_simp

lemma tally_empty [simp]: "tally n = [] \<longleftrightarrow> n = 0" by (simp add: tally_def)

lemma str_bytes_empty [simp]: "str_bytes s = [] \<longleftrightarrow> s = []" by (simp add: str_bytes_def)

lemma nope_tag [simp]: "last (str_bytes ''nope'') \<noteq> 0" by code_simp

lemma from_utf8_ascii [simp]: "ascii s \<Longrightarrow> from_utf8 (str_bytes s) = Inr s"
  by (simp add: from_utf8_Inr ascii_utf8)

lemmas engine_defs = on_engine_def new_engine_def on_client_def assert_def fails_with_def fails_def
  bnd_def catch_def map_errA_def getA_def modA_def e2ee_create_def e2ee_restore_def install_engine_def e2ee_clear_def
  signature_public_key_b64_def key_packages_def last_resort_key_package_def has_group_def create_group_def
  add_member_def process_commit_def join_from_welcome_def encrypt_def decrypt_def create_backup_def
  restore_from_backup_def draw_def the_device_def set_device_def on_device_def persist_def persist_current_def
  ks_call_def ks_put_def ks_get_def ks_delete_def load_group_def decode_wire_def decode_field_def stored_state_def
  ok_or_def ascii_def jindex_def toy_ks_def core_of_crypto_def

lemmas sym_defs = sym_mls_def sym_package_def sym_add_def sym_commit_def sym_join_def sym_encrypt_def sym_decrypt_def
  epoch_of_def set_epoch_def

definition create_persists_and_restore_recovers_the_same_identity :: "(unit, unit) test" where
  "create_persists_and_restore_recovers_the_same_identity =
     bnd (new_engine ''engine'' ''@alice:test.example'') (\<lambda>_.
     bnd (on_engine ''engine'' (signature_public_key_b64 C)) (\<lambda>pubkey.
     bnd (assert (pubkey \<noteq> [])) (\<lambda>_.
     bnd (on_engine ''engine'' (e2ee_restore C ''@alice:test.example'')) (\<lambda>restored.
     (case restored of
        None \<Rightarrow> assert False
      | Some d \<Rightarrow>
          bnd (on_engine ''restored'' (install_engine (Some d))) (\<lambda>_.
          bnd (on_engine ''restored'' (signature_public_key_b64 C)) (\<lambda>pk. assert (pk = pubkey))))))))"

lemma create_persists_and_restore_recovers_the_same_identity:
  "passes () (Some []) create_persists_and_restore_recovers_the_same_identity"
  by (simp add: passes_def create_persists_and_restore_recovers_the_same_identity_def engine_defs sym_defs)

definition restore_with_no_state_is_none :: "(unit, unit) test" where
  "restore_with_no_state_is_none =
     bnd (on_engine ''engine'' (e2ee_restore C ''@nobody:test.example'')) (\<lambda>r. assert (r = None))"

lemma restore_with_no_state_is_none: "passes () (Some []) restore_with_no_state_is_none"
  by (simp add: passes_def restore_with_no_state_is_none_def engine_defs)

definition key_packages_are_distinct_and_persist :: "(unit, unit) test" where
  "key_packages_are_distinct_and_persist =
     bnd (new_engine ''engine'' ''@alice:test.example'') (\<lambda>_.
     bnd (on_engine ''engine'' (key_packages C 3)) (\<lambda>kps.
     bnd (assert (length kps = 3)) (\<lambda>_.
     bnd (assert (kps ! 0 \<noteq> kps ! 1)) (\<lambda>_.
     bnd (assert (kps ! 1 \<noteq> kps ! 2)) (\<lambda>_.
     bnd (on_engine ''engine'' (e2ee_restore C ''@alice:test.example'')) (\<lambda>restored.
     (case restored of
        None \<Rightarrow> assert False
      | Some d \<Rightarrow>
          bnd (on_engine ''restored'' (install_engine (Some d))) (\<lambda>_.
          bnd (on_engine ''restored'' (signature_public_key_b64 C)) (\<lambda>pk.
          bnd (on_engine ''engine'' (signature_public_key_b64 C)) (\<lambda>pubkey.
          assert (pk = pubkey)))))))))))"

lemma key_packages_are_distinct_and_persist: "passes () (Some []) key_packages_are_distinct_and_persist"
  by (simp add: passes_def key_packages_are_distinct_and_persist_def engine_defs sym_defs upt_conv_Cons)

definition is_storage :: "core_error \<Rightarrow> bool" where
  "is_storage e = (case e of Storage _ \<Rightarrow> True | _ \<Rightarrow> False)"

definition is_crypto :: "core_error \<Rightarrow> bool" where
  "is_crypto e = (case e of Crypto _ \<Rightarrow> True | _ \<Rightarrow> False)"

lemma not_json [simp]: "jparse code_json (str_bytes ''not json'') = Inl ''invalid JSON''"
  by (simp add: code_json_def get_json_def)

definition restore_rejects_corrupt_state :: "(unit, unit) test" where
  "restore_rejects_corrupt_state =
     bnd (on_engine ''store'' (ks_put C MLS_STATE_KEY (str_bytes ''not json''))) (\<lambda>_.
     fails_with is_storage (on_engine ''engine'' (e2ee_restore C ''@alice:test.example'')))"

lemma restore_rejects_corrupt_state: "passes () (Some []) restore_rejects_corrupt_state"
  by (simp add: passes_def restore_rejects_corrupt_state_def engine_defs sym_defs is_storage_def)

definition group_welcome_round_trip_establishes_shared_membership :: "(unit, unit) test" where
  "group_welcome_round_trip_establishes_shared_membership =
     bnd (new_engine ''alice'' ''@alice:test.example'') (\<lambda>_.
     bnd (new_engine ''bob'' ''@bob:test.example'') (\<lambda>_.
     bnd (on_engine ''bob'' (key_packages C 1)) (\<lambda>kps.
     bnd (on_engine ''alice'' (create_group C ''!room:test.example'')) (\<lambda>_.
     bnd (on_engine ''alice'' (has_group C ''!room:test.example'')) (\<lambda>a.
     bnd (on_engine ''bob'' (has_group C ''!room:test.example'')) (\<lambda>b.
     bnd (assert (a \<and> \<not> b)) (\<lambda>_.
     bnd (on_engine ''alice'' (add_member C ''!room:test.example'' (kps ! 0))) (\<lambda>outcome.
     bnd (on_engine ''bob'' (join_from_welcome C (ao_welcome outcome))) (\<lambda>_.
     bnd (on_engine ''bob'' (has_group C ''!room:test.example'')) (\<lambda>b. assert b))))))))))"

lemma group_welcome_round_trip_establishes_shared_membership: "passes () (Some []) group_welcome_round_trip_establishes_shared_membership"
  by (simp add: passes_def group_welcome_round_trip_establishes_shared_membership_def engine_defs sym_defs)

definition last_resort_key_package_is_usable_for_a_join :: "(unit, unit) test" where
  "last_resort_key_package_is_usable_for_a_join =
     bnd (new_engine ''alice'' ''@alice:test.example'') (\<lambda>_.
     bnd (new_engine ''bob'' ''@bob:test.example'') (\<lambda>_.
     bnd (on_engine ''bob'' (last_resort_key_package C)) (\<lambda>bob_lr.
     bnd (on_engine ''alice'' (create_group C ''!room:test.example'')) (\<lambda>_.
     bnd (on_engine ''alice'' (add_member C ''!room:test.example'' bob_lr)) (\<lambda>outcome.
     bnd (on_engine ''bob'' (join_from_welcome C (ao_welcome outcome))) (\<lambda>_.
     bnd (on_engine ''bob'' (has_group C ''!room:test.example'')) (\<lambda>b.
     bnd (assert b) (\<lambda>_.
     bnd (on_engine ''alice'' (encrypt C ''!room:test.example'' ''via last resort'')) (\<lambda>ct.
     bnd (on_engine ''bob'' (decrypt C ''!room:test.example'' ct)) (\<lambda>pt. assert (pt = ''via last resort'')))))))))))"

lemma last_resort_key_package_is_usable_for_a_join: "passes () (Some []) last_resort_key_package_is_usable_for_a_join"
  by (simp add: passes_def last_resort_key_package_is_usable_for_a_join_def engine_defs sym_defs)

text \<open>Alice hosts the group and Bob joins it from a Welcome.\<close>

definition alice_and_bob :: "(unit, unit) test" where
  "alice_and_bob =
     bnd (on_engine ''bob'' (key_packages C 1)) (\<lambda>kps.
     bnd (on_engine ''alice'' (create_group C ''!room:test.example'')) (\<lambda>_.
     bnd (on_engine ''alice'' (add_member C ''!room:test.example'' (kps ! 0))) (\<lambda>outcome.
     on_engine ''bob'' (join_from_welcome C (ao_welcome outcome)))))"

definition encrypt_decrypt_round_trip_and_negatives :: "(unit, unit) test" where
  "encrypt_decrypt_round_trip_and_negatives =
     bnd (new_engine ''alice'' ''@alice:test.example'') (\<lambda>_.
     bnd (new_engine ''bob'' ''@bob:test.example'') (\<lambda>_.
     bnd (new_engine ''carol'' ''@carol:test.example'') (\<lambda>_.
     bnd alice_and_bob (\<lambda>_.
     bnd (on_engine ''alice'' (encrypt C ''!room:test.example'' ''hello bob'')) (\<lambda>ct.
     bnd (on_engine ''bob'' (decrypt C ''!room:test.example'' ct)) (\<lambda>pt.
     bnd (assert (pt = ''hello bob'')) (\<lambda>_.
     bnd (fails (on_engine ''carol'' (decrypt C ''!room:test.example'' ct))) (\<lambda>_.
     bnd (fails (on_engine ''carol'' (encrypt C ''!room:test.example'' ''sneak''))) (\<lambda>_.
     bnd (fails (on_engine ''bob'' (decrypt C ''!room:test.example'' (CHR ''A'' # ct)))) (\<lambda>_.
     fails (on_engine ''bob'' (decrypt C ''!room:test.example'' (b64_encode (env_b64 C) (str_bytes ''garbage''))))))))))))))"

lemma encrypt_decrypt_round_trip_and_negatives: "passes () (Some []) encrypt_decrypt_round_trip_and_negatives"
  by (simp add: passes_def encrypt_decrypt_round_trip_and_negatives_def engine_defs sym_defs alice_and_bob_def)

definition third_member_commit_keeps_earlier_member_in_sync :: "(unit, unit) test" where
  "third_member_commit_keeps_earlier_member_in_sync =
     bnd (new_engine ''alice'' ''@alice:test.example'') (\<lambda>_.
     bnd (new_engine ''bob'' ''@bob:test.example'') (\<lambda>_.
     bnd (new_engine ''carol'' ''@carol:test.example'') (\<lambda>_.
     bnd alice_and_bob (\<lambda>_.
     bnd (on_engine ''carol'' (key_packages C 1)) (\<lambda>kps.
     bnd (on_engine ''alice'' (add_member C ''!room:test.example'' (kps ! 0))) (\<lambda>add_carol.
     bnd (on_engine ''carol'' (join_from_welcome C (ao_welcome add_carol))) (\<lambda>_.
     bnd (fails (on_engine ''alice'' (process_commit C ''!room:test.example'' (ao_commit add_carol)))) (\<lambda>_.
     bnd (fails (on_engine ''carol'' (process_commit C ''!room:test.example'' (ao_commit add_carol)))) (\<lambda>_.
     bnd (on_engine ''alice'' (encrypt C ''!room:test.example'' ''hi all'')) (\<lambda>ct.
     bnd (fails (on_engine ''bob'' (decrypt C ''!room:test.example'' ct))) (\<lambda>_.
     bnd (on_engine ''bob'' (process_commit C ''!room:test.example'' (ao_commit add_carol))) (\<lambda>_.
     bnd (on_engine ''bob'' (decrypt C ''!room:test.example'' ct)) (\<lambda>pt.
     bnd (assert (pt = ''hi all'')) (\<lambda>_.
     bnd (on_engine ''carol'' (decrypt C ''!room:test.example'' ct)) (\<lambda>pt.
     bnd (assert (pt = ''hi all'')) (\<lambda>_.
     fails (on_engine ''bob'' (process_commit C ''!room:test.example'' (b64_encode (env_b64 C) (str_bytes ''garbage''))))))))))))))))))))"

lemma third_member_commit_keeps_earlier_member_in_sync: "passes () (Some []) third_member_commit_keeps_earlier_member_in_sync"
  by (simp add: passes_def third_member_commit_keeps_earlier_member_in_sync_def engine_defs sym_defs alice_and_bob_def)

definition join_from_garbage_welcome_fails_cleanly :: "(unit, unit) test" where
  "join_from_garbage_welcome_fails_cleanly =
     bnd (new_engine ''bob'' ''@bob:test.example'') (\<lambda>_.
     bnd (fails_with is_crypto (on_engine ''bob'' (join_from_welcome C ''!!!not base64!!!''))) (\<lambda>_.
     fails_with is_crypto (on_engine ''bob'' (join_from_welcome C (b64_encode (env_b64 C) (str_bytes ''garbage''))))))"

lemma join_from_garbage_welcome_fails_cleanly: "passes () (Some []) join_from_garbage_welcome_fails_cleanly"
  by (simp add: passes_def join_from_garbage_welcome_fails_cleanly_def engine_defs sym_defs is_crypto_def)

text \<open>The tampered blob: its last byte flipped.\<close>

definition tampered :: "string \<Rightarrow> string" where
  "tampered blob = (case b64_decode (env_b64 C) blob of
     Inl _ \<Rightarrow> blob | Inr bs \<Rightarrow> b64_encode (env_b64 C) (butlast bs @ [xor (last bs) 0xff]))"

definition backup_restores_groups_and_rejects_wrong_recovery_key :: "(unit, unit) test" where
  "backup_restores_groups_and_rejects_wrong_recovery_key =
     bnd (new_engine ''alice'' ''@alice:test.example'') (\<lambda>_.
     bnd (on_engine ''alice'' (create_group C ''!room:test.example'')) (\<lambda>_.
     bnd (on_engine ''alice'' (create_backup C)) (\<lambda>(recovery_key, blob).
     bnd (new_engine ''restored'' ''@alice:test.example'') (\<lambda>_.
     bnd (on_engine ''restored'' (has_group C ''!room:test.example'')) (\<lambda>h.
     bnd (assert (\<not> h)) (\<lambda>_.
     bnd (on_engine ''restored'' (restore_from_backup C recovery_key blob)) (\<lambda>_.
     bnd (on_engine ''restored'' (has_group C ''!room:test.example'')) (\<lambda>h.
     bnd (assert h) (\<lambda>_.
     bnd (new_engine ''other'' ''@alice:test.example'') (\<lambda>_.
     bnd (fails (on_engine ''other'' (restore_from_backup C (b64_encode (env_b64 C) (replicate 32 0)) blob))) (\<lambda>_.
     bnd (fails (on_engine ''restored'' (restore_from_backup C recovery_key (b64_encode (env_b64 C) (str_bytes ''nope''))))) (\<lambda>_.
     fails (on_engine ''restored'' (restore_from_backup C recovery_key (tampered blob)))))))))))))))"

lemma backup_restores_groups_and_rejects_wrong_recovery_key: "passes () (Some []) backup_restores_groups_and_rejects_wrong_recovery_key"
  by (simp add: passes_def backup_restores_groups_and_rejects_wrong_recovery_key_def engine_defs sym_defs tampered_def)

definition clear_removes_persisted_state :: "(unit, unit) test" where
  "clear_removes_persisted_state =
     bnd (new_engine ''engine'' ''@alice:test.example'') (\<lambda>_.
     bnd (on_engine ''engine'' (e2ee_restore C ''@alice:test.example'')) (\<lambda>r.
     bnd (assert (r \<noteq> None)) (\<lambda>_.
     bnd (on_engine ''engine'' (e2ee_clear C)) (\<lambda>_.
     bnd (on_engine ''engine'' (e2ee_restore C ''@alice:test.example'')) (\<lambda>r. assert (r = None))))))"

lemma clear_removes_persisted_state: "passes () (Some []) clear_removes_persisted_state"
  by (simp add: passes_def clear_removes_persisted_state_def engine_defs sym_defs)

end
