(* ===== verification/Http_Tests.thy ===== *)
theory Http_Tests
  imports Engine_Tests
begin

text \<open>
  The unit tests of \<open>core/src/api.rs\<close>, \<open>keys.rs\<close>, \<open>media.rs\<close> and \<open>lib.rs\<close>, translated as in \<open>Store_Tests\<close>, and
  the mock server that the tests of the client use as well: a list of mocks, each a condition on the
  request and the status and JSON body of its reply.  The first mock that matches answers, a request that
  no mock matches gets an empty 404.  The requests received are those the network logged.
\<close>

section \<open>The mock server\<close>

type_synonym mock = "(request \<Rightarrow> bool) \<times> 16 word \<times> json"

definition SERVER :: string where "SERVER = ''http://h''"

definition to_path :: "http_method \<Rightarrow> string \<Rightarrow> request \<Rightarrow> bool" where
  "to_path m p rq \<longleftrightarrow> rq_method rq = m \<and> rq_url rq = SERVER @ p"

definition with_json :: "json \<Rightarrow> request \<Rightarrow> bool" where
  "with_json b rq \<longleftrightarrow> rq_body rq = JsonBody b"

definition to_prefix :: "http_method \<Rightarrow> string \<Rightarrow> request \<Rightarrow> bool" where
  "to_prefix m p rq \<longleftrightarrow> rq_method rq = m \<and> strip_prefix (SERVER @ p) (rq_url rq) \<noteq> None"

fun answer :: "mock list \<Rightarrow> request \<Rightarrow> http_reply" where
  "answer [] rq = \<lparr> rp_status = 404, rp_json = None, rp_bytes = Inr [] \<rparr>"
| "answer ((p, status, body) # ms) rq =
     (if p rq then \<lparr> rp_status = status, rp_json = Some body, rp_bytes = Inr [] \<rparr> else answer ms rq)"

definition mock_server :: "mock list \<Rightarrow> 'w server" where
  "mock_server ms = (\<lambda>rq w. (Inr (answer ms rq), w))"

text \<open>The outcome of a call on a fresh connection: its value and the requests made.\<close>

definition calls :: "(unit net, 'e, 'a) act \<Rightarrow> ('a \<Rightarrow> request list \<Rightarrow> bool) \<Rightarrow> bool" where
  "calls m test = (case m \<lparr> net_remote = (), net_log = [] \<rparr> of
     (Inl _, _) \<Rightarrow> False | (Inr a, n) \<Rightarrow> test a (net_log n))"

definition starts_with :: "string \<Rightarrow> string \<Rightarrow> bool" where
  "starts_with s p \<longleftrightarrow> strip_prefix p s \<noteq> None"

definition test_hash :: hash_fun where
  "test_hash v = (case v of JStr s \<Rightarrow> Inr (str_bytes s) | _ \<Rightarrow> Inl ''not a string'')"

definition json_of_body :: "req_body \<Rightarrow> json" where
  "json_of_body b = (case b of JsonBody v \<Rightarrow> v | _ \<Rightarrow> JNull)"

section \<open>The HTTP client\<close>

definition upload_keys_flags_the_last_resort_package :: bool where
  "upload_keys_flags_the_last_resort_package \<longleftrightarrow>
     (let server = mock_server [(to_path POST ''/_pigeon/client/v1/keys/upload'', 200,
            JObj [(''key_package_count'', json_u64 2)])]
      in unwrap (api_new (Inr ()) SERVER (Some ''tok'')) (\<lambda>api.
         calls (upload_keys server test_hash api ''DEV1'' ''cHVia2V5'' [''cGtnLW9uZQ=='', ''cGtnLXR3bw=='']
             (Some ''bGFzdC1yZXNvcnQ='')) (\<lambda>count requests.
           count = 2 \<and>
           (case as_array (jindex (json_of_body (rq_body (hd requests))) ''key_packages'') of
              None \<Rightarrow> False
            | Some packages \<Rightarrow>
                length packages = 3 \<and> jindex (packages ! 0) ''last_resort'' = JBool False \<and>
                jindex (packages ! 1) ''last_resort'' = JBool False \<and>
                jindex (packages ! 2) ''last_resort'' = JBool True \<and>
                jindex (packages ! 2) ''package'' = JStr ''bGFzdC1yZXNvcnQ='' \<and>
                list_all (\<lambda>p. case as_str (jindex p ''key_id'') of None \<Rightarrow> False | Some k \<Rightarrow> starts_with k ''kp-'')
                  packages))))"

lemma upload_keys_flags_the_last_resort_package: upload_keys_flags_the_last_resort_package
  by code_simp

definition key_package_id_is_content_addressed :: bool where
  "key_package_id_is_content_addressed \<longleftrightarrow>
     key_package_id test_hash ''AAAApkg'' 0 = key_package_id test_hash ''AAAApkg'' 3 \<and>
     key_package_id test_hash ''pkg-one'' 0 \<noteq> key_package_id test_hash ''pkg-two'' 0 \<and>
     starts_with (key_package_id test_hash ''anything'' 0) ''kp-''"

lemma key_package_id_is_content_addressed: key_package_id_is_content_addressed
  by code_simp

definition known_error_codes_round_trip :: bool where
  "known_error_codes_round_trip \<longleftrightarrow>
     list_all (\<lambda>wire. code_as_str (code_from_wire wire) = wire)
       [''P_FORBIDDEN'', ''P_UNKNOWN_TOKEN'', ''P_MISSING_TOKEN'', ''P_BAD_JSON'', ''P_NOT_JSON'', ''P_NOT_FOUND'',
        ''P_LIMIT_EXCEEDED'', ''P_BAD_SIGNATURE'', ''P_UNRECOGNIZED'', ''P_USER_IN_USE'', ''P_INVALID_USERNAME'',
        ''P_UNKNOWN'']"

lemma known_error_codes_round_trip: known_error_codes_round_trip
  by code_simp

definition unknown_error_code_is_preserved_verbatim :: bool where
  "unknown_error_code_is_preserved_verbatim \<longleftrightarrow>
     (let code = code_from_wire ''P_SOME_FUTURE_CODE''
      in code = OtherCode ''P_SOME_FUTURE_CODE'' \<and> code_as_str code = ''P_SOME_FUTURE_CODE'')"

lemma unknown_error_code_is_preserved_verbatim: unknown_error_code_is_preserved_verbatim
  by code_simp

definition parse_error_extracts_typed_code_and_message :: bool where
  "parse_error_extracts_typed_code_and_message \<longleftrightarrow>
     (case parse_error 403 (JObj [(''errcode'', JStr ''P_USER_IN_USE''), (''error'', JStr ''user already exists: @a:x'')]) of
        ServerErr status code m \<Rightarrow> status = 403 \<and> code = UserInUse \<and> m = ''user already exists: @a:x''
      | _ \<Rightarrow> False)"

lemma parse_error_extracts_typed_code_and_message: parse_error_extracts_typed_code_and_message
  by code_simp

definition parse_error_tolerates_missing_body_fields :: bool where
  "parse_error_tolerates_missing_body_fields \<longleftrightarrow>
     (case parse_error 500 JNull of
        ServerErr status code m \<Rightarrow> status = 500 \<and> code = Unknown \<and> m = ''(no error message)''
      | _ \<Rightarrow> False)"

lemma parse_error_tolerates_missing_body_fields: parse_error_tolerates_missing_body_fields
  by code_simp

definition is_transient_covers_network_and_rate_limit_only :: bool where
  "is_transient_covers_network_and_rate_limit_only \<longleftrightarrow>
     (let server = (\<lambda>code. ServerErr 0 code [])
      in is_transient (NetworkErr ''x'') \<and> is_transient (server LimitExceeded) \<and>
         \<not> is_transient (server UnknownToken) \<and> \<not> is_transient (server Forbidden) \<and>
         \<not> is_transient (MalformedErr ''x''))"

lemma is_transient_covers_network_and_rate_limit_only: is_transient_covers_network_and_rate_limit_only
  by code_simp

definition parse_auth_reads_all_three_fields :: bool where
  "parse_auth_reads_all_three_fields \<longleftrightarrow>
     unwrap (parse_auth (JObj [(''user_id'', JStr ''@alice:pigeon.example''), (''device_id'', JStr ''ABCD1234''),
         (''access_token'', JStr ''secret-token'')])) (\<lambda>auth.
       ar_user_id auth = ''@alice:pigeon.example'' \<and> ar_device_id auth = ''ABCD1234'' \<and>
       ar_access_token auth = ''secret-token'')"

lemma parse_auth_reads_all_three_fields: parse_auth_reads_all_three_fields
  by code_simp

definition parse_auth_rejects_missing_field :: bool where
  "parse_auth_rejects_missing_field \<longleftrightarrow>
     (case parse_auth (JObj [(''user_id'', JStr ''@a:x''), (''device_id'', JStr ''D1'')]) of
        Inl (MalformedErr reason) \<Rightarrow> text_contains reason ''access_token''
      | _ \<Rightarrow> False)"

lemma parse_auth_rejects_missing_field: parse_auth_rejects_missing_field
  by code_simp

definition base_url_trailing_slash_is_normalized :: bool where
  "base_url_trailing_slash_is_normalized \<longleftrightarrow>
     normalize_base ''https://pigeon.example/'' = ''https://pigeon.example'' \<and>
     normalize_base ''https://pigeon.example'' = ''https://pigeon.example'' \<and>
     join_url (normalize_base ''https://pigeon.example/'') ''/_pigeon/client/v1/sync''
       = ''https://pigeon.example/_pigeon/client/v1/sync''"

lemma base_url_trailing_slash_is_normalized: base_url_trailing_slash_is_normalized
  by code_simp

section \<open>The key directory\<close>

text \<open>The entry of a published device.\<close>

definition device_entry :: "string \<Rightarrow> string \<Rightarrow> json" where
  "device_entry user device = JObj [(''user_id'', JStr user), (''device_id'', JStr device),
     (''algorithms'', JArr [JStr ''p.mls.1'']), (''keys'', JObj []), (''signatures'', JObj [])]"

definition claims_a_key_package_from_each_published_device :: bool where
  "claims_a_key_package_from_each_published_device \<longleftrightarrow>
     (let server = mock_server
        [((\<lambda>rq. to_path POST ''/_pigeon/client/v1/keys/query'' rq \<and>
             with_json (JObj [(''device_keys'', JObj [(''@bob:test.example'', JArr [])])]) rq), 200,
           JObj [(''device_keys'', JObj [(''@bob:test.example'', JObj
             [(''DEV1'', device_entry ''@bob:test.example'' ''DEV1''),
              (''DEV2'', device_entry ''@bob:test.example'' ''DEV2'')])])]),
         ((\<lambda>rq. to_path POST ''/_pigeon/client/v1/keys/claim'' rq \<and>
             with_json (JObj [(''one_time_keys'', JObj [(''@bob:test.example'', JArr [JStr ''DEV1''])])]) rq), 200,
           JObj [(''one_time_keys'', JObj [(''@bob:test.example'', JObj [(''DEV1'', JObj
             [(''key_id'', JStr ''kp-0''), (''package'', JStr ''AAAA'')])])])]),
         ((\<lambda>rq. to_path POST ''/_pigeon/client/v1/keys/claim'' rq \<and>
             with_json (JObj [(''one_time_keys'', JObj [(''@bob:test.example'', JArr [JStr ''DEV2''])])]) rq), 200,
           JObj [(''one_time_keys'', JObj [(''@bob:test.example'', JObj [])])])]
      in unwrap (api_new (Inr ()) SERVER (Some ''tok'')) (\<lambda>api.
         calls (claim_all_devices server api ''@bob:test.example'') (\<lambda>claimed requests.
           length claimed = 1 \<and> ck_device_id (claimed ! 0) = ''DEV1'' \<and> ck_key_package_b64 (claimed ! 0) = ''AAAA'')))"

lemma claims_a_key_package_from_each_published_device: claims_a_key_package_from_each_published_device
  by code_simp

definition no_published_keys_yields_empty :: bool where
  "no_published_keys_yields_empty \<longleftrightarrow>
     (let server = mock_server [(to_path POST ''/_pigeon/client/v1/keys/query'', 200,
            JObj [(''device_keys'', JObj [])])]
      in unwrap (api_new (Inr ()) SERVER (Some ''tok'')) (\<lambda>api.
         calls (claim_all_devices server api ''@nobody:test.example'') (\<lambda>claimed requests. claimed = [])))"

lemma no_published_keys_yields_empty: no_published_keys_yields_empty
  by code_simp

section \<open>Content URIs\<close>

definition parses_a_valid_content_uri :: bool where
  "parses_a_valid_content_uri \<longleftrightarrow>
     unwrap (parse_content_uri ''pigeon://pigeon.example/AbC123'') (\<lambda>(server, media_id).
       server = ''pigeon.example'' \<and> media_id = ''AbC123'')"

lemma parses_a_valid_content_uri: parses_a_valid_content_uri
  by code_simp

definition rejects_malformed_uris :: bool where
  "rejects_malformed_uris \<longleftrightarrow>
     list_all (\<lambda>bad. case parse_content_uri bad of Inl (Protocol _) \<Rightarrow> True | _ \<Rightarrow> False)
       [''https://pigeon.example/x'', ''pigeon://pigeon.example'', ''pigeon:///AbC123'', ''pigeon://pigeon.example/'',
        ''pigeon://pigeon.example/a/b'']"

lemma rejects_malformed_uris: rejects_malformed_uris
  by code_simp

section \<open>The crate's entry points\<close>

definition version_is_reported :: bool where
  "version_is_reported \<longleftrightarrow> starts_with core_version ''pigeon-mobile-core''"

lemma version_is_reported: version_is_reported
  by code_simp

definition crypto_engine_links_and_runs :: "(unit, unit) test" where
  "crypto_engine_links_and_runs =
     bnd (on_client (self_test_crypto (sym_env None (mock_server [])) ''@m0:test.example'')) (\<lambda>len.
     assert (len = 32))"

lemma crypto_engine_links_and_runs: "passes () (Some []) crypto_engine_links_and_runs"
  by (simp add: passes_def crypto_engine_links_and_runs_def engine_defs sym_defs self_test_crypto_def sym_env_def
      on_vault_def sym_world_def)

definition captured :: "('w, string list) test" where
  "captured = (\<lambda>s. (Inr (case wd_sink (fst s) of None \<Rightarrow> []
     | Some ls \<Rightarrow> map (\<lambda>l. lg_target l @ '': '' @ lg_message l) ls), s))"

definition log_sink_callback_round_trips :: "(unit, unit) test" where
  "log_sink_callback_round_trips =
     bnd (on_client (set_log_sink [])) (\<lambda>_.
     bnd (on_client (emit_test_log ''hello from rust'')) (\<lambda>_.
     bnd captured (\<lambda>lines.
     bnd (assert (length lines = 1)) (\<lambda>_.
     assert (lines ! 0 = ''pigeon_mobile_core: hello from rust'')))))"

lemma log_sink_callback_round_trips: "passes () (Some []) log_sink_callback_round_trips"
  by (simp add: passes_def log_sink_callback_round_trips_def engine_defs set_log_sink_def emit_test_log_def
      log_emit_def emit_def captured_def sym_world_def)

end
