(* ===== verification/Client_Tests.thy ===== *)
theory Client_Tests
  imports Http_Tests
begin

text \<open>
  Tests that run a whole client: a log-in against the mock server, in an environment whose engine is the
  symbolic one and whose store is in memory, and the unit tests of \<open>core/src/sync.rs\<close>.  The test's client
  is evaluated step by step, with texts and packages kept folded.
\<close>

section \<open>A client that is logged in\<close>

definition login_mock :: "string \<Rightarrow> mock" where
  "login_mock user = (to_path POST ''/_pigeon/client/v1/login'', 200,
     JObj [(''user_id'', JStr user), (''device_id'', JStr ''D''), (''access_token'', JStr ''tok'')])"

definition test_env :: "mock list \<Rightarrow> ('w, sym_device, string, (string \<times> bytes) list, json) client_env" where
  "test_env ms = sym_env None (mock_server ms)"

definition test_login :: "string \<Rightarrow> ('w, pigeon_client) test" where
  "test_login user = on_client (client_login (test_env [login_mock user]) SERVER ''name'' ''p'')"

definition test_client :: "string \<Rightarrow> pigeon_client" where
  "test_client user = \<lparr> cl_api = \<lparr> api_base = ''http://h'', api_token = Some ''tok'' \<rparr>,
     cl_session = \<lparr> ss_user_id = user, ss_device_id = ''D'', ss_server = ''http://h'' \<rparr>, cl_store = InMemory 1 \<rparr>"

text \<open>What the log-in leaves: its two requests, the device with its published keys, and the world.\<close>

definition login_request :: request where
  "login_request = \<lparr> rq_method = POST, rq_url = ''http://h/_pigeon/client/v1/login'', rq_bearer = None, rq_query = [],
     rq_body = JsonBody (JObj [(''type'', JStr ''p.login.password''), (''user'', JStr ''name''), (''password'', JStr ''p'')]),
     rq_timeout_ms = None \<rparr>"

definition login_device :: "string \<Rightarrow> sym_device" where
  "login_device user = \<lparr> sd_user = user, sd_id = 0, sd_next = 6, sd_keys = [0, 1, 2, 3, 4], sd_reusable = [5],
     sd_groups = [], sd_seen = [] \<rparr>"

definition publish_request :: "string \<Rightarrow> request" where
  "publish_request user = \<lparr> rq_method = POST, rq_url = ''http://h/_pigeon/client/v1/keys/upload'', rq_bearer = Some ''tok'', rq_query = [],
     rq_body = JsonBody (upload_body test_hash ''D'' (b64_encode sym_b64 (m_pubkey sym_mls (login_device user)))
       (map (\<lambda>i. b64_encode sym_b64 (sym_package (login_device user) i)) [0..<5])
       (Some (b64_encode sym_b64 (sym_package (login_device user) 5)))),
     rq_timeout_ms = None \<rparr>"

lemmas login_defs = client_login_def finish_login_def create_engine_def publish_device_keys_def open_store_def
  call_api_def on_net_def on_vault_def log_emit_def has_engine_def login_def upload_keys_def
  api_new_def post_def send_def req_def exchange_def is_success_def parse_error_def parse_auth_def set_token_def
  normalize_base_def trim_end_matches_def join_url_def 
  mock_server_def login_mock_def to_path_def SERVER_def sym_env_def test_env_def

definition logged_in :: "'w \<Rightarrow> string \<Rightarrow> ('w, sym_device, (string \<times> bytes) list, json) world" where
  "logged_in remote user = \<lparr> wd_net = \<lparr> net_remote = remote, net_log = [login_request, publish_request user] \<rparr>,
     wd_vault = \<lparr> vt_device = Some (login_device user), vt_keys = None, vt_seed = 1 \<rparr>, wd_stores = (\<lambda>_. empty_db),
     wd_memory_stores = 2, wd_sink = None, wd_ticks = 0, wd_send_counter = 0, wd_txn_counter = 0,
     wd_observer = [], wd_sleeps = [] \<rparr>"

lemma test_login_run:
  "test_login user ((sym_world remote None empty_db)\<lparr>wd_vault := \<lparr> vt_device = None, vt_keys = None, vt_seed = 0 \<rparr>\<rparr>, [])
     = (Inr (test_client user), (logged_in remote user, []))"
  by (simp add: test_login_def login_defs engine_defs sym_defs sym_world_def KEY_PACKAGE_COUNT_def upt_conv_Cons emit_def Let_def
   logged_in_def test_client_def login_device_def login_request_def publish_request_def fun_upd_idem test_hash_def [abs_def])

lemma passes_login: "passes remote None (bnd (test_login user) f) =
    (case f (test_client user) (logged_in remote user, []) of (Inr _, _) \<Rightarrow> True | _ \<Rightarrow> False)"
  by (simp add: passes_def bnd_def test_login_run)

lemma logged_in_parts [simp]:
  "wd_vault (logged_in remote user) = \<lparr> vt_device = Some (login_device user), vt_keys = None, vt_seed = 1 \<rparr>"
  "wd_stores (logged_in remote user) s = empty_db" "wd_sink (logged_in remote user) = None"
  "net_remote (wd_net (logged_in remote user)) = remote"
  "net_log (wd_net (logged_in remote user)) = [login_request, publish_request user]"
  "wd_ticks (logged_in remote user) = 0" "wd_send_counter (logged_in remote user) = 0" "wd_txn_counter (logged_in remote user) = 0"
  by (simp_all add: logged_in_def)

lemma test_client_parts [simp]:
  "cl_store (test_client user) = InMemory 1" "ss_user_id (cl_session (test_client user)) = user"
  "api_base (cl_api (test_client user)) = ''http://h''" "api_token (cl_api (test_client user)) = Some ''tok''"
  "ss_device_id (cl_session (test_client user)) = ''D''"
  by (simp_all add: test_client_def)

lemma test_env_parts [simp]:
  "ce_codec (test_env ms) = id_codec" "ce_crypto (test_env ms) = sym_crypto" "ce_server (test_env ms) = mock_server ms"
  "ce_clock (test_env ms) = (\<lambda>n. 1 + int n)"
  by (simp_all add: test_env_def sym_env_def)

section \<open>The tests of the sync loop\<close>

text \<open>A response of \<open>/sync\<close> with one joined room, and a read of the client's store.\<close>

definition sync_response :: "string \<Rightarrow> string \<Rightarrow> json list \<Rightarrow> json" where
  "sync_response next_batch room_id evs = JObj [(''next_batch'', JStr next_batch),
     (''rooms'', JObj [(''join'', JObj [(room_id, JObj [(''timeline'', JObj [(''events'', JArr evs), (''limited'', JBool False)])])])]),
     (''to_device'', JObj [(''events'', JArr [])])]"

definition read_store :: "pigeon_client \<Rightarrow> (json db \<Rightarrow> store_error + 'a) \<Rightarrow> ('w, 'a) test" where
  "read_store cl f = on_client (store_read cl f)"

definition apply_sync_folds_events_and_advances_token :: "(unit, unit) test" where
  "apply_sync_folds_events_and_advances_token =
     bnd (test_login ''@t:s'') (\<lambda>client.
     (let E = test_env []; resp = sync_response ''10_0'' ''!r:s''
            [test_message ''$a'' ''!r:s'' ''@t:s'' 1 100 ''hi'', test_message ''$b'' ''!r:s'' ''@t:s'' 2 200 ''there'']
      in bnd (on_client (apply_sync E client resp)) (\<lambda>changed.
         bnd (assert changed) (\<lambda>_.
         bnd (read_store client (\<lambda>db. Inr (load_sync_token db))) (\<lambda>token.
         bnd (assert (token = None)) (\<lambda>_.
         bnd (on_client (persist_sync_token E client resp)) (\<lambda>_.
         bnd (read_store client (\<lambda>db. Inr (load_sync_token db))) (\<lambda>token.
         bnd (assert (token = Some ''10_0'')) (\<lambda>_.
         bnd (read_store client (\<lambda>db. timeline (ce_codec E) db ''!r:s'' 10 None)) (\<lambda>tl.
         assert (length tl = 2)))))))))))"

lemmas store_defs = apply_events_def from_wire_def str_field_def int_field_def insert_event_def has_event_def
  row_of_event_def fold_state_def timeline_def timeline_rows_def in_timeline_def parse_row_def parse_stored_payload_def
  load_sync_token_def save_sync_token_def empty_db_def id_codec_def has_key_def row_pos_def dag_pos_le i64_max_def i64_min_def
  send_state_from_local_def test_message_def test_event_def map_err_def

text \<open>Evaluation of a step where it is applied, so that the rest of a test stays folded.\<close>

lemma bnd_step: "bnd m f s = (case m s of (Inl e, s') \<Rightarrow> (Inl e, s') | (Inr a, s') \<Rightarrow> f a s')"
  by (simp add: bnd_def)

lemma catch_step: "catch m h s = (case m s of (r, s') \<Rightarrow> h r s')"
  by (simp add: catch_def)

lemma map_errA_step: "map_errA h m s = (case m s of (r, s') \<Rightarrow> (map_err h r, s'))"
  by (simp add: map_errA_def)

lemma on_client_step: "on_client m (w, es) = (case m w of (r, w') \<Rightarrow> (r, (w', es)))"
  by (simp add: on_client_def)

lemma on_engine_step: "on_engine name m (w, es) =
    (case m ((wd_vault w)\<lparr>vt_device := map_of es name\<rparr>) of (r, v) \<Rightarrow>
       (r, (w\<lparr>wd_vault := v\<lparr>vt_device := vt_device (wd_vault w)\<rparr>\<rparr>,
            (case vt_device v of None \<Rightarrow> es | Some d \<Rightarrow> (name, d) # es))))"
  by (simp add: on_engine_def)

lemma assert_step: "assert b s = (if b then (Inr (), s) else (Inl (Crypto ''assertion failed''), s))"
  by (simp add: assert_def)

lemma store_read_step: "store_read cl g w = (map_err core_of_store (g (wd_stores w (cl_store cl))), w)"
  by (simp add: store_read_def)

lemma store_write_step: "store_write cl k w = (case k (wd_stores w (cl_store cl)) of Inl e \<Rightarrow> (Inl (core_of_store e), w)
      | Inr (db', a) \<Rightarrow> (Inr a, w\<lparr>wd_stores := (wd_stores w)(cl_store cl := db')\<rparr>))"
  by (simp add: store_write_def)

lemma on_vault_step: "on_vault n w = (case n (wd_vault w) of (r, v) \<Rightarrow> (r, w\<lparr>wd_vault := v\<rparr>))"
  by (simp add: on_vault_def)

lemma on_net_step: "on_net l w = (case l (wd_net w) of (r, n) \<Rightarrow> (r, w\<lparr>wd_net := n\<rparr>))"
  by (simp add: on_net_def)

lemma has_engine_step: "has_engine w = (Inr (vt_device (wd_vault w) \<noteq> None), w)"
  by (simp add: has_engine_def)

lemmas step_eval = bnd_step catch_step map_errA_step on_client_step on_engine_step assert_step store_read_step
  store_write_step on_vault_step on_net_step has_engine_step

lemmas client_defs = step_eval fails_with_def fails_def room_events_def Let_def
  read_store_def store_update_def apply_sync_def joined_events_def persist_sync_token_def
  sync_response_def jindex_def ok_or_def log_emit_def emit_def

lemma apply_sync_folds_events_and_advances_token: "passes () None apply_sync_folds_events_and_advances_token"
  unfolding apply_sync_folds_events_and_advances_token_def passes_login by (simp add: client_defs store_defs)

lemma new_engine_step: "new_engine name user (w, es) =
    (case e2ee_create sym_crypto user (wd_vault w) of
       (Inl e, v) \<Rightarrow> (Inl e, (w\<lparr>wd_vault := v\<rparr>, es))
     | (Inr d, v) \<Rightarrow> (Inr (), (w\<lparr>wd_vault := v\<rparr>, (name, d) # es)))"
  by (simp add: new_engine_def)

lemma vault_steps:
  "draw v = (Inr (vt_seed v), v\<lparr>vt_seed := Suc (vt_seed v)\<rparr>)"
  "set_device d v = (Inr (), v\<lparr>vt_device := Some d\<rparr>)"
  by (simp_all add: draw_def set_device_def)

lemma the_device_step: "the_device v = (case vt_device v of
     None \<Rightarrow> Inl (Crypto ''E2EE is not available for this session'') | Some d \<Rightarrow> Inr d, v)"
  by (simp add: the_device_def)

lemmas crypto_steps = new_engine_step vault_steps the_device_step
  e2ee_create_def e2ee_restore_def install_engine_def e2ee_clear_def
  signature_public_key_b64_def key_packages_def last_resort_key_package_def has_group_def create_group_def
  add_member_def process_commit_def join_from_welcome_def encrypt_def decrypt_def on_device_def persist_def persist_current_def
  ks_call_def ks_put_def ks_get_def ks_delete_def load_group_def decode_wire_def decode_field_def stored_state_def
  ascii_def toy_ks_def core_of_crypto_def login_device_def encrypt_media_def decrypt_media_def

definition apply_sync_is_idempotent_and_reports_no_change_on_replay :: "(unit, unit) test" where
  "apply_sync_is_idempotent_and_reports_no_change_on_replay =
     bnd (test_login ''@t:s'') (\<lambda>client.
     (let E = test_env []; resp = sync_response ''5_0'' ''!r:s'' [test_message ''$a'' ''!r:s'' ''@t:s'' 1 100 ''hi'']
      in bnd (on_client (apply_sync E client resp)) (\<lambda>changed.
         bnd (assert changed) (\<lambda>_.
         bnd (on_client (apply_sync E client resp)) (\<lambda>changed.
         bnd (assert (\<not> changed)) (\<lambda>_.
         bnd (read_store client (\<lambda>db. timeline (ce_codec E) db ''!r:s'' 10 None)) (\<lambda>tl.
         assert (length tl = 1))))))))"

lemma apply_sync_is_idempotent_and_reports_no_change_on_replay:
  "passes () None apply_sync_is_idempotent_and_reports_no_change_on_replay"
  unfolding apply_sync_is_idempotent_and_reports_no_change_on_replay_def passes_login
  by (simp add: client_defs store_defs)

definition apply_sync_advances_token_on_empty_batch :: "(unit, unit) test" where
  "apply_sync_advances_token_on_empty_batch =
     bnd (test_login ''@t:s'') (\<lambda>client.
     (let E = test_env []; empty = JObj [(''next_batch'', JStr ''7_2''), (''rooms'', JObj [(''join'', JObj [])])]
      in bnd (on_client (apply_sync E client empty)) (\<lambda>changed.
         bnd (assert (\<not> changed)) (\<lambda>_.
         bnd (on_client (persist_sync_token E client empty)) (\<lambda>_.
         bnd (read_store client (\<lambda>db. Inr (load_sync_token db))) (\<lambda>token.
         assert (token = Some ''7_2'')))))))"

lemma apply_sync_advances_token_on_empty_batch: "passes () None apply_sync_advances_token_on_empty_batch"
  unfolding apply_sync_advances_token_on_empty_batch_def passes_login by (simp add: client_defs store_defs)

definition to_device_welcome_joins_group_and_is_idempotent :: "(unit, unit) test" where
  "to_device_welcome_joins_group_and_is_idempotent =
     bnd (test_login ''@t:s'') (\<lambda>bob.
     bnd (new_engine ''alice'' ''@alice:s'') (\<lambda>_.
     bnd (on_client (on_vault (key_packages C 1))) (\<lambda>kps.
     bnd (on_engine ''alice'' (create_group C ''!enc:s'')) (\<lambda>_.
     bnd (on_engine ''alice'' (add_member C ''!enc:s'' (kps ! 0))) (\<lambda>outcome.
     (let E = test_env []; resp = JObj [(''next_batch'', JStr ''1_1''), (''rooms'', JObj [(''join'', JObj [])]),
            (''to_device'', JObj [(''events'', JArr [JObj [(''sender'', JStr ''@alice:s''), (''type'', JStr ''p.mls.welcome''),
               (''content'', JObj [(''welcome'', JStr (ao_welcome outcome)), (''room_id'', JStr ''!enc:s'')])]])])]
      in bnd (on_client (on_vault (has_group C ''!enc:s''))) (\<lambda>held.
         bnd (assert (\<not> held)) (\<lambda>_.
         bnd (on_client (apply_to_device E resp)) (\<lambda>joined.
         bnd (assert joined) (\<lambda>_.
         bnd (on_client (on_vault (has_group C ''!enc:s''))) (\<lambda>held.
         bnd (assert held) (\<lambda>_.
         bnd (on_client (apply_to_device E resp)) (\<lambda>joined.
         assert (\<not> joined))))))))))))))"

lemmas to_device_defs = apply_to_device_def to_device_event_def join_welcome_def

lemma to_device_welcome_joins_group_and_is_idempotent: "passes () None to_device_welcome_joins_group_and_is_idempotent"
  unfolding to_device_welcome_joins_group_and_is_idempotent_def passes_login
  by (simp add: client_defs crypto_steps sym_defs to_device_defs)

definition to_device_ignores_non_welcome_and_bad_welcomes :: "(unit, unit) test" where
  "to_device_ignores_non_welcome_and_bad_welcomes =
     bnd (test_login ''@t:s'') (\<lambda>bob.
     (let E = test_env []; resp = JObj [(''next_batch'', JStr ''1_1''),
            (''to_device'', JObj [(''events'', JArr
               [JObj [(''sender'', JStr ''@x:s''), (''type'', JStr ''p.other''), (''content'', JObj [])],
                JObj [(''sender'', JStr ''@x:s''), (''type'', JStr ''p.mls.welcome''),
                  (''content'', JObj [(''welcome'', JStr ''!!not base64!!''), (''room_id'', JStr ''!enc:s'')])]])])]
      in bnd (on_client (apply_to_device E resp)) (\<lambda>joined.
         bnd (assert (\<not> joined)) (\<lambda>_.
         bnd (on_client (on_vault (has_group C ''!enc:s''))) (\<lambda>held.
         assert (\<not> held))))))"

lemma to_device_ignores_non_welcome_and_bad_welcomes: "passes () None to_device_ignores_non_welcome_and_bad_welcomes"
  unfolding to_device_ignores_non_welcome_and_bad_welcomes_def passes_login
  by (simp add: client_defs crypto_steps sym_defs to_device_defs)

end
