(* ===== verification/Rooms_Tests.thy ===== *)
theory Rooms_Tests
  imports Client_Tests Overlap Delivery
begin

text \<open>
  The unit tests of \<open>core/src/rooms.rs\<close>: what a timeline entry shows, the ids of one-shot sends, and
  the paths of a client that sends, invites and decrypts with two engines and a mock server.
\<close>

section \<open>Rendering\<close>

definition stored :: "string \<Rightarrow> string option \<Rightarrow> json \<Rightarrow> stored_event" where
  "stored event_type sk content = \<lparr> ev_event_id = ''$e'', ev_room_id = ''!r:s'', ev_sender = ''@alice:s'',
     ev_event_type = event_type, ev_state_key = sk, ev_origin_server_ts = 100, ev_depth = 3, ev_content = content,
     ev_payload = content, ev_send_state = Confirmed, ev_decrypted = None, ev_decrypt_failed = False \<rparr>"

definition read_json :: "string \<Rightarrow> string + json" where
  "read_json s = jparse code_json (str_bytes s)"

abbreviation entry :: "stored_event \<Rightarrow> timeline_event" where
  "entry \<equiv> timeline_from read_json"

definition ciphertext_content :: json where
  "ciphertext_content = JObj [(''algorithm'', JStr ''p.mls.1''), (''ciphertext'', JStr ''CT'')]"

text \<open>The texts the tests decrypt are not JSON.\<close>

lemma not_json_texts [simp]:
  "jparse code_json (str_bytes ''just a normal message'') = Inl ''invalid JSON''"
  "jparse code_json (str_bytes ''the secret'') = Inl ''invalid JSON''"
  "jparse code_json (str_bytes ''secret hi'') = Inl ''invalid JSON''"
  by (simp_all add: code_json_def get_json_def take_text_def)

lemma placeholder_text [simp]: "text_contains (warning_sign @ '' Unable to decrypt this message'') ''Unable to decrypt''"
  by code_simp

lemmas show_defs = timeline_from_def event_body_def event_image_def event_system_text_def decrypted_image_def get_str_def
  parse_image_def meta_field_def meta_u64_def json_u64_def render_system_def member_line_def

definition message_maps_to_body :: bool where
  "message_maps_to_body \<longleftrightarrow>
     (let ev = entry (stored ''p.room.message'' None (JObj [(''body'', JStr ''hello''), (''msgtype'', JStr ''p.text'')]))
      in te_body ev = Some ''hello'' \<and> te_system_text ev = None \<and> te_cursor ev = 3)"

lemma message_maps_to_body: message_maps_to_body
  by (simp add: message_maps_to_body_def stored_def read_json_def show_defs)

definition membership_renders_a_system_line :: bool where
  "membership_renders_a_system_line \<longleftrightarrow>
     (let join = entry (stored ''p.room.member'' (Some ''@bob:s'') (JObj [(''membership'', JStr ''join'')]));
          invite = entry (stored ''p.room.member'' (Some ''@bob:s'') (JObj [(''membership'', JStr ''invite'')]))
      in te_body join = None \<and> te_system_text join = Some ''@bob:s joined'' \<and>
         te_system_text invite = Some ''@alice:s invited @bob:s'')"

lemma membership_renders_a_system_line: membership_renders_a_system_line
  by (simp add: membership_renders_a_system_line_def stored_def read_json_def show_defs)

definition name_and_encryption_render_system_lines :: bool where
  "name_and_encryption_render_system_lines \<longleftrightarrow>
     (let nm = entry (stored ''p.room.name'' (Some []) (JObj [(''name'', JStr ''General'')]));
          enc = entry (stored ''p.room.encryption'' (Some []) (JObj []))
      in te_system_text nm = Some (''Room name set to '' @ ldquo @ ''General'' @ rdquo) \<and>
         te_system_text enc = Some ''Encryption enabled'')"

lemma name_and_encryption_render_system_lines: name_and_encryption_render_system_lines
  by (simp add: name_and_encryption_render_system_lines_def stored_def read_json_def show_defs)

definition hidden_state_events_render_nothing :: bool where
  "hidden_state_events_render_nothing \<longleftrightarrow>
     (let ev = entry (stored ''p.room.power_levels'' (Some []) (JObj []))
      in te_body ev = None \<and> te_system_text ev = None)"

lemma hidden_state_events_render_nothing: hidden_state_events_render_nothing
  by (simp add: hidden_state_events_render_nothing_def stored_def read_json_def show_defs)

definition image_message_populates_image_content_and_caption :: bool where
  "image_message_populates_image_content_and_caption \<longleftrightarrow>
     (let te = entry (stored ''p.room.message'' None (JObj [(''msgtype'', JStr ''p.image''), (''body'', JStr ''cat.jpg''),
          (''url'', JStr ''pigeon://s/abc''), (''info'', JObj [(''mimetype'', JStr ''image/jpeg''), (''w'', json_u64 800),
             (''h'', json_u64 600), (''size'', json_u64 12345)])]))
      in te_body te = Some ''cat.jpg'' \<and>
         (case te_image te of None \<Rightarrow> False
          | Some img \<Rightarrow> im_uri img = ''pigeon://s/abc'' \<and> im_mimetype img = ''image/jpeg'' \<and> im_width img = 800 \<and>
              im_height img = 600 \<and> im_size img = 12345))"

lemma image_message_populates_image_content_and_caption: image_message_populates_image_content_and_caption
  by (simp add: image_message_populates_image_content_and_caption_def stored_def read_json_def show_defs)

definition plain_text_message_has_no_image :: bool where
  "plain_text_message_has_no_image \<longleftrightarrow>
     (let te = entry (stored ''p.room.message'' None (JObj [(''body'', JStr ''hi''), (''msgtype'', JStr ''p.text'')]))
      in te_image te = None \<and> te_body te = Some ''hi'')"

lemma plain_text_message_has_no_image: plain_text_message_has_no_image
  by (simp add: plain_text_message_has_no_image_def stored_def read_json_def show_defs)

definition decrypted_encrypted_image_renders_with_its_file_key :: bool where
  "decrypted_encrypted_image_renders_with_its_file_key \<longleftrightarrow>
     (let ev = (stored ''p.room.encrypted'' None ciphertext_content)\<lparr>ev_decrypted := Some (jprint code_json
          (JObj [(''msgtype'', JStr ''p.image''), (''body'', JStr ''secret.png''),
             (''file'', JObj [(''url'', JStr ''pigeon://s/ct1''), (''key'', JStr ''a2V5''), (''mimetype'', JStr ''image/png''),
                (''w'', json_u64 4), (''h'', json_u64 3), (''size'', json_u64 9)])]))\<rparr>;
          te = entry ev
      in te_body te = Some ''secret.png'' \<and>
         (case te_image te of None \<Rightarrow> False
          | Some img \<Rightarrow> im_uri img = ''pigeon://s/ct1'' \<and> im_key img = Some ''a2V5'' \<and> im_mimetype img = ''image/png'' \<and>
              im_width img = 4))"

lemma decrypted_encrypted_image_renders_with_its_file_key: decrypted_encrypted_image_renders_with_its_file_key
  by (simp add: decrypted_encrypted_image_renders_with_its_file_key_def stored_def read_json_def show_defs)

definition decrypted_encrypted_text_is_not_mistaken_for_an_image :: bool where
  "decrypted_encrypted_text_is_not_mistaken_for_an_image \<longleftrightarrow>
     (let te = entry ((stored ''p.room.encrypted'' None ciphertext_content)\<lparr>ev_decrypted := Some ''just a normal message''\<rparr>)
      in te_image te = None \<and> te_body te = Some ''just a normal message'')"

lemma decrypted_encrypted_text_is_not_mistaken_for_an_image: decrypted_encrypted_text_is_not_mistaken_for_an_image
  by (simp add: decrypted_encrypted_text_is_not_mistaken_for_an_image_def stored_def read_json_def show_defs)

definition encrypted_event_renders_decrypted_plaintext_as_a_message :: bool where
  "encrypted_event_renders_decrypted_plaintext_as_a_message \<longleftrightarrow>
     (let te = entry ((stored ''p.room.encrypted'' None ciphertext_content)\<lparr>ev_decrypted := Some ''the secret''\<rparr>)
      in te_body te = Some ''the secret'' \<and> te_system_text te = None)"

lemma encrypted_event_renders_decrypted_plaintext_as_a_message: encrypted_event_renders_decrypted_plaintext_as_a_message
  by (simp add: encrypted_event_renders_decrypted_plaintext_as_a_message_def stored_def read_json_def show_defs)

definition encrypted_event_pending_decrypt_is_hidden :: bool where
  "encrypted_event_pending_decrypt_is_hidden \<longleftrightarrow>
     (let te = entry (stored ''p.room.encrypted'' None ciphertext_content)
      in te_body te = None \<and> te_system_text te = None)"

lemma encrypted_event_pending_decrypt_is_hidden: encrypted_event_pending_decrypt_is_hidden
  by (simp add: encrypted_event_pending_decrypt_is_hidden_def stored_def read_json_def show_defs)

definition encrypted_event_decrypt_failure_shows_placeholder :: bool where
  "encrypted_event_decrypt_failure_shows_placeholder \<longleftrightarrow>
     (let te = entry ((stored ''p.room.encrypted'' None ciphertext_content)\<lparr>ev_decrypt_failed := True\<rparr>)
      in te_body te = None \<and>
         (case te_system_text te of None \<Rightarrow> False | Some t \<Rightarrow> text_contains t ''Unable to decrypt''))"

lemma encrypted_event_decrypt_failure_shows_placeholder: encrypted_event_decrypt_failure_shows_placeholder
  by (simp add: encrypted_event_decrypt_failure_shows_placeholder_def stored_def read_json_def show_defs)

section \<open>Ids of one-shot sends\<close>

text \<open>\<open>split('-')\<close>, and the number a string of digits stands for.\<close>

fun split_at :: "char \<Rightarrow> string \<Rightarrow> string list" where
  "split_at d [] = [[]]"
| "split_at d (c # cs) =
     (if c = d then [] # split_at d cs
      else (case split_at d cs of [] \<Rightarrow> [[c]] | p # ps \<Rightarrow> (c # p) # ps))"

definition parse_digits :: "string \<Rightarrow> nat option" where
  "parse_digits s = (if s \<noteq> [] \<and> list_all (\<lambda>c. 48 \<le> (of_char c :: nat) \<and> (of_char c :: nat) \<le> 57) s
     then Some (foldl (\<lambda>n c. 10 * n + (of_char c - 48)) 0 s) else None)"

lemma small_dec [simp]: "nat_dec 0 = ''0''" "nat_dec (Suc 0) = ''1''" "nat_dec 1 = ''1''" "nat_dec 2 = ''2''"
  by code_simp+

definition txn_ids_never_repeat_and_carry_a_timestamp :: "(unit, unit) test" where
  "txn_ids_never_repeat_and_carry_a_timestamp =
     bnd (on_client (next_txn_id (test_env []))) (\<lambda>a.
     bnd (on_client (next_txn_id (test_env []))) (\<lambda>b.
     bnd (assert (a \<noteq> b)) (\<lambda>_.
     (let parts = split_at CHR ''-'' a
      in bnd (assert (length parts = 4)) (\<lambda>_.
         bnd (assert (take 2 parts = [''mob'', ''td''])) (\<lambda>_.
         assert (case parse_digits (parts ! 2) of None \<Rightarrow> False | Some millis \<Rightarrow> millis > 0)))))))"

lemma txn_ids_never_repeat_and_carry_a_timestamp: "passes () None txn_ids_never_repeat_and_carry_a_timestamp"
  by (simp add: passes_def txn_ids_never_repeat_and_carry_a_timestamp_def client_defs next_txn_id_def tick_def sym_world_def
      parse_digits_def)

section \<open>Receiving\<close>

lemma bad_wire [simp]: "unwire (str_bytes ''AAAA'') = None"
  by (simp add: unwire_def get_json_def)

definition login_client :: "('w, pigeon_client) test" where
  "login_client = test_login ''@bob:s''"

text \<open>Bob logs in and joins Alice's group.\<close>

definition bob_in_room :: "('w, pigeon_client) test" where
  "bob_in_room =
     bnd login_client (\<lambda>bob.
     bnd (new_engine ''alice'' ''@alice:s'') (\<lambda>_.
     bnd (on_client (on_vault (key_packages C 1))) (\<lambda>kps.
     bnd (on_engine ''alice'' (create_group C ''!enc:s'')) (\<lambda>_.
     bnd (on_engine ''alice'' (add_member C ''!enc:s'' (kps ! 0))) (\<lambda>outcome.
     bnd (on_client (on_vault (join_from_welcome C (ao_welcome outcome)))) (\<lambda>_. ret bob))))))"

text \<open>An event as the server delivers it: its id, sender, depth and content.\<close>

definition encrypted_json :: "string \<Rightarrow> string \<Rightarrow> int \<Rightarrow> json \<Rightarrow> json" where
  "encrypted_json eid sender depth content = JObj [(''event_id'', JStr eid), (''room_id'', JStr ''!enc:s''), (''sender'', JStr sender),
     (''type'', JStr ''p.room.encrypted''), (''origin_server_ts'', json_i64 100), (''depth'', json_i64 depth), (''content'', content)]"

definition store_events :: "('w, sym_device, string, (string \<times> bytes) list, json) client_env \<Rightarrow> pigeon_client \<Rightarrow> json list \<Rightarrow> ('w, nat) test" where
  "store_events E cl evs = on_client (store_write cl (\<lambda>db. apply_events (ce_codec E) db evs))"

definition process_inbound_mls_decrypts_inbound_and_caches_plaintext :: "(unit, unit) test" where
  "process_inbound_mls_decrypts_inbound_and_caches_plaintext =
     bnd bob_in_room (\<lambda>bob.
     (let E = test_env []; read = on_client (client_timeline E bob ''!enc:s'' 10 None)
      in bnd (on_engine ''alice'' (encrypt C ''!enc:s'' ''secret hi'')) (\<lambda>ct.
         bnd (store_events E bob [encrypted_json ''$e1'' ''@alice:s'' 1
                (JObj [(''algorithm'', JStr ''p.mls.1''), (''ciphertext'', JStr ct)])]) (\<lambda>_.
         bnd read (\<lambda>tl.
         bnd (assert (te_body (tl ! 0) = None)) (\<lambda>_.
         bnd (on_client (process_inbound_mls E bob)) (\<lambda>changed.
         bnd (assert changed) (\<lambda>_.
         bnd read (\<lambda>tl.
         bnd (assert (te_body (tl ! 0) = Some ''secret hi'')) (\<lambda>_.
         bnd (on_client (process_inbound_mls E bob)) (\<lambda>changed. assert (\<not> changed))))))))))))"

lemmas inbound_defs = client_timeline_def parse_text_def process_inbound_mls_def inbound_message_def inbound_commit_def pending_mls_def read_mls_row_def mls_item_def
  awaits_mls_def set_decrypted_def set_decrypt_failed_def set_commit_processed_def upd_event_def upd_rows_def
  List.map_filter_def DECRYPT_OK_def DECRYPT_FAILED_def has_pending_send_def

lemma process_inbound_mls_decrypts_inbound_and_caches_plaintext:
  "passes () None process_inbound_mls_decrypts_inbound_and_caches_plaintext"
  unfolding process_inbound_mls_decrypts_inbound_and_caches_plaintext_def bob_in_room_def login_client_def bnd_assoc passes_login
  by (simp add: client_defs crypto_steps sym_defs store_defs inbound_defs show_defs store_events_def encrypted_json_def)

definition process_inbound_mls_marks_undecryptable_events_failed :: "(unit, unit) test" where
  "process_inbound_mls_marks_undecryptable_events_failed =
     bnd bob_in_room (\<lambda>bob.
     (let E = test_env []
      in bnd (store_events E bob [encrypted_json ''$bad'' ''@alice:s'' 1
                (JObj [(''algorithm'', JStr ''p.mls.1''), (''ciphertext'', JStr ''AAAA'')])]) (\<lambda>_.
         bnd (on_client (process_inbound_mls E bob)) (\<lambda>changed.
         bnd (assert changed) (\<lambda>_.
         bnd (on_client (client_timeline E bob ''!enc:s'' 10 None)) (\<lambda>tl.
         bnd (assert (te_body (tl ! 0) = None)) (\<lambda>_.
         assert (case te_system_text (tl ! 0) of None \<Rightarrow> False | Some t \<Rightarrow> text_contains t ''Unable to decrypt''))))))))"

lemma process_inbound_mls_marks_undecryptable_events_failed:
  "passes () None process_inbound_mls_marks_undecryptable_events_failed"
  unfolding process_inbound_mls_marks_undecryptable_events_failed_def bob_in_room_def login_client_def bnd_assoc passes_login
  by (simp add: client_defs crypto_steps sym_defs store_defs inbound_defs show_defs store_events_def encrypted_json_def)

section \<open>Sending\<close>

text \<open>
  What follows the first occurrence of a text; the pattern \<open>.*P.+$\<close> of the tests is that something follows
  it.  The conditions on a send of an event type, and on a to-device message of a type.
\<close>

fun after :: "string \<Rightarrow> string \<Rightarrow> string option" where
  "after p [] = (if p = [] then Some [] else None)"
| "after p (c # cs) = (case strip_prefix p (c # cs) of Some r \<Rightarrow> Some r | None \<Rightarrow> after p cs)"

definition url_has :: "string \<Rightarrow> request \<Rightarrow> bool" where
  "url_has p rq \<longleftrightarrow> (case after p (rq_url rq) of None \<Rightarrow> False | Some r \<Rightarrow> r \<noteq> [])"

definition to_send :: "string \<Rightarrow> request \<Rightarrow> bool" where
  "to_send event_type rq \<longleftrightarrow> rq_method rq = PUT \<and> url_has (''/send/'' @ event_type @ ''/'') rq"

definition event_reply :: "string \<Rightarrow> json" where
  "event_reply eid = JObj [(''event_id'', JStr eid)]"

text \<open>A server whose first mocks answer the first \<open>n\<close> requests they match, and its later mocks the rest.\<close>

definition limited_server :: "nat \<Rightarrow> mock list \<Rightarrow> mock list \<Rightarrow> nat server" where
  "limited_server n first rest = (\<lambda>rq used.
     if used < n \<and> list_ex (\<lambda>m. fst m rq) first then (Inr (answer first rq), Suc used)
     else (Inr (answer rest rq), used))"

definition rate_limited_send_stays_queued_then_recovers :: "(nat, unit) test" where
  "rate_limited_send_stays_queued_then_recovers =
     bnd (test_login ''@alice:s'') (\<lambda>alice.
     (let E = sym_env None (limited_server 1
            [(to_send ''p.room.message'', 429, JObj [(''errcode'', JStr ''P_LIMIT_EXCEEDED''), (''error'', JStr ''slow down'')])]
            [(to_send ''p.room.message'', 200, event_reply ''$real'')])
      in bnd (on_client (client_send_message E alice ''!r:s'' ''hi'')) (\<lambda>_.
         bnd (on_client (client_timeline E alice ''!r:s'' 10 None)) (\<lambda>tl.
         bnd (assert (length tl = 1)) (\<lambda>_.
         bnd (assert (te_pending (tl ! 0))) (\<lambda>_.
         bnd (assert (\<not> te_failed (tl ! 0))) (\<lambda>_.
         bnd (on_client (flush_pending E alice)) (\<lambda>_.
         bnd (on_client (client_timeline E alice ''!r:s'' 10 None)) (\<lambda>tl.
         assert (\<not> te_pending (tl ! 0) \<and> \<not> te_failed (tl ! 0)))))))))))"

lemma sym_env_fields [simp]:
  "ce_codec (sym_env dir srv) = id_codec" "ce_crypto (sym_env dir srv) = sym_crypto" "ce_server (sym_env dir srv) = srv"
  "ce_clock (sym_env dir srv) = (\<lambda>n. 1 + int n)"
  by (simp_all add: sym_env_def)

lemmas send_defs = client_send_message_def queue_message_def flush_pending_def plan_send_def encrypt_for_send_def
  queue_send_def next_send_ids_def echo_depth_def max_depth_def echo_payload_def pending_sends_def send_of_row_def
  resolve_send_def fail_send_def dequeue_def promote_echo_def keep_plaintext_def delete_event_def state_refers_def
  is_room_encrypted_def encrypted_event_def tick_def now_millis_def next_txn_id_def upd_rows_def find_row_def

lemmas net_defs = send_event_def put_def post_def send_def req_def exchange_def is_success_def join_url_def json_string_def
  parse_error_def call_api_def is_transient_def event_reply_def url_has_def to_send_def to_path_def
  mock_server_def SERVER_def

lemma int_small [simp]: "int_dec 1 = ''1''" "int_dec 2 = ''2''" "code_from_wire ''P_LIMIT_EXCEEDED'' = LimitExceeded"
  by code_simp+

lemma rate_limited_send_stays_queued_then_recovers: "passes 0 None rate_limited_send_stays_queued_then_recovers"
  unfolding rate_limited_send_stays_queued_then_recovers_def passes_login
  by (simp add: client_defs crypto_steps sym_defs store_defs inbound_defs show_defs send_defs net_defs limited_server_def)

text \<open>
  Two calls of \<open>flush_pending\<close> under \<open>tokio::join!\<close>: a call waits for \<open>send_lock\<close>, runs its pass from
  suspension to suspension, and returns; the executor polls the calls in turn.
\<close>

datatype task = Waiting | Holding pass | Returned "core_error + bool"

fun poll ::
  "('w, 'd, 'g, 'k, 't) client_env \<Rightarrow> pigeon_client \<Rightarrow> bool \<Rightarrow> task \<Rightarrow> ('w, 'd, 'k, 't) world \<Rightarrow>
   bool \<times> task \<times> ('w, 'd, 'k, 't) world" where
  "poll env cl locked Waiting w =
     (if locked then (True, Waiting, w)
      else (True, Holding (Running (pending_sends (wd_stores w (cl_store cl))) False), w))"
| "poll env cl locked (Holding (Finished r)) w = (False, Returned r, w)"
| "poll env cl locked (Holding p) w = (case pass_next env cl p w of (_, p', w') \<Rightarrow> (locked, Holding p', w'))"
| "poll env cl locked (Returned r) w = (locked, Returned r, w)"

fun join_two ::
  "nat \<Rightarrow> ('w, 'd, 'g, 'k, 't) client_env \<Rightarrow> pigeon_client \<Rightarrow> bool \<Rightarrow> task \<Rightarrow> task \<Rightarrow> ('w, 'd, 'k, 't) world \<Rightarrow>
   task \<times> task \<times> ('w, 'd, 'k, 't) world" where
  "join_two 0 env cl locked a b w = (a, b, w)"
| "join_two (Suc n) env cl locked a b w =
     (case poll env cl locked a w of (locked1, a', w1) \<Rightarrow>
      (case poll env cl locked1 b w1 of (locked2, b', w2) \<Rightarrow> join_two n env cl locked2 a' b' w2))"

definition received_requests :: "('w, request list) test" where
  "received_requests = (\<lambda>s. (Inr (net_log (wd_net (fst s))), s))"

definition overlapping_flushes_send_a_queued_message_once :: "(unit, unit) test" where
  "overlapping_flushes_send_a_queued_message_once =
     bnd (test_login ''@alice:s'') (\<lambda>alice.
     (let E = test_env [(to_send ''p.room.message'', 200, event_reply ''$real'')]
      in bnd (on_client (queue_message E alice ''!r:s'' ''hi'')) (\<lambda>_.
         bnd (on_client (\<lambda>w. case join_two 10 E alice False Waiting Waiting w of (a, b, w') \<Rightarrow> (Inr (a, b), w'))) (\<lambda>(a, b).
         bnd (assert (case a of Returned (Inr _) \<Rightarrow> True | _ \<Rightarrow> False)) (\<lambda>_.
         bnd (assert (case b of Returned (Inr _) \<Rightarrow> True | _ \<Rightarrow> False)) (\<lambda>_.
         bnd received_requests (\<lambda>reqs.
         bnd (assert (length (filter (\<lambda>r. rq_method r = PUT) reqs) = 1)) (\<lambda>_.
         bnd (on_client (client_timeline E alice ''!r:s'' 10 None)) (\<lambda>tl.
         bnd (assert (length tl = 1)) (\<lambda>_.
         assert (\<not> te_pending (tl ! 0) \<and> \<not> te_failed (tl ! 0))))))))))))"

lemma poll_holding: "poll env cl locked (Holding (Running ps c)) w =
    (case pass_next env cl (Running ps c) w of (_, p', w') \<Rightarrow> (locked, Holding p', w'))"
  "poll env cl locked (Holding (InFlight p r ps c)) w =
    (case pass_next env cl (InFlight p r ps c) w of (_, p', w') \<Rightarrow> (locked, Holding p', w'))"
  by simp_all

lemma join_two_numeral: "join_two (numeral k) env cl locked a b w =
     (case poll env cl locked a w of (locked1, a', w1) \<Rightarrow>
      (case poll env cl locked1 b w1 of (locked2, b', w2) \<Rightarrow> join_two (pred_numeral k) env cl locked2 a' b' w2))"
  by (simp add: numeral_eq_Suc)

lemma login_methods [simp]: "rq_method login_request = POST" "rq_method (publish_request user) = POST"
  by (simp_all add: login_request_def publish_request_def)

lemma received_step: "received_requests (w, es) = (Inr (net_log (wd_net w)), (w, es))"
  by (simp add: received_requests_def)

lemma overlapping_flushes_send_a_queued_message_once: "passes () None overlapping_flushes_send_a_queued_message_once"
  unfolding overlapping_flushes_send_a_queued_message_once_def passes_login
  by (simp add: client_defs crypto_steps sym_defs store_defs inbound_defs show_defs send_defs net_defs received_step join_two_numeral)

section \<open>Sync beats the acknowledgement\<close>

text \<open>
  The server of this test acts on the client before it acknowledges, while the request is in flight: the
  pass is driven from suspension to suspension, and \<open>respond\<close> runs at each transmission.
\<close>

definition step_pass ::
  "('w, sym_device, string, (string \<times> bytes) list, json) client_env \<Rightarrow> pigeon_client \<Rightarrow> pass \<Rightarrow> ('w, event_label \<times> pass) test" where
  "step_pass E cl p = on_client (\<lambda>w. case pass_next E cl p w of (l, p', w') \<Rightarrow> (Inr (l, p'), w'))"

fun drive_pass ::
  "nat \<Rightarrow> ('w, sym_device, string, (string \<times> bytes) list, json) client_env \<Rightarrow> pigeon_client \<Rightarrow> (json \<Rightarrow> ('w, unit) test) \<Rightarrow>
   pass \<Rightarrow> ('w, bool) test" where
  "drive_pass 0 E cl respond p = raise (Crypto ''out of steps'')"
| "drive_pass (Suc n) E cl respond p =
     (case p of
        Finished r \<Rightarrow> lift_res r
      | _ \<Rightarrow>
          bnd (step_pass E cl p) (\<lambda>(l, p').
          (case l of
             Sent _ (_, content) \<Rightarrow> bnd (respond content) (\<lambda>_. drive_pass n E cl respond p')
           | _ \<Rightarrow> drive_pass n E cl respond p')))"

text \<open>\<open>SyncBeatsAck::respond\<close>.\<close>

definition sync_beats_ack ::
  "('w, sym_device, string, (string \<times> bytes) list, json) client_env \<Rightarrow> pigeon_client \<Rightarrow> json \<Rightarrow> ('w, unit) test" where
  "sync_beats_ack E cl content =
     bnd (store_events E cl [encrypted_json ''$real'' ''@alice:s'' 5 content]) (\<lambda>_.
     bnd (on_client (process_inbound_mls E cl)) (\<lambda>_. ret ()))"

definition own_encrypted_send_stays_readable_when_sync_beats_the_ack :: "(unit, unit) test" where
  "own_encrypted_send_stays_readable_when_sync_beats_the_ack =
     bnd (test_login ''@alice:s'') (\<lambda>alice.
     (let E = test_env [(to_send ''p.room.encrypted'', 200, event_reply ''$real'')];
          read = on_client (client_timeline E alice ''!enc:s'' 10 None)
      in bnd (on_client (on_vault (create_group C ''!enc:s''))) (\<lambda>_.
         bnd (on_client (queue_message E alice ''!enc:s'' ''secret hi'')) (\<lambda>_.
         bnd (read_store alice (\<lambda>db. Inr (pending_sends db))) (\<lambda>sends.
         bnd (drive_pass 4 E alice (sync_beats_ack E alice) (Running sends False)) (\<lambda>_.
         bnd read (\<lambda>tl.
         bnd (assert (length tl = 1)) (\<lambda>_.
         bnd (assert (te_event_id (tl ! 0) = ''$real'')) (\<lambda>_.
         bnd (assert (te_body (tl ! 0) = Some ''secret hi'')) (\<lambda>_.
         bnd (assert (te_system_text (tl ! 0) = None)) (\<lambda>_.
         bnd (assert (\<not> te_pending (tl ! 0) \<and> \<not> te_failed (tl ! 0))) (\<lambda>_.
         bnd (on_client (process_inbound_mls E alice)) (\<lambda>changed.
         bnd (assert (\<not> changed)) (\<lambda>_.
         bnd read (\<lambda>tl. assert (te_body (tl ! 0) = Some ''secret hi''))))))))))))))))"

lemma drive_numeral: "drive_pass (numeral k) E cl respond p =
     (case p of
        Finished r \<Rightarrow> lift_res r
      | _ \<Rightarrow>
          bnd (step_pass E cl p) (\<lambda>(l, p').
          (case l of
             Sent _ (_, content) \<Rightarrow> bnd (respond content) (\<lambda>_. drive_pass (pred_numeral k) E cl respond p')
           | _ \<Rightarrow> drive_pass (pred_numeral k) E cl respond p')))"
  by (simp add: numeral_eq_Suc)

lemma step_pass_step: "step_pass E cl p (w, es) = (case pass_next E cl p w of (l, p', w') \<Rightarrow> (Inr (l, p'), (w', es)))"
  by (simp add: step_pass_def on_client_def split: prod.split)

lemma own_encrypted_send_stays_readable_when_sync_beats_the_ack:
  "passes () None own_encrypted_send_stays_readable_when_sync_beats_the_ack"
  unfolding own_encrypted_send_stays_readable_when_sync_beats_the_ack_def passes_login
  by (simp add: client_defs crypto_steps sym_defs store_defs inbound_defs show_defs send_defs net_defs 
    drive_numeral step_pass_step sync_beats_ack_def store_events_def encrypted_json_def)

section \<open>Images and invitations\<close>

text \<open>What the tests take out of the requests the server received.\<close>

definition first_request :: "(request \<Rightarrow> bool) \<Rightarrow> ('w, request) test" where
  "first_request p = bnd received_requests (\<lambda>reqs.
     (case find p reqs of None \<Rightarrow> raise (Crypto ''no such request'') | Some r \<Rightarrow> ret r))"

definition url_contains :: "string \<Rightarrow> request \<Rightarrow> bool" where
  "url_contains p rq \<longleftrightarrow> after p (rq_url rq) \<noteq> None"

definition raw_of_body :: "req_body \<Rightarrow> bytes" where
  "raw_of_body b = (case b of RawBody _ bs \<Rightarrow> bs | _ \<Rightarrow> [])"

definition as_string :: "json \<Rightarrow> ('w, string) test" where
  "as_string v = (case as_str v of None \<Rightarrow> raise (Crypto ''not a string'') | Some s \<Rightarrow> ret s)"

definition photo :: bytes where
  "photo = str_bytes (CHR 0x89 # ''PNG the actual pixels'')"

definition encrypted_image_round_trips_send_to_display :: "(unit, unit) test" where
  "encrypted_image_round_trips_send_to_display =
     bnd (test_login ''@alice:s'') (\<lambda>alice.
     bnd (on_client (on_vault (create_group C ''!enc:s''))) (\<lambda>_.
     bnd (new_engine ''bob'' ''@bob:s'') (\<lambda>_.
     bnd (on_engine ''bob'' (key_packages C 1)) (\<lambda>kps.
     bnd (on_client (on_vault (add_member C ''!enc:s'' (kps ! 0)))) (\<lambda>outcome.
     bnd (on_engine ''bob'' (join_from_welcome C (ao_welcome outcome))) (\<lambda>_.
     (let E = test_env [(to_path POST ''/_pigeon/media/v1/upload'', 200, JObj [(''content_uri'', JStr ''pigeon://s/ct1'')]),
            (to_send ''p.room.encrypted'', 200, event_reply ''$e'')]
      in bnd (on_client (send_image E alice ''!enc:s'' photo ''image/png'' 4 3 ''pic'')) (\<lambda>_.
         bnd (first_request (\<lambda>r. rq_url r = SERVER @ ''/_pigeon/media/v1/upload'')) (\<lambda>uploaded.
         bnd (first_request (url_contains ''/send/p.room.encrypted/'')) (\<lambda>event.
         bnd (as_string (jindex (json_of_body (rq_body event)) ''ciphertext'')) (\<lambda>ciphertext_b64.
         bnd (on_engine ''bob'' (decrypt C ''!enc:s'' ciphertext_b64)) (\<lambda>plaintext.
         (case read_json plaintext of
            Inl _ \<Rightarrow> assert False
          | Inr content \<Rightarrow>
              bnd (assert (jindex content ''msgtype'' = JStr ''p.image'')) (\<lambda>_.
              (case parse_image content of
                 None \<Rightarrow> assert False
               | Some img \<Rightarrow>
                   bnd (assert (im_uri img = ''pigeon://s/ct1'')) (\<lambda>_.
                   (case im_key img of
                      None \<Rightarrow> assert False
                    | Some file_key \<Rightarrow>
                        bnd (on_engine ''bob'' (lift_res (decrypt_media C file_key (raw_of_body (rq_body uploaded)))))
                          (\<lambda>recovered. assert (recovered = photo)))))))))))))))))))"

lemma printed_utf8 [simp]: "utf8_json v \<Longrightarrow> from_utf8 (str_bytes (jprint code_json v)) = Inr (jprint code_json v)"
  using sym_media_laws unfolding media_laws_def by (simp add: from_utf8_Inr)

lemma key_utf8 [simp]: "valid_utf8 (str_bytes (b64_encode sym_b64 (wire [''media-key'', tally seed])))"
  using sym_media_laws unfolding media_laws_def by (auto simp: sym_mls_def)

lemmas image_defs = send_image_def holds_group_def client_upload_media_def upload_media_def MAX_UPLOAD_BYTES_def
  encrypted_image_content_def plain_image_content_def first_request_def url_contains_def raw_of_body_def as_string_def
  json_of_body_def read_json_def

lemma photo_length [simp]: "length photo = 22" by (simp add: photo_def)

lemma login_urls [simp]: "rq_url login_request = ''http://h/_pigeon/client/v1/login''"
  "rq_url (publish_request user) = ''http://h/_pigeon/client/v1/keys/upload''"
  by (simp_all add: login_request_def publish_request_def)

lemma upload_fits [simp]: "length (wire [''media'', tally (Suc (Suc 0)), bytes_str photo]) < 52428800"
  by (simp add: wire_def put_text_def str_bytes_def bytes_str_def)

lemma encrypted_image_round_trips_send_to_display: "passes () None encrypted_image_round_trips_send_to_display"
  unfolding encrypted_image_round_trips_send_to_display_def passes_login
  by (simp add: client_defs crypto_steps sym_defs show_defs send_defs net_defs image_defs received_step ascii_utf8 not_less less_imp_le)

definition invite_into_encrypted_room_broadcasts_the_commit :: "(unit, unit) test" where
  "invite_into_encrypted_room_broadcasts_the_commit =
     bnd (test_login ''@alice:s'') (\<lambda>alice.
     bnd (on_client (on_vault (create_group C ''!enc:s''))) (\<lambda>_.
     bnd (new_engine ''bob'' ''@bob:s'') (\<lambda>_.
     bnd (on_engine ''bob'' (key_packages C 1)) (\<lambda>kps.
     (let E = test_env
           [(to_path POST ''/_pigeon/client/v1/rooms/!enc:s/invite'', 200, event_reply ''$inv''),
            (to_path POST ''/_pigeon/client/v1/keys/query'', 200,
              JObj [(''device_keys'', JObj [(''@bob:s'', JObj [(''D2'', device_entry ''@bob:s'' ''D2'')])])]),
            (to_path POST ''/_pigeon/client/v1/keys/claim'', 200,
              JObj [(''one_time_keys'', JObj [(''@bob:s'', JObj [(''D2'',
                 JObj [(''key_id'', JStr ''kp-x''), (''package'', JStr (kps ! 0))])])])]),
            ((\<lambda>rq. rq_method rq = PUT \<and> url_has ''/sendToDevice/p.mls.welcome/'' rq), 200, JObj []),
            (to_send ''p.mls.commit'', 200, event_reply ''$c'')]
      in bnd (on_client (client_invite E alice ''!enc:s'' ''@bob:s'')) (\<lambda>_.
         bnd (first_request (url_contains ''/send/p.mls.commit/'')) (\<lambda>sent.
         bnd (as_string (jindex (json_of_body (rq_body sent)) ''commit'')) (\<lambda>commit.
         bnd (assert (commit \<noteq> [])) (\<lambda>_.
         bnd (first_request (url_contains ''/sendToDevice/p.mls.welcome/'')) (\<lambda>sent.
         bnd (as_string (jindex (jindex (jindex (jindex (json_of_body (rq_body sent)) ''messages'') ''@bob:s'') ''D2'') ''welcome''))
           (\<lambda>welcome_b64.
         bnd (on_engine ''bob'' (join_from_welcome C welcome_b64)) (\<lambda>_.
         bnd (on_engine ''bob'' (has_group C ''!enc:s'')) (\<lambda>held. assert held)))))))))))))"

lemmas invite_defs = client_invite_def invite_def welcome_to_group_def welcome_device_def claim_all_devices_def query_keys_def
  claim_keys_def device_ids_of_def send_to_device_def device_entry_def

lemma on_core_net_step: "on_core_net m w = (case m (wd_net w) of (r, n) \<Rightarrow> (r, w\<lparr>wd_net := n\<rparr>))"
  by (simp add: on_core_net_def)

lemma invite_into_encrypted_room_broadcasts_the_commit: "passes () None invite_into_encrypted_room_broadcasts_the_commit"
  unfolding invite_into_encrypted_room_broadcasts_the_commit_def passes_login
  by (simp add: client_defs crypto_steps sym_defs show_defs send_defs net_defs image_defs received_step invite_defs on_core_net_step)

end
