(* ===== verification/Spec2Isabelle.thy ===== *)
theory Spec2Isabelle
  imports Rooms_Spec Migrate_Spec Overlap Restart Error_Types Sync_Loop Inbound_Spec Crash Delivery Reopen Rooms_Tests
begin

text \<open>
  Verification of the Pigeon mobile client core, the Rust crate \<open>core/\<close> of this repository: the
  offline-first store, the HTTP client, the MLS engine wrapper, the session, the room methods and the
  sync loop that the Android and iOS apps call through generated bindings.

  How the program is put together.  A \<open>PigeonClient\<close> (\<open>session.rs\<close>) owns an HTTP client (\<open>api.rs\<close>), a
  SQLite store (\<open>store.rs\<close>) and, if an MLS identity could be set up, an engine (\<open>e2ee.rs\<close>) whose state is
  saved in the host's key store.  The room methods (\<open>rooms.rs\<close>) read the store, queue messages and talk
  to the server; the sync loop (\<open>sync.rs\<close>) folds the server's batches into the store, joins groups from
  Welcomes (to-device), decrypts, and flushes the queue of unsent messages.

  Theories and what they model:
  \<^item> \<open>Prelude\<close>, \<open>Text_Fmt\<close>, \<open>Json\<close>: row updates, sums, sorting; the crate's formatting; \<open>serde_json::Value\<close> and
    the interface \<open>codec\<close> of stored text.  \<open>Act\<close>: a method returning a \<open>Result\<close> is an action from the state
    to a result and the new state; \<open>bnd\<close> is \<open>.await?\<close>, \<open>catch\<close> a match on the outcome.
  \<^item> \<open>Errors\<close> (\<open>lib.rs\<close> and the error types of the others), \<open>Media\<close> (\<open>media.rs\<close>), \<open>Store\<close> (\<open>store.rs\<close>: a record
    of the tables, one function per method, SQL written out as list operations), \<open>Migrate\<close> (\<open>init\<close> and
    \<open>migrate\<close>), \<open>Api\<close> (\<open>api.rs\<close>: every endpoint, with the request it makes), \<open>Keys\<close> (\<open>keys.rs\<close>), \<open>E2ee\<close>
    (\<open>e2ee.rs\<close> and the key store helpers), \<open>Client\<close> (the world and the session blob), \<open>Session\<close>
    (\<open>session.rs\<close>), \<open>Timeline\<close> and \<open>Rooms\<close> (\<open>rooms.rs\<close>), \<open>Sync\<close> and \<open>Sync_Loop\<close> (\<open>sync.rs\<close>: a turn of the loop,
    its turns up to a cancellation, and the endless loop), \<open>Host\<close> (what the application calls besides a client's
    methods: the statics it sets, opening a store file, the self tests).  A method has its Rust name,
    with the prefix \<open>client_\<close> where the name is also one of the API or the store.
  \<^item> \<open>Samples\<close>: concrete parameters and worlds for the closed instances of the theorems.
  \<^item> \<open>Json_Code\<close>: a text of JSON values that parses back; \<open>Sym_Mls\<close>: a symbolic MLS engine (groups with
    epochs, single use key packages, ciphertext that opens once and in its epoch only), which
    satisfies every law that is assumed of the real one; clients and worlds that run on it.
  \<^item> \<open>Store_Tests\<close>, \<open>Reopen\<close>, \<open>Engine_Tests\<close>, \<open>Http_Tests\<close>, \<open>Client_Tests\<close>, \<open>Rooms_Tests\<close>: the crate's unit tests, each a
    definition with the test's name, steps and assertions, and a lemma that it passes on the model.
    \<open>Reopen\<close> writes the tables to the file's rows and reads them back, for the two tests that reopen it; a
    mock server is a list of conditions on requests with replies, two engines are two named devices, and calls
    that overlap are passes of \<open>Overlap\<close> polled in turn.

  What the lemmas show:
  \<^item> \<open>Lww\<close>, \<open>Store_Log\<close>, \<open>Store_Conv\<close>: current state is a last-writer-wins map (a locale, interpreted on
    \<open>apply_one\<close>), the log a deduplicated list; stores that saw the same events in any order and batching
    agree on every read.
  \<^item> \<open>Store_Inv\<close>: the store's invariant and that every operation keeps it, for any condition on rows that its
    writes meet (a locale, interpreted on coherent payloads and on no condition); \<open>reachable\<close> stores.
  \<^item> \<open>Store_Reads\<close>, \<open>Store_Send\<close>, \<open>Store_Spec\<close>: what the reads return, on every branch, and what queueing,
    acknowledging and failing a send do.
  \<^item> \<open>Api_Spec\<close> (requests, typed errors, key claims), \<open>E2ee_Spec\<close> (the saved engine is the one in memory),
    \<open>Session_Spec\<close> (restore, logout).
  \<^item> \<open>Client_Inv\<close>: every method of a client changes its own store only and keeps its shape; while the server's
    replies can be stored exactly, it moves the store by the store's own operations, so the invariant holds.
  \<^item> \<open>Send_Queue\<close>: \<open>flush_pending\<close> refines an abstract queue whose fates are the server's answers; what leaves
    for an encrypted room is what MLS made of the message; what happens online and offline.
  \<^item> \<open>Overlap\<close>: a flush pass as a machine that is suspended while a request is in flight, under
    \<open>send_lock\<close>, interleaved with everything else; run without interruption it is \<open>flush_pending\<close>, world and all.
  \<^item> \<open>Sync_Spec\<close>: backoff, fatal errors, the order of events and token, redelivered Welcomes, notifications.
  \<^item> \<open>Sync_Loop\<close>: when \<open>run_sync\<close> returns and when it runs for ever; what an outage does to it and to the queue.
  \<^item> \<open>Inbound_Spec\<close>: the pass over inbound MLS events decides all events but the waiting ones, once.
  \<^item> \<open>Crash\<close>: a process that dies inside a sync batch; the redelivered batch ends in the same state, because the
    check for the group keeps a Welcome from being joined twice.
  \<^item> \<open>Error_Types\<close>: an effect typing of the actions, and with it the kinds of error each method can end with.
  \<^item> \<open>Restart\<close>: a sign-in, any calls of the client, the end of the process and the next one: the session resumes.
  \<^item> \<open>Rooms_Spec\<close>: the upload limit, and three situations where a promise is not kept.
  \<^item> \<open>Migrate_Spec\<close>: upgrades from every schema version; interrupted upgrades.
  \<^item> \<open>Delivery\<close>: two devices end to end.  What one client encrypts, uploads, invites or broadcasts and a
    server delivers is what the other client's sync cycle decrypts, shows, joins or follows; a backup that is
    restored is the device; and the one way in which a delivered message is lost.
  The locale \<open>step_rel\<close> (a reflexive and transitive relation between worlds) is the interface between
  the combinators of \<open>Act\<close> and the frames of the components; it is interpreted on each of them
  (requests, stores, engine, store moves, the shape of the store, late moves of a cycle, uploads, schema growth,
  held groups, the resumable session).

  Parameters.  The server is a function from requests and its own state to a reply or a transport
  error; MLS, base64, JSON text, the key store, the content hash, the clock and the opening of a SQLite
  file are the fields of \<open>client_env\<close> and \<open>crypto_env\<close>.  Hypotheses about them are named predicates
  of two sorts.  Documented behaviour of code outside the crate: \<open>codec_laws\<close>, \<open>crypto_laws\<close>, \<open>key_store_laws\<close>,
  \<open>groups_stable\<close>, \<open>stable_joins\<close>, \<open>in_step\<close>, \<open>admits\<close>, \<open>advances\<close>, \<open>media_laws\<close>.  And situations that a theorem is about,
  which nothing promises and which the text of the theorem names: a server that \<open>unreachable\<close>, \<open>outage\<close> or
  \<open>takes_events\<close> describes; replies without floating point numbers (\<open>replies_storable\<close>: such a number need not
  read back exactly from stored text); a key store that takes every write and an engine whose failed
  operations change nothing (\<open>durable_key_store\<close>, \<open>steady_mls\<close>, together \<open>reliable\<close>), or that never fails to
  encrypt (\<open>always_seals\<close>); a Welcome that comes with its room's id (\<open>names_its_room\<close>).  Each theorem that
  assumes one has an instance where it holds.

  Bounds.  \<open>run_sync\<close> takes the number of turns of the loop after which the host cancels it; all
  statements about it hold for every number, and \<open>run_sync_forever\<close> is the loop without a bound, a partial
  function that is \<open>None\<close> where it never returns.  Counters and sizes have the width they have in Rust; the
  columns of the store are \<open>int\<close> within the range of \<open>i64\<close>, with the one addition that can leave it
  (\<open>echo_depth\<close>) checked.  No other definition takes fuel: every loop is a recursion over a list.

  Not modelled.  Apart from the flush pass (\<open>Overlap\<close>) methods run one at a time, so the mutexes of the
  connection and the device and the interleaving of other methods are left out, as are poisoned
  locks, a failing disk under SQLite, and one process using two clients.  The statics \<open>set_log_sink\<close>,
  \<open>set_key_store\<close> and \<open>set_store_dir\<close> set are fields of the world and the environment.  The apps, the bindings and the
  integration tests against mocked and live servers are outside the crate's logic.
\<close>

end
